(* ===== verification/Prelude.thy ===== *)
theory Prelude
  imports Main "HOL-Library.Word" "HOL-Library.Char_ord" "HOL-Library.List_Lexorder"
    "HOL-Library.Product_Lexorder"
begin

text \<open>
  The vocabulary shared by every component: identifiers, instants, JSON values, tables as lists of
  rows with the four SQL verbs on them (select, insert, update, delete), the error values of the Go
  packages, and the two-level state monad in which the services are written.
\<close>

section \<open>Names of the model's types\<close>

type_synonym uuid = "128 word"     \<comment> \<open>google/uuid: 16 bytes, ordered bytewise as an unsigned number\<close>
type_synonym time = int            \<comment> \<open>microseconds since the epoch, the resolution of timestamptz\<close>
type_synonym bytes = string        \<comment> \<open>a Go string or []byte: a list of bytes\<close>

abbreviation nil_uuid :: uuid where
  "nil_uuid \<equiv> 0"

abbreviation second :: time where
  "second \<equiv> 1000000"

text \<open>The JSON values that columns of type jsonb and request bodies denote.\<close>

datatype json =
    JNull
  | JBool bool
  | JNum string
  | JStr string
  | JArr "json list"
  | JObj "(string \<times> json) list"

text \<open>Go's decoder and jsonb both keep the last of two members with the same name.\<close>

definition obj_get :: "(string \<times> json) list \<Rightarrow> string \<Rightarrow> json option" where
  "obj_get kvs k = map_of (rev kvs) k"

section \<open>Rule collections\<close>

named_theorems txn_defs \<open>definitions of the statements, unfolded to run a transaction\<close>
named_theorems frame \<open>what a statement leaves unchanged\<close>

section \<open>Tables\<close>

text \<open>
  A table is the list of its rows. \<open>upd_rows\<close> and \<open>del_rows\<close> are the effects of
  \<open>update ... where\<close> and \<open>delete ... where\<close>; \<open>find\<close> is a select that returns at most one row.
\<close>

definition upd_rows :: "('r \<Rightarrow> bool) \<Rightarrow> ('r \<Rightarrow> 'r) \<Rightarrow> 'r list \<Rightarrow> 'r list" where
  "upd_rows P f rs = map (\<lambda>r. if P r then f r else r) rs"

definition del_rows :: "('r \<Rightarrow> bool) \<Rightarrow> 'r list \<Rightarrow> 'r list" where
  "del_rows P rs = filter (\<lambda>r. \<not> P r) rs"

lemma upd_rows_simps [simp]:
  "upd_rows P f [] = []"
  "upd_rows P f (r # rs) = (if P r then f r else r) # upd_rows P f rs"
  by (simp_all add: upd_rows_def)

lemma length_upd_rows [simp]: "length (upd_rows P f rs) = length rs"
  by (simp add: upd_rows_def)

lemma set_upd_rows: "set (upd_rows P f rs) = f ` {r \<in> set rs. P r} \<union> {r \<in> set rs. \<not> P r}"
  by (induction rs) auto

lemma in_upd_rowsE:
  assumes "x \<in> set (upd_rows P f rs)"
  obtains (changed) r where "r \<in> set rs" "P r" "x = f r" | (kept) "x \<in> set rs" "\<not> P x"
  using assms by (auto simp: set_upd_rows)

lemma in_upd_rows_changed: "r \<in> set rs \<Longrightarrow> P r \<Longrightarrow> f r \<in> set (upd_rows P f rs)"
  by (auto simp: set_upd_rows)

lemma in_upd_rows_kept: "r \<in> set rs \<Longrightarrow> \<not> P r \<Longrightarrow> r \<in> set (upd_rows P f rs)"
  by (auto simp: set_upd_rows)

lemma upd_rows_none: "(\<And>r. r \<in> set rs \<Longrightarrow> \<not> P r) \<Longrightarrow> upd_rows P f rs = rs"
  by (induction rs) auto

lemma map_upd_rows:
  "(\<And>r. r \<in> set rs \<Longrightarrow> P r \<Longrightarrow> g (f r) = g r) \<Longrightarrow> map g (upd_rows P f rs) = map g rs"
  by (induction rs) auto

lemma filter_upd_rows:
  assumes "\<And>r. r \<in> set rs \<Longrightarrow> P r \<Longrightarrow> \<not> Q r \<and> \<not> Q (f r)"
  shows "filter Q (upd_rows P f rs) = filter Q rs"
  using assms by (induction rs) auto

lemma set_del_rows [simp]: "set (del_rows P rs) = {r \<in> set rs. \<not> P r}"
  by (auto simp: del_rows_def)

lemma filter_del_rows:
  assumes "\<And>r. r \<in> set rs \<Longrightarrow> P r \<Longrightarrow> \<not> Q r"
  shows "filter Q (del_rows P rs) = filter Q rs"
  using assms by (induction rs) (auto simp: del_rows_def)

lemma del_rows_none: "(\<And>r. r \<in> set rs \<Longrightarrow> \<not> P r) \<Longrightarrow> del_rows P rs = rs"
  by (simp add: del_rows_def)

lemma distinct_map_del_rows: "distinct (map g rs) \<Longrightarrow> distinct (map g (del_rows P rs))"
  by (simp add: del_rows_def distinct_map_filter)

lemma find_SomeD: "find P rs = Some r \<Longrightarrow> r \<in> set rs \<and> P r"
  by (induction rs) (auto split: if_splits)

lemma find_NoneD: "find P rs = None \<Longrightarrow> r \<in> set rs \<Longrightarrow> \<not> P r"
  by (induction rs) (auto split: if_splits)

lemma find_one:
  assumes "r \<in> set rs" "P r" "\<And>s. s \<in> set rs \<Longrightarrow> P s \<Longrightarrow> s = r"
  shows "find P rs = Some r"
proof (cases "find P rs")
  case None
  then show ?thesis using find_NoneD [OF None assms(1)] assms(2) by simp
next
  case (Some s)
  then show ?thesis using find_SomeD [OF Some] assms(3) by simp
qed

lemma find_append_new:
  "find P (xs @ ys) = (case find P xs of None \<Rightarrow> find P ys | Some x \<Rightarrow> Some x)"
  by (induction xs) auto

lemma find_del: "find (\<lambda>s. k s = h) (del_rows (\<lambda>s. k s = h') rs) = (if h = h' then None else find (\<lambda>s. k s = h) rs)"
  by (induction rs) (auto simp: del_rows_def)

lemma find_cong_rows: "(\<And>r. r \<in> set rs \<Longrightarrow> P r = Q r) \<Longrightarrow> find P rs = find Q rs"
  by (induction rs) auto

text \<open>A key: two rows of the table that agree on it are the same row.\<close>

lemma key_unique: "distinct (map g rs) \<Longrightarrow> r \<in> set rs \<Longrightarrow> s \<in> set rs \<Longrightarrow> g r = g s \<Longrightarrow> r = s"
  by (auto simp: distinct_map inj_on_def)

lemma find_key:
  assumes "distinct (map g rs)" "r \<in> set rs" "Q r"
  shows "find (\<lambda>x. g x = g r \<and> Q x) rs = Some r"
  using assms
proof (induction rs)
  case (Cons x rs)
  show ?case
  proof (cases "x = r")
    case False
    with Cons.prems have "r \<in> set rs" by simp
    then have "g r \<in> g ` set rs" by blast
    with Cons.prems(1) have "g x \<noteq> g r" by auto
    with Cons \<open>r \<in> set rs\<close> show ?thesis by simp
  qed (use Cons.prems in simp)
qed simp

text \<open>One row of the table changes.\<close>

lemma distinct_upd_one:
  assumes "distinct (map g rs)" "distinct rs" "\<And>x. x \<in> set rs \<Longrightarrow> P x \<longleftrightarrow> x = r"
    and "\<And>x. x \<in> set rs \<Longrightarrow> x \<noteq> r \<Longrightarrow> g x \<noteq> g (f r)"
  shows "distinct (map g (upd_rows P f rs))"
  using assms by (induction rs) (auto simp: set_upd_rows, metis+)

lemma find_upd_same:
  "(\<And>x. P x \<Longrightarrow> P (f x)) \<Longrightarrow> find P (upd_rows P f rs) = map_option f (find P rs)"
  by (induction rs) auto

text \<open>One entry of a list of program counters changes.\<close>

lemma length_filter_update:
  assumes "i < length xs"
  shows "length (filter P (xs[i := y])) + (if P (xs ! i) then 1 else 0) =
    length (filter P xs) + (if P y then 1 else 0)"
proof -
  have "xs = take i xs @ xs ! i # drop (Suc i) xs" using assms by (rule id_take_nth_drop)
  then have "filter P xs = filter P (take i xs @ xs ! i # drop (Suc i) xs)" by simp
  then show ?thesis by (simp add: upd_conv_take_nth_drop [OF assms])
qed

section \<open>Reachable states and invariants\<close>

inductive reachable :: "('s \<Rightarrow> bool) \<Rightarrow> ('s \<Rightarrow> 's \<Rightarrow> bool) \<Rightarrow> 's \<Rightarrow> bool" for start step where
  reach_start: "start s \<Longrightarrow> reachable start step s"
| reach_step: "reachable start step s \<Longrightarrow> step s t \<Longrightarrow> reachable start step t"

text \<open>
  A component with a step relation promises an invariant; whoever relies on its reachable states
  gets it from here.
\<close>

locale invariant_system =
  fixes start :: "'s \<Rightarrow> bool"
    and step :: "'s \<Rightarrow> 's \<Rightarrow> bool"
    and inv :: "'s \<Rightarrow> bool"
  assumes inv_start: "start s \<Longrightarrow> inv s"
    and inv_step: "inv s \<Longrightarrow> step s t \<Longrightarrow> inv t"
begin

lemma reachable_inv: "reachable start step s \<Longrightarrow> inv s"
  by (induction rule: reachable.induct) (auto intro: inv_start inv_step)

lemma step_inv: "reachable start step s \<Longrightarrow> step s t \<Longrightarrow> inv s \<and> inv t"
  by (blast intro: reachable_inv inv_step)

text \<open>A fact that every step out of an invariant state keeps is kept along every run.\<close>

lemma kept_along:
  assumes "step\<^sup>*\<^sup>* s t" "reachable start step s" "P s"
    and "\<And>u v. inv u \<Longrightarrow> step u v \<Longrightarrow> P u \<Longrightarrow> P v"
  shows "P t"
proof -
  from assms(1) have "reachable start step t \<and> P t"
  proof (induction rule: rtranclp_induct)
    case base
    show ?case using assms(2,3) by simp
  next
    case (step u v)
    then show ?case using assms(4) reachable_inv by (blast intro: reach_step)
  qed
  then show ?thesis ..
qed

end

end
