(* ===== verification/GoStrings.thy ===== *)
theory GoStrings
  imports Prelude
begin

text \<open>
  The functions of Go's \<open>strings\<close> and \<open>strconv\<close> packages that the repository calls, on byte
  strings. \<open>strings.ToLower\<close> lowers an all-ASCII string byte by byte; on any other string it maps
  every rune with the Unicode case tables, which are the argument \<open>uni\<close> of \<open>to_lower\<close>.
\<close>

section \<open>Bytes\<close>

definition is_ascii :: "char \<Rightarrow> bool" where
  "is_ascii c = (of_char c < (128::nat))"

definition is_lower :: "char \<Rightarrow> bool" where
  "is_lower c = (97 \<le> (of_char c :: nat) \<and> of_char c \<le> (122::nat))"

definition is_upper :: "char \<Rightarrow> bool" where
  "is_upper c = (65 \<le> (of_char c :: nat) \<and> of_char c \<le> (90::nat))"

definition is_digit :: "char \<Rightarrow> bool" where
  "is_digit c = (48 \<le> (of_char c :: nat) \<and> of_char c \<le> (57::nat))"

definition lower_byte :: "char \<Rightarrow> char" where
  "lower_byte c = (if is_upper c then char_of (of_char c + 32 :: nat) else c)"

text \<open>The character class \<open>[a-z0-9]\<close> of the slug patterns.\<close>

definition slug_char :: "char \<Rightarrow> bool" where
  "slug_char c = (is_lower c \<or> is_digit c)"

lemma slug_char_dash [simp]: "\<not> slug_char CHR ''-''"
  by (simp add: slug_char_def is_lower_def is_digit_def)

definition to_lower :: "(string \<Rightarrow> string) \<Rightarrow> string \<Rightarrow> string" where
  "to_lower uni s = (if list_all is_ascii s then map lower_byte s else uni s)"

lemma lower_byte_ascii: "is_ascii c \<Longrightarrow> is_ascii (lower_byte c)"
  by (auto simp: lower_byte_def is_ascii_def is_upper_def)

lemma slug_char_ascii: "slug_char c \<Longrightarrow> is_ascii c"
  by (auto simp: slug_char_def is_ascii_def is_lower_def is_digit_def)

lemma slug_char_lower: "slug_char c \<Longrightarrow> lower_byte c = c"
  by (auto simp: slug_char_def is_lower_def is_upper_def is_digit_def lower_byte_def)

lemma lower_byte_idem [simp]: "lower_byte (lower_byte c) = lower_byte c"
  by (auto simp: lower_byte_def is_upper_def)

lemma to_lower_idem:
  assumes "\<And>s. to_lower uni (uni s) = uni s"
  shows "to_lower uni (to_lower uni s) = to_lower uni s"
  using assms
  by (cases "list_all is_ascii s") (auto simp: to_lower_def list_all_iff lower_byte_ascii)

section \<open>Prefixes and trimming\<close>

definition has_prefix :: "string \<Rightarrow> string \<Rightarrow> bool" where
  "has_prefix s p = (take (length p) s = p)"

definition trim_prefix :: "string \<Rightarrow> string \<Rightarrow> string" where
  "trim_prefix s p = (if has_prefix s p then drop (length p) s else s)"

definition trim_suffix :: "string \<Rightarrow> string \<Rightarrow> string" where
  "trim_suffix s p =
     (let n = length s - length p
      in if length p \<le> length s \<and> drop n s = p then take n s else s)"

definition trim_left :: "string \<Rightarrow> string \<Rightarrow> string" where
  "trim_left s cs = dropWhile (\<lambda>c. c \<in> set cs) s"

definition trim_right :: "string \<Rightarrow> string \<Rightarrow> string" where
  "trim_right s cs = rev (dropWhile (\<lambda>c. c \<in> set cs) (rev s))"

definition trim :: "string \<Rightarrow> string \<Rightarrow> string" where
  "trim s cs = trim_right (trim_left s cs) cs"

lemma has_prefix_append [simp]: "has_prefix (p @ s) p"
  by (simp add: has_prefix_def)

lemma trim_prefix_append [simp]: "trim_prefix (p @ s) p = s"
  by (simp add: trim_prefix_def)

lemma set_trim_right: "set (trim_right s cs) \<subseteq> set s"
  unfolding trim_right_def using set_dropWhileD by fastforce

lemma set_trim_left: "set (trim_left s cs) \<subseteq> set s"
  unfolding trim_left_def using set_dropWhileD by fastforce

lemma set_trim: "set (trim s cs) \<subseteq> set s"
  unfolding trim_def using set_trim_right set_trim_left by blast

lemma length_trim_right: "length (trim_right s cs) \<le> length s"
  by (simp add: trim_right_def length_dropWhile_le [of _ "rev s", simplified])

lemma length_trim_left: "length (trim_left s cs) \<le> length s"
  by (simp add: trim_left_def length_dropWhile_le)

lemma length_trim: "length (trim s cs) \<le> length s"
  unfolding trim_def using length_trim_right length_trim_left le_trans by blast

lemma hd_trim_left: "trim_left s cs \<noteq> [] \<Longrightarrow> hd (trim_left s cs) \<notin> set cs"
  unfolding trim_left_def by (rule hd_dropWhile)

lemma last_trim_right: "trim_right s cs \<noteq> [] \<Longrightarrow> last (trim_right s cs) \<notin> set cs"
  unfolding trim_right_def by (metis hd_dropWhile last_rev rev_is_Nil_conv)

lemma hd_trim_right: "trim_right s cs \<noteq> [] \<Longrightarrow> hd (trim_right s cs) = hd s"
proof -
  assume ne: "trim_right s cs \<noteq> []"
  have "s = trim_right s cs @ rev (takeWhile (\<lambda>c. c \<in> set cs) (rev s))"
    unfolding trim_right_def
    by (metis rev_append rev_rev_ident takeWhile_dropWhile_id)
  with ne show ?thesis by (metis hd_append2)
qed

lemma hd_trim: "trim s cs \<noteq> [] \<Longrightarrow> hd (trim s cs) \<notin> set cs"
  unfolding trim_def
  by (metis hd_trim_left hd_trim_right set_empty set_trim_right subset_empty)

lemma last_trim: "trim s cs \<noteq> [] \<Longrightarrow> last (trim s cs) \<notin> set cs"
  unfolding trim_def by (rule last_trim_right)

lemma trim_left_id: "(s \<noteq> [] \<Longrightarrow> hd s \<notin> set cs) \<Longrightarrow> trim_left s cs = s"
  by (cases s) (auto simp: trim_left_def)

lemma trim_right_id: "(s \<noteq> [] \<Longrightarrow> last s \<notin> set cs) \<Longrightarrow> trim_right s cs = s"
  by (cases s rule: rev_cases) (auto simp: trim_right_def)

lemma trim_id: "(s \<noteq> [] \<Longrightarrow> hd s \<notin> set cs \<and> last s \<notin> set cs) \<Longrightarrow> trim s cs = s"
  by (simp add: trim_def trim_left_id trim_right_id)

lemma trim_idem [simp]: "trim (trim s cs) cs = trim s cs"
  by (rule trim_id) (simp add: hd_trim last_trim)

section \<open>File names\<close>

text \<open>\<open>filepath.Ext\<close>: from the last dot of the last path element.\<close>

definition path_ext :: "string \<Rightarrow> string" where
  "path_ext s =
     (let r = takeWhile (\<lambda>c. c \<noteq> CHR ''/'') (rev s)
      in if CHR ''.'' \<in> set r then CHR ''.'' # rev (takeWhile (\<lambda>c. c \<noteq> CHR ''.'') r) else [])"

section \<open>White space\<close>

text \<open>
  \<open>strings.TrimSpace\<close> removes white space as \<open>unicode.IsSpace\<close> defines it: six ASCII bytes and
  the UTF-8 encodings below.
\<close>

definition uni_spaces :: "string list" where
  "uni_spaces =
     map (map char_of)
       ([[0xC2, 0x85], [0xC2, 0xA0], [0xE1, 0x9A, 0x80], [0xE2, 0x80, 0xA8], [0xE2, 0x80, 0xA9],
         [0xE2, 0x80, 0xAF], [0xE2, 0x81, 0x9F], [0xE3, 0x80, 0x80 :: nat]] @
        map (\<lambda>b. [0xE2, 0x80, b]) [0x80 ..< 0x8B])"

definition ascii_space :: "char \<Rightarrow> bool" where
  "ascii_space c = (of_char c \<in> {9, 10, 11, 12, 13, 32 :: nat})"

definition all_spaces :: "string list" where
  "all_spaces = map (\<lambda>n. [char_of n]) [9, 10, 11, 12, 13, 32 :: nat] @ uni_spaces"

lemma all_spaces_nonempty: "sp \<in> set all_spaces \<Longrightarrow> sp \<noteq> []"
  by (auto simp: all_spaces_def uni_spaces_def)

function drop_spaces :: "string list \<Rightarrow> string \<Rightarrow> string" where
  "drop_spaces sps s =
     (case find (\<lambda>sp. sp \<noteq> [] \<and> has_prefix s sp) sps of
        None \<Rightarrow> s
      | Some sp \<Rightarrow> drop_spaces sps (drop (length sp) s))"
  by pat_completeness auto
termination
proof (relation "measure (\<lambda>(sps, s). length s)")
  fix sps s sp
  assume "find (\<lambda>sp. sp \<noteq> [] \<and> has_prefix s sp) sps = Some sp"
  then have sp: "sp \<noteq> []" "take (length sp) s = sp"
    by (auto dest: find_SomeD simp: has_prefix_def)
  then have "s \<noteq> []" by auto
  with sp show "((sps, drop (length sp) s), sps, s) \<in> measure (\<lambda>(sps, s). length s)"
    by simp
qed simp

declare drop_spaces.simps [simp del]

definition trim_space :: "string \<Rightarrow> string" where
  "trim_space s = rev (drop_spaces (map rev all_spaces) (rev (drop_spaces all_spaces s)))"

lemma drop_spaces_suffix: "\<exists>n. drop_spaces sps s = drop n s"
proof (induction sps s rule: drop_spaces.induct)
  case (1 sps s)
  show ?case
  proof (cases "find (\<lambda>sp. sp \<noteq> [] \<and> has_prefix s sp) sps")
    case None
    then have "drop_spaces sps s = drop 0 s" by (simp add: drop_spaces.simps [of sps s])
    then show ?thesis by blast
  next
    case (Some sp)
    with "1.IH" obtain n where "drop_spaces sps (drop (length sp) s) = drop n (drop (length sp) s)"
      by blast
    with Some have "drop_spaces sps s = drop (n + length sp) s"
      by (simp add: drop_spaces.simps [of sps s])
    then show ?thesis by blast
  qed
qed

lemma set_drop_spaces: "set (drop_spaces sps s) \<subseteq> set s"
  by (metis drop_spaces_suffix set_drop_subset)

lemma length_drop_spaces: "length (drop_spaces sps s) \<le> length s"
  by (metis drop_spaces_suffix length_drop diff_le_self)

lemma set_trim_space: "set (trim_space s) \<subseteq> set s"
proof -
  have "set (trim_space s) \<subseteq> set (rev (drop_spaces all_spaces s))"
    unfolding trim_space_def set_rev by (rule set_drop_spaces [THEN subset_trans]) simp
  then show ?thesis using set_drop_spaces by fastforce
qed

lemma length_trim_space: "length (trim_space s) \<le> length s"
  unfolding trim_space_def
  by (metis length_drop_spaces length_rev order_trans)

lemma drop_spaces_covers:
  "c \<in> set s \<Longrightarrow> c \<in> set (drop_spaces sps s) \<or> (\<exists>sp \<in> set sps. c \<in> set sp)"
proof (induction sps s rule: drop_spaces.induct)
  case (1 sps s)
  show ?case
  proof (cases "find (\<lambda>sp. sp \<noteq> [] \<and> has_prefix s sp) sps")
    case None
    then show ?thesis using "1.prems" by (simp add: drop_spaces.simps [of sps s])
  next
    case (Some sp)
    then have sp: "sp \<in> set sps" "take (length sp) s = sp"
      by (auto dest: find_SomeD simp: has_prefix_def)
    have "c \<in> set (take (length sp) s) \<or> c \<in> set (drop (length sp) s)"
      using "1.prems" by (metis Un_iff append_take_drop_id set_append)
    then show ?thesis using "1.IH" [OF Some] sp Some
      by (auto simp: drop_spaces.simps [of sps s])
  qed
qed

lemma trim_space_covers:
  assumes "c \<in> set s"
  shows "c \<in> set (trim_space s) \<or> (\<exists>sp \<in> set all_spaces. c \<in> set sp)"
proof -
  let ?t = "rev (drop_spaces all_spaces s)"
  have "c \<in> set (drop_spaces (map rev all_spaces) ?t) \<or> (\<exists>sp \<in> set all_spaces. c \<in> set sp)"
    if "c \<in> set ?t"
    using drop_spaces_covers [OF that, of "map rev all_spaces"] by auto
  then show ?thesis
    using drop_spaces_covers [OF assms, of all_spaces] by (auto simp: trim_space_def)
qed

lemma trim_space_Nil [simp]: "trim_space [] = []"
  using length_trim_space [of "[]"] by simp

text \<open>A text of printable ASCII characters has nothing to trim.\<close>

definition visible_char :: "char \<Rightarrow> bool" where
  "visible_char c = (33 \<le> (of_char c :: nat) \<and> of_char c < (128 :: nat))"

lemma spaces_invisible: "sp \<in> set all_spaces \<Longrightarrow> \<exists>c \<in> set sp. \<not> visible_char c"
proof -
  have "list_all (\<lambda>sp. list_ex (\<lambda>c. \<not> visible_char c) sp) all_spaces"
    by (simp add: all_spaces_def uni_spaces_def visible_char_def upt_rec char_of_def bit_0)
  then show "sp \<in> set all_spaces \<Longrightarrow> \<exists>c \<in> set sp. \<not> visible_char c"
    by (auto simp: list_all_iff list_ex_iff)
qed

lemma drop_spaces_visible:
  assumes "list_all visible_char s" "\<And>sp. sp \<in> set sps \<Longrightarrow> \<exists>c \<in> set sp. \<not> visible_char c"
  shows "drop_spaces sps s = s"
proof -
  have "\<not> has_prefix s sp" if "sp \<in> set sps" for sp
    using assms(1) assms(2) [OF that] by (metis has_prefix_def in_set_takeD list_all_iff)
  then have "find (\<lambda>sp. sp \<noteq> [] \<and> has_prefix s sp) sps = None"
    by (simp add: find_None_iff)
  then show ?thesis by (simp add: drop_spaces.simps [of sps s])
qed

lemma trim_space_visible: "list_all visible_char s \<Longrightarrow> trim_space s = s"
  unfolding trim_space_def
  by (subst (2) drop_spaces_visible; (subst drop_spaces_visible)?) (auto dest: spaces_invisible)

section \<open>Splitting and joining\<close>

fun split_at :: "char \<Rightarrow> string \<Rightarrow> string \<Rightarrow> string list" where
  "split_at sep acc [] = [rev acc]"
| "split_at sep acc (c # cs) =
     (if c = sep then rev acc # split_at sep [] cs else split_at sep (c # acc) cs)"

definition go_split :: "string \<Rightarrow> char \<Rightarrow> string list" where
  "go_split s sep = split_at sep [] s"

fun go_join :: "string list \<Rightarrow> string \<Rightarrow> string" where
  "go_join [] sep = []"
| "go_join [s] sep = s"
| "go_join (s # t # ss) sep = s @ sep @ go_join (t # ss) sep"

lemma split_at_nonempty: "split_at sep acc s \<noteq> []"
  by (induction sep acc s rule: split_at.induct) auto

lemma go_split_nonempty [simp]: "go_split s sep \<noteq> []"
  by (simp add: go_split_def split_at_nonempty)

lemma split_at_none: "sep \<notin> set s \<Longrightarrow> split_at sep acc s = [rev acc @ s]"
  by (induction sep acc s rule: split_at.induct) auto

lemma split_at_first: "sep \<notin> set s \<Longrightarrow> split_at sep acc (s @ sep # r) = (rev acc @ s) # split_at sep [] r"
  by (induction s arbitrary: acc) auto

lemma go_split_first: "sep \<notin> set s \<Longrightarrow> go_split (s @ sep # r) sep = s # go_split r sep"
  by (simp add: go_split_def split_at_first)

lemma go_split_none: "sep \<notin> set s \<Longrightarrow> go_split s sep = [s]"
  by (simp add: go_split_def split_at_none)

lemma go_split_join:
  "ps \<noteq> [] \<Longrightarrow> (\<And>p. p \<in> set ps \<Longrightarrow> sep \<notin> set p) \<Longrightarrow> go_split (go_join ps [sep]) sep = ps"
proof (induction ps "[sep]" rule: go_join.induct)
  case (3 s t ss)
  then show ?case by (simp add: go_split_first)
qed (simp_all add: go_split_none)

lemma sep_cancel:
  "sep \<notin> set a \<Longrightarrow> sep \<notin> set b \<Longrightarrow> a @ sep # r = b @ sep # s \<longleftrightarrow> a = b \<and> r = s"
proof (induction a arbitrary: b)
  case Nil
  then show ?case by (cases b) auto
next
  case (Cons x a)
  then show ?case by (cases b) auto
qed

lemma join_split_at: "go_join (split_at sep acc s) [sep] = rev acc @ s"
proof (induction sep acc s rule: split_at.induct)
  case (2 sep acc c cs)
  show ?case
  proof (cases "c = sep")
    case True
    obtain x xs where "split_at sep [] cs = x # xs"
      using split_at_nonempty by (metis neq_Nil_conv)
    with True 2 show ?thesis by simp
  qed (use 2 in simp)
qed simp

lemma join_go_split [simp]: "go_join (go_split s sep) [sep] = s"
  by (simp add: go_split_def join_split_at)

lemma split_at_parts: "x \<in> set (split_at sep acc s) \<Longrightarrow> set x \<subseteq> set acc \<union> set s"
proof (induction sep acc s rule: split_at.induct)
  case (2 sep acc c cs)
  then show ?case by (fastforce split: if_splits)
qed auto

lemma split_at_no_sep: "x \<in> set (split_at sep acc s) \<Longrightarrow> sep \<notin> set acc \<Longrightarrow> sep \<notin> set x"
  by (induction sep acc s rule: split_at.induct) (auto split: if_splits)

lemma split_at_covers: "c \<in> set acc \<union> set s \<Longrightarrow> c \<noteq> sep \<Longrightarrow> \<exists>x \<in> set (split_at sep acc s). c \<in> set x"
  by (induction sep acc s rule: split_at.induct) auto

section \<open>Decimal numbers\<close>

definition digit_char :: "nat \<Rightarrow> char" where
  "digit_char d = char_of (48 + d)"

definition char_digit :: "char \<Rightarrow> nat" where
  "char_digit c = of_char c - 48"

fun itoa :: "nat \<Rightarrow> string" where
  "itoa n = (if n < 10 then [digit_char n] else itoa (n div 10) @ [digit_char (n mod 10)])"

declare itoa.simps [simp del]

definition atoi :: "string \<Rightarrow> nat" where
  "atoi s = foldl (\<lambda>v c. 10 * v + char_digit c) 0 s"

lemma char_digit_digit [simp]: "d < 10 \<Longrightarrow> char_digit (digit_char d) = d"
  by (simp add: char_digit_def digit_char_def)

lemma is_digit_digit [simp]: "d < 10 \<Longrightarrow> is_digit (digit_char d)"
  by (simp add: is_digit_def digit_char_def)

lemma atoi_itoa [simp]: "atoi (itoa n) = n"
proof (induction n rule: itoa.induct)
  case (1 n)
  then show ?case
    by (cases "n < 10") (simp_all add: itoa.simps [of n] atoi_def)
qed

lemma itoa_inject [simp]: "itoa m = itoa n \<longleftrightarrow> m = n"
  by (metis atoi_itoa)

lemma itoa_digits: "c \<in> set (itoa n) \<Longrightarrow> is_digit c"
proof (induction n rule: itoa.induct)
  case (1 n)
  then show ?case
    by (cases "n < 10") (auto simp: itoa.simps [of n])
qed

lemma itoa_nonempty [simp]: "itoa n \<noteq> []"
  by (simp add: itoa.simps [of n])


definition int_string :: "int \<Rightarrow> string" where
  "int_string n = (if n < 0 then ''-'' @ itoa (nat (- n)) else itoa (nat n))"

section \<open>Scanning numbers\<close>

text \<open>
  The part of \<open>fmt.Sscanf\<close> that the repository uses: literal text and \<open>%d\<close>, which skips white space
  other than line breaks; text after the last item is ignored.
\<close>

definition scan_space :: "string \<Rightarrow> string option" where
  "scan_space s =
     (let r = drop_spaces (removeAll [CHR 0x0A] all_spaces) s
      in if has_prefix r [CHR 0x0A] then None else Some r)"

definition scan_lit :: "string \<Rightarrow> string \<Rightarrow> string option" where
  "scan_lit p s = (if has_prefix s p then Some (drop (length p) s) else None)"

text \<open>\<open>%d\<close> into an unsigned integer of the given width, and into an \<open>int\<close>.\<close>

definition scan_uint :: "nat \<Rightarrow> string \<Rightarrow> (nat \<times> string) option" where
  "scan_uint w s = Option.bind (scan_space s) (\<lambda>s.
     let ds = takeWhile is_digit s
     in if ds = [] \<or> atoi ds \<ge> 2 ^ w then None else Some (atoi ds, dropWhile is_digit s))"

definition scan_int :: "string \<Rightarrow> (int \<times> string) option" where
  "scan_int s = Option.bind (scan_space s) (\<lambda>s.
     let neg = has_prefix s ''-'';
         s = (if has_prefix s ''-'' \<or> has_prefix s ''+'' then drop 1 s else s);
         ds = takeWhile is_digit s;
         n = (if neg then - int (atoi ds) else int (atoi ds))
     in if ds = [] \<or> n < - (2 ^ 63) \<or> n \<ge> 2 ^ 63 then None else Some (n, dropWhile is_digit s))"

lemma spaces_hd_invisible: "sp \<in> set all_spaces \<Longrightarrow> \<not> visible_char (hd sp)"
proof -
  have "list_all (\<lambda>sp. \<not> visible_char (hd sp)) all_spaces"
    by (simp add: all_spaces_def uni_spaces_def visible_char_def upt_rec char_of_def bit_0)
  then show "sp \<in> set all_spaces \<Longrightarrow> \<not> visible_char (hd sp)" by (auto simp: list_all_iff)
qed

lemma scan_space_visible: "visible_char c \<Longrightarrow> scan_space (c # s) = Some (c # s)"
proof -
  assume c: "visible_char c"
  have "\<not> has_prefix (c # s) sp" if "sp \<in> set all_spaces" "sp \<noteq> []" for sp
  proof
    assume "has_prefix (c # s) sp"
    then have "hd sp = c" using that(2) by (cases sp) (auto simp: has_prefix_def)
    then show False using c spaces_hd_invisible [OF that(1)] by simp
  qed
  then have "find (\<lambda>sp. sp \<noteq> [] \<and> has_prefix (c # s) sp) (removeAll [CHR 0x0A] all_spaces) = None"
    by (auto simp: find_None_iff)
  then have "drop_spaces (removeAll [CHR 0x0A] all_spaces) (c # s) = c # s"
    by (simp add: drop_spaces.simps [of _ "c # s"])
  then show ?thesis using c by (auto simp: scan_space_def has_prefix_def visible_char_def)
qed

lemma itoa_split: "\<not> is_digit c \<Longrightarrow> takeWhile is_digit (itoa n @ c # s) = itoa n \<and> dropWhile is_digit (itoa n @ c # s) = c # s"
  using itoa_digits [of _ n] by (simp add: takeWhile_append dropWhile_append)

lemma itoa_hd: "\<exists>c s. itoa n = c # s \<and> is_digit c \<and> visible_char c \<and> c \<noteq> CHR ''-'' \<and> c \<noteq> CHR ''+''"
proof -
  obtain c s where cs: "itoa n = c # s" by (cases "itoa n") auto
  then have "is_digit c" using itoa_digits [of c n] by simp
  moreover from this have "visible_char c" "c \<noteq> CHR ''-''" "c \<noteq> CHR ''+''"
    by (auto simp: is_digit_def visible_char_def)
  ultimately show ?thesis using cs by blast
qed

lemma scan_uint_itoa: "\<not> is_digit c \<Longrightarrow> n < 2 ^ w \<Longrightarrow> scan_uint w (itoa n @ c # s) = Some (n, c # s)"
proof -
  assume *: "\<not> is_digit c" "n < 2 ^ w"
  have "scan_space (itoa n @ c # s) = Some (itoa n @ c # s)"
    using itoa_hd [of n] scan_space_visible by (metis append_Cons)
  then show ?thesis using itoa_split [OF *(1), of n s] *(2) by (simp add: scan_uint_def Let_def)
qed

lemma scan_uint_itoa_end: "n < 2 ^ w \<Longrightarrow> scan_uint w (itoa n) = Some (n, [])"
proof -
  assume n: "n < 2 ^ w"
  have "scan_space (itoa n) = Some (itoa n)"
    using itoa_hd [of n] scan_space_visible by metis
  moreover have "takeWhile is_digit (itoa n) = itoa n" "dropWhile is_digit (itoa n) = []"
    using itoa_digits by auto
  ultimately show ?thesis using n
    by (simp add: scan_uint_def Let_def del: takeWhile_eq_all_conv dropWhile_eq_Nil_conv)
qed

lemma scan_int_itoa: "n < 2 ^ 63 \<Longrightarrow> scan_int (itoa n) = Some (int n, [])"
proof -
  assume n: "n < 2 ^ 63"
  obtain c s where cs: "itoa n = c # s" "is_digit c" "visible_char c" "c \<noteq> CHR ''-''" "c \<noteq> CHR ''+''"
    using itoa_hd [of n] by blast
  have w: "takeWhile is_digit s = s" "dropWhile is_digit s = []"
    using itoa_digits [of _ n] cs(1) by auto
  have "int n < 2 ^ 63" using n by (metis of_nat_less_iff of_nat_numeral of_nat_power)
  then show ?thesis using cs(2-) n w scan_space_visible [OF cs(3), of s]
    unfolding cs(1) by (simp add: scan_int_def Let_def has_prefix_def atoi_itoa [of n, unfolded cs(1)]
        del: takeWhile_eq_all_conv dropWhile_eq_Nil_conv)
qed

end
