(* ===== verification/Errors.thy ===== *)
theory Errors
  imports Prelude
begin

text \<open>
  The sentinel errors of the packages (the \<open>errors.New\<close> values compared with \<open>errors.Is\<close>), the
  SQLSTATE errors of the database, and the wrapping of \<open>fmt.Errorf\<close> with \<open>%w\<close>.
\<close>

datatype error =
    \<comment> \<open>pgx\<close>
    ErrNoRows | PgError string | ErrTxCommitRollback
    \<comment> \<open>store, authz, tenancy\<close>
  | ErrNotMember | ErrForbidden | ErrUnknownRole string
  | ErrInvalidSlug | ErrTenantNotFound
    \<comment> \<open>posts\<close>
  | ErrPostNotFound | ErrSlugTaken | ErrSlugImmutable | ErrEmptyContent | ErrNoTenant
    \<comment> \<open>jobs\<close>
  | ErrDuplicate | ErrNoJob
    \<comment> \<open>auth\<close>
  | ErrInvalidCredentials | ErrInvited | ErrInvalidUserID | ErrNoSession | ErrSessionExpired
  | ErrPasswordMismatch
    \<comment> \<open>media\<close>
  | ErrMediaForbidden | ErrInvalidMime | ErrPayloadTooLarge | ErrImageNotFound
    \<comment> \<open>oauth\<close>
  | ErrUnknownProvider | ErrDisallowedRedirect | ErrInvalidFlow | ErrProviderDenied
  | ErrExchangeFailed | ErrIdentityClaims | ErrUnverifiedEmail | ErrIdentityTaken
  | ErrNoInvitation | ErrNoToken | ErrScopeMissing | ErrRefreshFailed | ErrOAuthInvalidUserID
  | ErrDecrypt
    \<comment> \<open>docimport\<close>
  | ErrAlreadyApplied | ErrImportNotFound | ErrInvalidSource | ErrNotConverted | ErrGoogleToken
    \<comment> \<open>publicapi\<close>
  | ErrMalformedCursor
    \<comment> \<open>an error built in place, and one that wraps another\<close>
  | ErrText string | ErrWrap string error

text \<open>\<open>errors.Is\<close> follows the chain of wrapped errors.\<close>

fun errors_is :: "error \<Rightarrow> error \<Rightarrow> bool" where
  "errors_is (ErrWrap s e) t = (ErrWrap s e = t \<or> errors_is e t)"
| "errors_is e t = (e = t)"

text \<open>The SQLSTATE codes that the statements of the repository can raise.\<close>

abbreviation "unique_violation \<equiv> PgError ''23505''"
abbreviation "foreign_key_violation \<equiv> PgError ''23503''"
abbreviation "check_violation \<equiv> PgError ''23514''"
abbreviation "rls_violation \<equiv> PgError ''42501''"
abbreviation "read_only_violation \<equiv> PgError ''25006''"
abbreviation "aborted_transaction \<equiv> PgError ''25P02''"
abbreviation "invalid_text \<equiv> PgError ''22P02''"
abbreviation "out_of_range \<equiv> PgError ''22003''"

text \<open>
  \<open>errors.As(err, &pgerr) && pgerr.Code == "23505"\<close>: the first PgError of the chain decides.
\<close>

fun is_unique_violation :: "error \<Rightarrow> bool" where
  "is_unique_violation (PgError c) = (c = ''23505'')"
| "is_unique_violation (ErrWrap s e) = is_unique_violation e"
| "is_unique_violation e = False"

section \<open>Computations that can fail\<close>

text \<open>
  A computation takes a state and returns an error or a value, with the state it leaves. At the
  level of one transaction the state is the transaction's; at the level of a service it is the
  database.
\<close>

type_synonym ('s, 'a) comp = "'s \<Rightarrow> (error + 'a) \<times> 's"

definition ret :: "'a \<Rightarrow> ('s, 'a) comp" where
  "ret x = (\<lambda>s. (Inr x, s))"

definition fail :: "error \<Rightarrow> ('s, 'a) comp" where
  "fail e = (\<lambda>s. (Inl e, s))"

definition and_then :: "('s, 'a) comp \<Rightarrow> ('a \<Rightarrow> ('s, 'b) comp) \<Rightarrow> ('s, 'b) comp" where
  "and_then m f = (\<lambda>s. case m s of (Inl e, s') \<Rightarrow> (Inl e, s') | (Inr x, s') \<Rightarrow> f x s')"

definition handle :: "('s, 'a) comp \<Rightarrow> (error \<Rightarrow> ('s, 'a) comp) \<Rightarrow> ('s, 'a) comp" where
  "handle m h = (\<lambda>s. case m s of (Inl e, s') \<Rightarrow> h e s' | (Inr x, s') \<Rightarrow> (Inr x, s'))"

definition lift_sum :: "error + 'a \<Rightarrow> ('s, 'a) comp" where
  "lift_sum r = (\<lambda>s. (r, s))"

abbreviation on_error :: "error \<Rightarrow> error \<Rightarrow> ('s, 'a) comp \<Rightarrow> ('s, 'a) comp" where
  "on_error e e' m \<equiv> handle m (\<lambda>x. if errors_is x e then fail e' else fail x)"

text \<open>An error wrapped with a prefix, \<open>fmt.Errorf("...: %w", err)\<close>.\<close>

abbreviation wrap_error :: "string \<Rightarrow> ('s, 'a) comp \<Rightarrow> ('s, 'a) comp" where
  "wrap_error msg m \<equiv> handle m (\<lambda>e. fail (ErrWrap msg e))"

lemma run_simps [simp]:
  "ret x s = (Inr x, s)"
  "fail e s = (Inl e, s)"
  "lift_sum r s = (r, s)"
  by (simp_all add: ret_def fail_def lift_sum_def)

lemma and_then_Inr: "m s = (Inr x, s') \<Longrightarrow> and_then m f s = f x s'"
  by (simp add: and_then_def)

lemma and_then_Inl: "m s = (Inl e, s') \<Longrightarrow> and_then m f s = (Inl e, s')"
  by (simp add: and_then_def)

lemma and_then_ret [simp]: "and_then (ret x) f = f x"
  by (simp add: and_then_def ret_def)

lemma and_then_fail [simp]: "and_then (fail e) f = fail e"
  by (simp add: and_then_def fail_def)

lemma and_then_assoc: "and_then (and_then m f) g = and_then m (\<lambda>x. and_then (f x) g)"
  by (rule ext) (simp add: and_then_def split: prod.splits sum.splits)

lemma and_then_InrE:
  assumes "and_then m f s = (Inr y, s')"
  obtains x s1 where "m s = (Inr x, s1)" "f x s1 = (Inr y, s')"
  using assms by (auto simp: and_then_def split: prod.splits sum.splits)

lemma handle_Inr [simp]: "m s = (Inr x, s') \<Longrightarrow> handle m h s = (Inr x, s')"
  by (simp add: handle_def)

lemma handle_InrE:
  assumes "handle m h s = (Inr y, s')"
  obtains (ok) "m s = (Inr y, s')" | (caught) e s1 where "m s = (Inl e, s1)" "h e s1 = (Inr y, s')"
  using assms by (auto simp: handle_def split: prod.splits sum.splits)

lemma on_error_Inr [simp]: "on_error e e' m s = (Inr y, s') \<longleftrightarrow> m s = (Inr y, s')"
  by (auto simp: handle_def split: prod.splits sum.splits if_splits)

end
