(* ===== verification/Env.thy ===== *)
theory Env
  imports GoStrings Errors
begin

text \<open>
  What a call of the repository's code takes from outside src/: the clocks of the process and of the
  database, the HTML tree of golang.org/x/net/html, the parts of a parsed URL, and the functions of
  third-party packages, collected in one record of parameters.
\<close>

section \<open>HTML trees\<close>

text \<open>
  \<open>nethtml.Node\<close>: text nodes, element nodes with their attributes and children, and the nodes of
  any other type (document, doctype, comment) with their children.
\<close>

datatype node =
    TextNode string
  | ElementNode string "(string \<times> string) list" "node list"
  | OtherNode "node list"

section \<open>URLs\<close>

text \<open>The fields of \<open>url.URL\<close> that the repository reads; \<open>u_user\<close> is \<open>User != nil\<close>.\<close>

record url =
  u_scheme :: string
  u_host :: string
  u_path :: string
  u_user :: bool

section \<open>Parameters of the model\<close>

text \<open>
  \<^item> \<open>e_now\<close>: \<open>time.Now()\<close> of the call; \<open>e_pgnow\<close>: SQL \<open>now()\<close>, the start of its transaction;
  \<^item> \<open>e_lower\<close>: \<open>strings.ToLower\<close> on strings that are not all ASCII; \<open>e_sql_lower\<close>: the same
    for SQL \<open>lower\<close>;
  \<^item> \<open>e_url\<close>: \<open>url.Parse\<close>, \<open>None\<close> for an error;
  \<^item> \<open>e_convert\<close>: goldmark's \<open>Convert\<close> with the repository's extensions, \<open>None\<close> for an error;
  \<^item> \<open>e_html_parse\<close>, \<open>e_html_render\<close>: \<open>nethtml.Parse\<close> and \<open>nethtml.Render\<close>;
  \<^item> \<open>e_sha256\<close>: SHA-256.
\<close>

record env =
  e_now :: time
  e_pgnow :: time
  e_lower :: "string \<Rightarrow> string"
  e_sql_lower :: "string \<Rightarrow> string"
  e_url :: "string \<Rightarrow> url option"
  e_convert :: "bytes \<Rightarrow> bytes option"
  e_html_parse :: "bytes \<Rightarrow> node option"
  e_html_render :: "node \<Rightarrow> bytes option"
  e_sha256 :: "bytes \<Rightarrow> bytes"

abbreviation lower_of :: "env \<Rightarrow> string \<Rightarrow> string" where
  "lower_of E \<equiv> to_lower (e_lower E)"

text \<open>The parameters at another moment.\<close>

abbreviation at_time :: "env \<Rightarrow> time \<Rightarrow> time \<Rightarrow> env" where
  "at_time E now pgnow \<equiv> E\<lparr>e_now := now, e_pgnow := pgnow\<rparr>"

text \<open>
  One choice of the parameters, for the examples: every URL is https, on the media host when it has
  that prefix and on another host otherwise; conversion, parsing and rendering keep the text.
\<close>

fun sample_text :: "node \<Rightarrow> string" where
  "sample_text (TextNode s) = s"
| "sample_text (OtherNode cs) = concat (map sample_text cs)"
| "sample_text (ElementNode tag attrs cs) = ''<'' @ tag @ ''>'' @ concat (map sample_text cs) @ ''</'' @ tag @ ''>''"

definition sample_env :: env where
  "sample_env = \<lparr>e_now = 100, e_pgnow = 50, e_lower = id, e_sql_lower = id,
     e_url = (\<lambda>u. Some \<lparr>u_scheme = ''https'',
        u_host = (if has_prefix u ''https://media.example.com/'' then ''media.example.com''
                  else ''evil.example''), u_path = ''/a.png'', u_user = False\<rparr>),
     e_convert = Some, e_html_parse = (\<lambda>b. Some (OtherNode [ElementNode ''body'' [] [TextNode b]])),
     e_html_render = (\<lambda>n. Some (sample_text n)), e_sha256 = id\<rparr>"

section \<open>Identifiers as text\<close>

text \<open>\<open>uuid.String()\<close>: 32 lower-case hexadecimal digits in groups of 8, 4, 4, 4 and 12.\<close>

definition hex_char :: "nat \<Rightarrow> char" where
  "hex_char d = char_of (if d < 10 then 48 + d else 87 + d)"

fun hex_digits :: "nat \<Rightarrow> nat \<Rightarrow> string" where
  "hex_digits 0 v = []"
| "hex_digits (Suc n) v = hex_digits n (v div 16) @ [hex_char (v mod 16)]"

definition uuid_string :: "uuid \<Rightarrow> string" where
  "uuid_string u =
     (let h = hex_digits 32 (unat u)
      in take 8 h @ ''-'' @ take 4 (drop 8 h) @ ''-'' @ take 4 (drop 12 h) @ ''-'' @
         take 4 (drop 16 h) @ ''-'' @ drop 20 h)"

lemma hex_char_inject:
  assumes "a < 16" "b < 16"
  shows "hex_char a = hex_char b \<longleftrightarrow> a = b"
  using assms by (auto simp: hex_char_def split: if_splits)

lemma length_hex_digits [simp]: "length (hex_digits n v) = n"
  by (induction n arbitrary: v) auto

lemma hex_digits_inject:
  assumes "hex_digits n v = hex_digits n w" "v < 16 ^ n" "w < 16 ^ n"
  shows "v = w"
  using assms
proof (induction n arbitrary: v w)
  case (Suc n)
  have "v div 16 < 16 ^ n" "w div 16 < 16 ^ n"
    using Suc.prems(2,3) by (simp_all add: less_mult_imp_div_less mult.commute)
  moreover have "hex_digits n (v div 16) = hex_digits n (w div 16)" "v mod 16 = w mod 16"
    using Suc.prems(1) by (simp_all add: hex_char_inject)
  ultimately have "v div 16 = w div 16" "v mod 16 = w mod 16"
    using Suc.IH by blast+
  then show ?case by (metis div_mult_mod_eq)
qed simp

lemma uuid_string_parts:
  "h = take 8 h @ take 4 (drop 8 h) @ take 4 (drop 12 h) @ take 4 (drop 16 h) @ drop 20 h"
  using append_take_drop_id [of 8 h] append_take_drop_id [of 4 "drop 8 h"]
    append_take_drop_id [of 4 "drop 12 h"] append_take_drop_id [of 4 "drop 16 h"]
  by (simp only: drop_drop) simp

lemma uuid_string_inject [simp]: "uuid_string u = uuid_string v \<longleftrightarrow> u = v"
proof
  assume eq: "uuid_string u = uuid_string v"
  let ?h = "hex_digits 32 (unat u)" and ?k = "hex_digits 32 (unat v)"
  have "take 8 ?h = take 8 ?k" "take 4 (drop 8 ?h) = take 4 (drop 8 ?k)"
    "take 4 (drop 12 ?h) = take 4 (drop 12 ?k)" "take 4 (drop 16 ?h) = take 4 (drop 16 ?k)"
    "drop 20 ?h = drop 20 ?k"
    using eq by (simp_all add: uuid_string_def Let_def append_eq_append_conv)
  then have "?h = ?k" by (metis uuid_string_parts)
  moreover have "unat u < 16 ^ 32" "unat v < 16 ^ 32"
    using unsigned_less [of u] unsigned_less [of v] by simp_all
  ultimately have "unat u = unat v" by (rule hex_digits_inject)
  then show "u = v" by (rule unsigned_word_eqI)
qed simp

end
