(* ===== verification/Authz.thy ===== *)
theory Authz
  imports Errors
begin

text \<open>
  internal/authz: the role ladder, the capability thresholds, the request's principal and the
  store scope derived from it.
\<close>

section \<open>Roles\<close>

datatype role = RoleAuthor | RoleEditor | RoleAdmin | RoleOwner

text \<open>\<open>Role\<close> is an int counted by iota; the ladder is its order.\<close>

fun role_rank :: "role \<Rightarrow> nat" where
  "role_rank RoleAuthor = 0"
| "role_rank RoleEditor = 1"
| "role_rank RoleAdmin = 2"
| "role_rank RoleOwner = 3"

lemma role_rank_inject [simp]: "role_rank a = role_rank b \<longleftrightarrow> a = b"
  by (cases a; cases b) simp_all

instantiation role :: linorder
begin

definition less_eq_role :: "role \<Rightarrow> role \<Rightarrow> bool" where
  "less_eq_role a b \<longleftrightarrow> role_rank a \<le> role_rank b"

definition less_role :: "role \<Rightarrow> role \<Rightarrow> bool" where
  "less_role a b \<longleftrightarrow> role_rank a < role_rank b"

instance
  by standard (auto simp: less_eq_role_def less_role_def)

end

fun role_string :: "role \<Rightarrow> string" where
  "role_string RoleEditor = ''editor''"
| "role_string RoleAdmin = ''admin''"
| "role_string RoleOwner = ''owner''"
| "role_string RoleAuthor = ''author''"

definition parse_role :: "string \<Rightarrow> error + role" where
  "parse_role s =
     (if s = ''author'' then Inr RoleAuthor
      else if s = ''editor'' then Inr RoleEditor
      else if s = ''admin'' then Inr RoleAdmin
      else if s = ''owner'' then Inr RoleOwner
      else Inl (ErrUnknownRole s))"

lemma parse_role_string [simp]: "parse_role (role_string r) = Inr r"
  by (cases r) (simp_all add: parse_role_def)

lemma parse_role_InrD: "parse_role s = Inr r \<Longrightarrow> s = role_string r"
  by (auto simp: parse_role_def split: if_splits)

section \<open>Capabilities\<close>

datatype capability =
    CapCreateDraft | CapEditOwnDraft | CapUploadMedia | CapRunImport | CapEditAnyPost
  | CapPublishArchive | CapViewMembers | CapInviteMembers | CapRemoveMembers | CapChangeRoles
  | CapTenantSettings

fun role_for :: "capability \<Rightarrow> role" where
  "role_for CapEditAnyPost = RoleEditor"
| "role_for CapPublishArchive = RoleEditor"
| "role_for CapViewMembers = RoleEditor"
| "role_for CapInviteMembers = RoleAdmin"
| "role_for CapRemoveMembers = RoleAdmin"
| "role_for CapChangeRoles = RoleAdmin"
| "role_for CapTenantSettings = RoleOwner"
| "role_for CapCreateDraft = RoleAuthor"
| "role_for CapEditOwnDraft = RoleAuthor"
| "role_for CapUploadMedia = RoleAuthor"
| "role_for CapRunImport = RoleAuthor"

section \<open>The principal of a request\<close>

record actor =
  a_user :: uuid
  a_tenant :: "uuid option"
  a_role :: role
  a_platform :: bool

text \<open>\<open>Role > RoleOwner\<close> cannot hold of a value of the datatype; the guard is kept.\<close>

definition can :: "actor \<Rightarrow> capability \<Rightarrow> bool" where
  "can a c =
     (if a_platform a then True
      else if a_tenant a = None \<or> a_role a > RoleOwner then False
      else role_for c \<le> a_role a)"

definition require :: "actor \<Rightarrow> capability \<Rightarrow> ('s, unit) comp" where
  "require a c = (if can a c then ret () else fail ErrForbidden)"

definition owns_post :: "actor \<Rightarrow> uuid \<Rightarrow> bool" where
  "owns_post a author =
     (if a_platform a \<or> a_role a \<noteq> RoleAuthor then True else author = a_user a)"

text \<open>The condition \<open>!actor.Platform && actor.Role == authz.RoleAuthor\<close> of the services.\<close>

abbreviation plain_author :: "actor \<Rightarrow> bool" where
  "plain_author a \<equiv> \<not> a_platform a \<and> a_role a = RoleAuthor"

section \<open>Store scope\<close>

record scope =
  sc_tenant :: uuid
  sc_platform :: bool

definition scope_from_actor :: "actor \<Rightarrow> scope" where
  "scope_from_actor a =
     (case a_tenant a of
        Some t \<Rightarrow> \<lparr>sc_tenant = t, sc_platform = False\<rparr>
      | None \<Rightarrow>
          if a_platform a then \<lparr>sc_tenant = nil_uuid, sc_platform = True\<rparr>
          else \<lparr>sc_tenant = nil_uuid, sc_platform = False\<rparr>)"

abbreviation unscoped :: scope where
  "unscoped \<equiv> \<lparr>sc_tenant = nil_uuid, sc_platform = False\<rparr>"

section \<open>Properties\<close>

lemma role_le_owner [simp]: "(r::role) \<le> RoleOwner" "\<not> RoleOwner < (r::role)"
  by (cases r; simp add: less_eq_role_def less_role_def)+

lemma author_le_role [simp]: "RoleAuthor \<le> (r::role)"
  by (cases r) (simp_all add: less_eq_role_def)

lemma require_Inr [simp]: "require a c s = (Inr u, s') \<longleftrightarrow> can a c \<and> s' = s"
  by (auto simp: require_def)

lemma require_no [simp]: "\<not> can a c \<Longrightarrow> require a c = fail ErrForbidden"
  by (simp add: require_def)

lemma require_yes [simp]: "can a c \<Longrightarrow> require a c = ret ()"
  by (simp add: require_def)

lemma can_tenant: "can a c \<Longrightarrow> \<not> a_platform a \<Longrightarrow> \<exists>t. a_tenant a = Some t"
  by (auto simp: can_def split: if_splits)

lemma plain_author_caps:
  "plain_author a \<Longrightarrow> can a c \<Longrightarrow>
     c \<in> {CapCreateDraft, CapEditOwnDraft, CapUploadMedia, CapRunImport}"
  by (cases c) (auto simp: can_def less_eq_role_def split: if_splits)

lemma scope_tenant_actor: "a_tenant a = Some t \<Longrightarrow> scope_from_actor a = \<lparr>sc_tenant = t, sc_platform = False\<rparr>"
  by (simp add: scope_from_actor_def)

end
