(* ===== verification/Db.thy ===== *)
theory Db
  imports Env Authz
begin

text \<open>
  The database of migrations/0001, 0002 and 0003 as a record of tables, and the transactions of
  internal/store/store.go. A statement of a transaction that fails leaves the transaction aborted:
  every later statement fails with SQLSTATE 25P02 and the transaction can only roll back. The three
  tables under row-level security are read and written through \<open>visible\<close>.
\<close>

section \<open>Rows\<close>

datatype post_status = PostDraft | PostPublished | PostArchived
datatype import_status = ImportConverting | ImportDone | ImportError
datatype job_state = Queued | Running | Done | Failed

record tenant =
  t_id :: uuid
  t_slug :: string
  t_name :: string
  t_settings :: json
  t_version :: int
  t_created :: time
  t_updated :: time

record user =
  us_id :: uuid
  us_email :: string
  us_password :: "string option"
  us_display :: string
  us_super :: bool
  us_created :: time

record membership =
  m_tenant :: uuid
  m_user :: uuid
  m_role :: string

record identity =
  id_provider :: string
  id_subject :: string
  id_user :: uuid

record session =
  s_hash :: bytes
  s_user :: uuid
  s_scope :: "uuid option"
  s_expires :: time
  s_created :: time

record post =
  p_id :: uuid
  p_tenant :: uuid
  p_author :: uuid
  p_slug :: string
  p_title :: string
  p_excerpt :: string
  p_markdown :: string
  p_html :: string
  p_status :: post_status
  p_published :: "time option"
  p_metadata :: "json option"  \<comment> \<open>None: nil bytes, only in an argument of CreatePost\<close>
  p_created :: time
  p_updated :: time

text \<open>One entry of the variants object of an image, keyed by its label.\<close>

record variant =
  v_url :: string
  v_width :: int
  v_height :: int
  v_processing :: string

record post_image =
  pi_id :: uuid
  pi_tenant :: uuid
  pi_post :: uuid
  pi_key :: string
  pi_url :: string
  pi_width :: int
  pi_height :: int
  pi_size :: int
  pi_mime :: string
  pi_position :: int
  pi_variants :: "(string \<times> variant) list"
  pi_created :: time

record invitation =
  i_id :: uuid
  i_tenant :: uuid
  i_email :: "string option"
  i_role :: string
  i_token :: "bytes option"
  i_expires :: time
  i_consumed :: "time option"

record doc_import =
  im_id :: uuid
  im_tenant :: uuid
  im_user :: uuid
  im_post :: "uuid option"
  im_format :: string
  im_key :: string
  im_status :: import_status
  im_markdown :: "string option"
  im_error :: "string option"
  im_created :: time
  im_updated :: time

text \<open>
  The Data of a job: the structs that the packages marshal into it, and any other JSON value. A
  payload that does not decode into \<open>jobs.JobPayload\<close> is \<open>BadPayload\<close>.
\<close>

datatype job_data =
    PurgeData uuid "uuid option" "int option" "string list"
  | VariantData uuid uuid string
  | ImportData uuid string string string
  | OtherData json

datatype job_payload =
    JobPayload uuid job_data
  | BadPayload string

record job =
  j_id :: uuid
  j_kind :: string
  j_dedupe :: "string option"
  j_payload :: job_payload
  j_state :: job_state
  j_attempts :: int
  j_run_after :: time
  j_lease :: "time option"
  j_last_err :: "string option"
  j_created :: time
  j_updated :: time

record oauth_flow =
  f_id :: uuid
  f_provider :: string
  f_state :: bytes
  f_verifier :: bytes
  f_redirect :: string
  f_session :: "bytes option"
  f_expires :: time
  f_created :: time

record oauth_token =
  k_user :: uuid
  k_provider :: string
  k_refresh :: "bytes option"
  k_access :: "bytes option"
  k_scopes :: string
  k_expiry :: "time option"

record db =
  tenants :: "tenant list"
  users :: "user list"
  memberships :: "membership list"
  identities :: "identity list"
  sessions :: "session list"
  posts :: "post list"
  post_images :: "post_image list"
  invitations :: "invitation list"
  doc_imports :: "doc_import list"
  jobs :: "job list"
  oauth_flows :: "oauth_flow list"
  oauth_tokens :: "oauth_token list"

text \<open>The database as the migrations leave it.\<close>

definition empty_db :: db where
  "empty_db = \<lparr>tenants = [], users = [], memberships = [], identities = [], sessions = [], posts = [],
     post_images = [], invitations = [], doc_imports = [], jobs = [], oauth_flows = [],
     oauth_tokens = []\<rparr>"

section \<open>Status codes as text\<close>

fun post_status_string :: "post_status \<Rightarrow> string" where
  "post_status_string PostPublished = ''published''"
| "post_status_string PostArchived = ''archived''"
| "post_status_string PostDraft = ''draft''"

definition parse_post_status :: "string \<Rightarrow> error + post_status" where
  "parse_post_status s =
     (if s = ''draft'' then Inr PostDraft
      else if s = ''published'' then Inr PostPublished
      else if s = ''archived'' then Inr PostArchived
      else Inl (ErrText (''store: unknown post_status '' @ s)))"

fun import_status_string :: "import_status \<Rightarrow> string" where
  "import_status_string ImportDone = ''done''"
| "import_status_string ImportError = ''error''"
| "import_status_string ImportConverting = ''converting''"

definition parse_import_status :: "string \<Rightarrow> error + import_status" where
  "parse_import_status s =
     (if s = ''converting'' then Inr ImportConverting
      else if s = ''done'' then Inr ImportDone
      else if s = ''error'' then Inr ImportError
      else Inl (ErrText (''store: unknown import_status '' @ s)))"

lemma parse_post_status_string [simp]: "parse_post_status (post_status_string s) = Inr s"
  by (cases s) (simp_all add: parse_post_status_def)

lemma parse_import_status_string [simp]: "parse_import_status (import_status_string s) = Inr s"
  by (cases s) (simp_all add: parse_import_status_def)

section \<open>Transactions\<close>

text \<open>
  The settings of a transaction: the two GUCs that the policies read, the access mode and the
  transaction's \<open>now()\<close>; \<open>tx_lower\<close> is SQL \<open>lower\<close>. The state of a running transaction is the
  database as it sees it and whether a statement has failed.
\<close>

record tx =
  tx_tenant :: "uuid option"
  tx_platform :: bool
  tx_ro :: bool
  tx_now :: time
  tx_lower :: "string \<Rightarrow> string"

record txst =
  t_db :: db
  t_aborted :: bool

type_synonym 'a txn = "(txst, 'a) comp"
type_synonym 'a act = "(db, 'a) comp"

definition read_stmt :: "(db \<Rightarrow> error + 'a) \<Rightarrow> 'a txn" where
  "read_stmt f = (\<lambda>s.
     if t_aborted s then (Inl aborted_transaction, s)
     else case f (t_db s) of
       Inl e \<Rightarrow> (Inl e, s\<lparr>t_aborted := True\<rparr>)
     | Inr x \<Rightarrow> (Inr x, s))"

definition write_stmt :: "tx \<Rightarrow> (db \<Rightarrow> error + 'a \<times> db) \<Rightarrow> 'a txn" where
  "write_stmt q f = (\<lambda>s.
     if t_aborted s then (Inl aborted_transaction, s)
     else if tx_ro q then (Inl read_only_violation, s\<lparr>t_aborted := True\<rparr>)
     else case f (t_db s) of
       Inl e \<Rightarrow> (Inl e, s\<lparr>t_aborted := True\<rparr>)
     | Inr (x, d) \<Rightarrow> (Inr x, s\<lparr>t_db := d\<rparr>))"

text \<open>\<open>row.Scan\<close> of a query that returned no row is \<open>pgx.ErrNoRows\<close>, which aborts nothing.\<close>

definition scan_row :: "'a option \<Rightarrow> 'a txn" where
  "scan_row r = (case r of None \<Rightarrow> fail ErrNoRows | Some x \<Rightarrow> ret x)"

text \<open>A query whose \<open>pgx.ErrNoRows\<close> the caller takes for an answer.\<close>

definition maybe_row :: "'a txn \<Rightarrow> 'a option txn" where
  "maybe_row m =
     handle (and_then m (\<lambda>x. ret (Some x))) (\<lambda>e. if errors_is e ErrNoRows then ret None else fail e)"

text \<open>
  The scope's zero tenant becomes SQL NULL, which no row's tenant equals.
\<close>

definition tx_of :: "env \<Rightarrow> bool \<Rightarrow> scope \<Rightarrow> tx" where
  "tx_of E ro sc =
     \<lparr>tx_tenant = (if sc_tenant sc \<noteq> nil_uuid then Some (sc_tenant sc) else None),
      tx_platform = sc_platform sc, tx_ro = ro, tx_now = e_pgnow E,
      tx_lower = to_lower (e_sql_lower E)\<rparr>"

definition run_tx :: "tx \<Rightarrow> (tx \<Rightarrow> 'a txn) \<Rightarrow> 'a act" where
  "run_tx q fn = (\<lambda>d.
     case fn q \<lparr>t_db = d, t_aborted = False\<rparr> of
       (Inl e, _) \<Rightarrow> (Inl e, d)
     | (Inr x, s) \<Rightarrow> if t_aborted s then (Inl ErrTxCommitRollback, d) else (Inr x, t_db s))"

definition scoped :: "env \<Rightarrow> scope \<Rightarrow> (tx \<Rightarrow> 'a txn) \<Rightarrow> 'a act" where
  "scoped E sc fn = run_tx (tx_of E True sc) fn"

definition scoped_rw :: "env \<Rightarrow> scope \<Rightarrow> (tx \<Rightarrow> 'a txn) \<Rightarrow> 'a act" where
  "scoped_rw E sc fn = run_tx (tx_of E False sc) fn"

text \<open>The policy tenant_scope: \<open>app_scope() or tenant_id = current_tenant()\<close>, NULL counting as no.\<close>

definition visible :: "tx \<Rightarrow> uuid \<Rightarrow> bool" where
  "visible q t = (tx_platform q \<or> tx_tenant q = Some t)"

section \<open>How transactions run\<close>

lemma tx_of_sel [simp]:
  "tx_platform (tx_of E ro sc) = sc_platform sc"
  "tx_ro (tx_of E ro sc) = ro"
  "tx_now (tx_of E ro sc) = e_pgnow E"
  "tx_lower (tx_of E ro sc) = to_lower (e_sql_lower E)"
  "tx_tenant (tx_of E ro sc) = (if sc_tenant sc \<noteq> nil_uuid then Some (sc_tenant sc) else None)"
  by (simp_all add: tx_of_def)

lemma visible_scope:
  "visible (tx_of E ro sc) t \<longleftrightarrow> sc_platform sc \<or> (sc_tenant sc \<noteq> nil_uuid \<and> sc_tenant sc = t)"
  by (auto simp: visible_def)

lemma read_stmt_InrD:
  "read_stmt f s = (Inr x, s') \<Longrightarrow> s' = s \<and> \<not> t_aborted s \<and> f (t_db s) = Inr x"
  by (auto simp: read_stmt_def split: if_splits sum.splits)

lemma write_stmt_InrD:
  "write_stmt q f s = (Inr x, s') \<Longrightarrow>
     \<not> t_aborted s \<and> \<not> tx_ro q \<and> f (t_db s) = Inr (x, t_db s') \<and> \<not> t_aborted s'"
  by (auto simp: write_stmt_def split: if_splits sum.splits prod.splits)

lemma scan_row_Inr [simp]: "scan_row r s = (Inr x, s') \<longleftrightarrow> r = Some x \<and> s' = s"
  by (auto simp: scan_row_def split: option.splits)

lemma scan_row_Some [simp]: "scan_row (Some x) = ret x"
  by (simp add: scan_row_def)

lemma scan_row_None [simp]: "scan_row None = fail ErrNoRows"
  by (simp add: scan_row_def)

text \<open>A statement on a transaction in good standing.\<close>

lemma read_stmt_run [simp]:
  "read_stmt f \<lparr>t_db = d, t_aborted = False\<rparr> =
     (case f d of
        Inl e \<Rightarrow> (Inl e, \<lparr>t_db = d, t_aborted = True\<rparr>)
      | Inr x \<Rightarrow> (Inr x, \<lparr>t_db = d, t_aborted = False\<rparr>))"
  by (simp add: read_stmt_def split: sum.splits)

lemma write_stmt_run [simp]:
  "write_stmt q f \<lparr>t_db = d, t_aborted = False\<rparr> =
     (if tx_ro q then (Inl read_only_violation, \<lparr>t_db = d, t_aborted = True\<rparr>)
      else case f d of
        Inl e \<Rightarrow> (Inl e, \<lparr>t_db = d, t_aborted = True\<rparr>)
      | Inr (x, d') \<Rightarrow> (Inr x, \<lparr>t_db = d', t_aborted = False\<rparr>))"
  by (simp add: write_stmt_def split: sum.splits)

lemma run_tx_InlD: "run_tx q fn d = (Inl e, d') \<Longrightarrow> d' = d"
  by (auto simp: run_tx_def split: prod.splits sum.splits if_splits)

lemma scoped_rw_InlD: "scoped_rw E sc fn d = (Inl e, d') \<Longrightarrow> d' = d"
  unfolding scoped_rw_def by (rule run_tx_InlD)

lemma run_tx_InrE:
  assumes "run_tx q fn d = (Inr x, d')"
  obtains "fn q \<lparr>t_db = d, t_aborted = False\<rparr> = (Inr x, \<lparr>t_db = d', t_aborted = False\<rparr>)"
proof -
  from assms have "fn q \<lparr>t_db = d, t_aborted = False\<rparr> = (Inr x, \<lparr>t_db = d', t_aborted = False\<rparr>)"
    by (auto simp: run_tx_def split: prod.splits sum.splits if_splits)
  then show ?thesis by (rule that)
qed

lemma run_tx_rule:
  "fn q \<lparr>t_db = d, t_aborted = False\<rparr> = (Inr x, \<lparr>t_db = d', t_aborted = False\<rparr>) \<Longrightarrow>
     run_tx q fn d = (Inr x, d')"
  by (simp add: run_tx_def)

text \<open>A computation over the transaction state in good standing that succeeds, with the step it made.\<close>

definition runs :: "'a txn \<Rightarrow> db \<Rightarrow> 'a \<Rightarrow> db \<Rightarrow> bool" where
  "runs m d x d' \<longleftrightarrow> m \<lparr>t_db = d, t_aborted = False\<rparr> = (Inr x, \<lparr>t_db = d', t_aborted = False\<rparr>)"

lemma scoped_rw_runs: "scoped_rw E sc fn d = (Inr x, d') \<longleftrightarrow> runs (fn (tx_of E False sc)) d x d'"
  by (auto simp: scoped_rw_def runs_def elim: run_tx_InrE intro: run_tx_rule)

lemma scoped_runs: "scoped E sc fn d = (Inr x, d') \<longleftrightarrow> runs (fn (tx_of E True sc)) d x d'"
  by (auto simp: scoped_def runs_def elim: run_tx_InrE intro: run_tx_rule)

text \<open>
  Symbolic execution of a successful transaction: each rule peels the first statement off a sequence.
  They are the collection \<open>txn_run\<close>.
\<close>

named_theorems txn_run \<open>what it means that a sequence of statements succeeds\<close>

lemma runs_ret [txn_run]: "runs (ret x) d y d' \<longleftrightarrow> y = x \<and> d' = d"
  by (auto simp: runs_def)

lemma runs_fail [txn_run]: "\<not> runs (fail e) d y d'"
  by (simp add: runs_def)

lemma runs_lift_sum [txn_run]: "runs (lift_sum r) d y d' \<longleftrightarrow> r = Inr y \<and> d' = d"
  by (auto simp: runs_def)

lemma runs_read [txn_run]: "runs (read_stmt f) d y d' \<longleftrightarrow> f d = Inr y \<and> d' = d"
  by (auto simp: runs_def split: sum.splits)

lemma runs_write [txn_run]: "runs (write_stmt q f) d y d' \<longleftrightarrow> \<not> tx_ro q \<and> f d = Inr (y, d')"
  by (auto simp: runs_def split: sum.splits)

lemma runs_scan [txn_run]: "runs (scan_row r) d y d' \<longleftrightarrow> r = Some y \<and> d' = d"
  by (auto simp: runs_def)

lemma runs_if [txn_run]:
  "runs (if b then m else m') d y d' \<longleftrightarrow> (if b then runs m d y d' else runs m' d y d')"
  by simp

lemma runs_on_error [txn_run]: "runs (on_error e e' m) d y d' \<longleftrightarrow> runs m d y d'"
  unfolding runs_def by (rule on_error_Inr)

lemma runs_then_read [txn_run]:
  "runs (and_then (read_stmt f) g) d y d' \<longleftrightarrow> (\<exists>x. f d = Inr x \<and> runs (g x) d y d')"
  by (auto simp: runs_def and_then_def split: sum.splits)

lemma runs_then_write [txn_run]:
  "runs (and_then (write_stmt q f) g) d y d' \<longleftrightarrow>
     \<not> tx_ro q \<and> (\<exists>x d1. f d = Inr (x, d1) \<and> runs (g x) d1 y d')"
  by (auto simp: runs_def and_then_def split: sum.splits)

lemma runs_then_scan [txn_run]:
  "runs (and_then (scan_row r) g) d y d' \<longleftrightarrow> (\<exists>x. r = Some x \<and> runs (g x) d y d')"
  by (cases r) (auto simp: runs_def)

lemma runs_then_lift [txn_run]:
  "runs (and_then (lift_sum r) g) d y d' \<longleftrightarrow> (\<exists>x. r = Inr x \<and> runs (g x) d y d')"
  by (auto simp: runs_def and_then_def split: sum.splits)

lemma runs_then_if [txn_run]:
  "runs (and_then (if b then m else m') g) d y d' \<longleftrightarrow>
     (if b then runs (and_then m g) d y d' else runs (and_then m' g) d y d')"
  by simp

lemma runs_then_on_error [txn_run]:
  "runs (and_then (on_error e e' m) g) d y d' \<longleftrightarrow> runs (and_then m g) d y d'"
  by (auto simp: runs_def and_then_def handle_def split: prod.splits sum.splits if_splits)

lemma runs_wrap [txn_run]: "runs (handle m (\<lambda>e. fail (f e))) d y d' \<longleftrightarrow> runs m d y d'"
  by (auto simp: runs_def handle_def split: prod.splits sum.splits)

lemma runs_then_wrap [txn_run]:
  "runs (and_then (handle m (\<lambda>e. fail (f e))) g) d y d' \<longleftrightarrow> runs (and_then m g) d y d'"
  by (auto simp: runs_def and_then_def handle_def split: prod.splits sum.splits)

lemma runs_maybe [txn_run]:
  "runs (and_then (maybe_row (and_then (read_stmt (\<lambda>d. Inr (h d))) scan_row)) g) d y d' \<longleftrightarrow> runs (g (h d)) d y d'"
  by (cases "h d") (simp_all add: runs_def maybe_row_def and_then_def handle_def)

lemma runs_maybe_write:
  assumes "f d = Inr (r, d1)"
  shows "runs (and_then (maybe_row (and_then (write_stmt q f) scan_row)) g) d y d' \<longleftrightarrow> \<not> tx_ro q \<and> runs (g r) d1 y d'"
  using assms by (cases r) (simp_all add: runs_def maybe_row_def and_then_def handle_def)

declare and_then_assoc [txn_run] and_then_ret [txn_run] and_then_fail [txn_run]

text \<open>The same for a service-level sequence that starts with a guard.\<close>

lemma act_require:
  "and_then (require a c) f d = (Inr y, d') \<longleftrightarrow> can a c \<and> f () d = (Inr y, d')"
  by (cases "can a c") (simp_all add: and_then_def)

end
