(* ===== verification/Queries.thy ===== *)
theory Queries
  imports Db
begin

text \<open>
  The statements of internal/store/queries.go that the posts, media, import and tenant services
  run, each with the constraints of the migrations that it can violate, checked in the order in
  which PostgreSQL checks them: row-level security, CHECK, unique indexes, foreign keys.
\<close>

section \<open>Existence tests behind the foreign keys\<close>

definition has_tenant :: "db \<Rightarrow> uuid \<Rightarrow> bool" where
  "has_tenant d i = (\<exists>t \<in> set (tenants d). t_id t = i)"

definition has_user :: "db \<Rightarrow> uuid \<Rightarrow> bool" where
  "has_user d i = (\<exists>u \<in> set (users d). us_id u = i)"

definition has_post :: "db \<Rightarrow> uuid \<Rightarrow> uuid \<Rightarrow> bool" where
  "has_post d t i = (\<exists>p \<in> set (posts d). p_id p = i \<and> p_tenant p = t)"

text \<open>What the public sees of a tenant, and the version its caches are keyed by.\<close>

definition published_view :: "uuid \<Rightarrow> db \<Rightarrow> post list" where
  "published_view t d = filter (\<lambda>p. p_tenant p = t \<and> p_status p = PostPublished) (posts d)"

definition version_of :: "uuid \<Rightarrow> db \<Rightarrow> int option" where
  "version_of t d = map_option t_version (find (\<lambda>b. t_id b = t) (tenants d))"

section \<open>Posts\<close>

definition post_row :: "tx \<Rightarrow> post \<Rightarrow> post" where
  "post_row q p = p\<lparr>p_status := PostDraft, p_published := None,
     p_metadata := Some (case p_metadata p of None \<Rightarrow> JObj [] | Some m \<Rightarrow> m),
     p_created := tx_now q, p_updated := tx_now q\<rparr>"

definition create_post :: "tx \<Rightarrow> post \<Rightarrow> post txn" where
  "create_post q p = write_stmt q (\<lambda>d.
     if \<not> visible q (p_tenant p) then Inl rls_violation
     else if \<exists>x \<in> set (posts d). p_id x = p_id p \<or> (p_tenant x = p_tenant p \<and> p_slug x = p_slug p)
       then Inl unique_violation
     else if \<not> has_tenant d (p_tenant p) \<or> \<not> has_user d (p_author p) then Inl foreign_key_violation
     else Inr (post_row q p, d\<lparr>posts := posts d @ [post_row q p]\<rparr>))"

definition list_posts :: "tx \<Rightarrow> post list txn" where
  "list_posts q = read_stmt (\<lambda>d. Inr (filter (\<lambda>p. visible q (p_tenant p)) (posts d)))"

definition post_at :: "tx \<Rightarrow> uuid \<Rightarrow> post \<Rightarrow> bool" where
  "post_at q pid p = (p_id p = pid \<and> visible q (p_tenant p))"

definition get_post_by_id :: "tx \<Rightarrow> uuid \<Rightarrow> post txn" where
  "get_post_by_id q pid =
     and_then (read_stmt (\<lambda>d. Inr (find (post_at q pid) (posts d)))) scan_row"

record post_summary =
  ps_id :: uuid
  ps_tenant :: uuid
  ps_author :: uuid
  ps_slug :: string
  ps_title :: string
  ps_excerpt :: string
  ps_status :: post_status
  ps_published :: "time option"
  ps_created :: time

definition post_summary_of :: "post \<Rightarrow> post_summary" where
  "post_summary_of p =
     \<lparr>ps_id = p_id p, ps_tenant = p_tenant p, ps_author = p_author p, ps_slug = p_slug p,
      ps_title = p_title p, ps_excerpt = p_excerpt p, ps_status = p_status p,
      ps_published = p_published p, ps_created = p_created p\<rparr>"

text \<open>\<open>order by created_at desc, id desc\<close>; a status that is no value of the enum fails the cast.\<close>

definition list_post_summaries ::
  "tx \<Rightarrow> string option \<Rightarrow> uuid option \<Rightarrow> post_summary list txn" where
  "list_post_summaries q status author = read_stmt (\<lambda>d.
     let rows = (\<lambda>ok. map post_summary_of (rev (sort_key (\<lambda>p. (p_created p, p_id p))
                   (filter (\<lambda>p. visible q (p_tenant p) \<and> ok p \<and>
                      (case author of None \<Rightarrow> True | Some a \<Rightarrow> p_author p = a)) (posts d)))))
     in case status of
          None \<Rightarrow> Inr (rows (\<lambda>p. True))
        | Some s \<Rightarrow>
            (case parse_post_status s of
               Inl e \<Rightarrow> Inl invalid_text
             | Inr st \<Rightarrow> Inr (rows (\<lambda>p. p_status p = st))))"

text \<open>
  \<open>UpdatePost\<close> sets title, slug, excerpt, content_markdown, content_html and updated_at of the
  row with the argument's id.
\<close>

definition updated_post :: "tx \<Rightarrow> post \<Rightarrow> post \<Rightarrow> post" where
  "updated_post q p old = old\<lparr>p_title := p_title p, p_slug := p_slug p, p_excerpt := p_excerpt p,
     p_markdown := p_markdown p, p_html := p_html p, p_updated := tx_now q\<rparr>"

definition update_post :: "tx \<Rightarrow> post \<Rightarrow> post txn" where
  "update_post q p =
     and_then
       (write_stmt q (\<lambda>d.
          case find (post_at q (p_id p)) (posts d) of
            None \<Rightarrow> Inr (None, d)
          | Some old \<Rightarrow>
              if \<exists>x \<in> set (posts d). p_id x \<noteq> p_id old \<and> p_tenant x = p_tenant old \<and>
                   p_slug x = p_slug p
              then Inl unique_violation
              else Inr (Some (updated_post q p old),
                        d\<lparr>posts := upd_rows (post_at q (p_id p)) (updated_post q p) (posts d)\<rparr>)))
       scan_row"

definition post_with_status :: "tx \<Rightarrow> post_status \<Rightarrow> time option \<Rightarrow> string \<Rightarrow> post \<Rightarrow> post" where
  "post_with_status q st pub html old =
     old\<lparr>p_status := st, p_published := pub, p_html := html, p_updated := tx_now q\<rparr>"

definition set_post_status ::
  "tx \<Rightarrow> uuid \<Rightarrow> post_status \<Rightarrow> time option \<Rightarrow> string \<Rightarrow> post txn" where
  "set_post_status q pid st pub html =
     and_then
       (write_stmt q (\<lambda>d.
          case find (post_at q pid) (posts d) of
            None \<Rightarrow> Inr (None, d)
          | Some old \<Rightarrow>
              Inr (Some (post_with_status q st pub html old),
                   d\<lparr>posts := upd_rows (post_at q pid) (post_with_status q st pub html) (posts d)\<rparr>)))
       scan_row"

definition slug_exists :: "tx \<Rightarrow> uuid \<Rightarrow> string \<Rightarrow> bool txn" where
  "slug_exists q t slug = read_stmt (\<lambda>d.
     Inr (\<exists>p \<in> set (posts d). visible q (p_tenant p) \<and> p_tenant p = t \<and> p_slug p = slug))"

text \<open>
  Deleting a post cascades to its images and clears \<open>post_id\<close> of its imports. The single-column
  foreign key of imports was created first and its trigger runs first, so when the composite one
  runs no import refers to the post any more.
\<close>

definition unlink_imports :: "(uuid \<Rightarrow> bool) \<Rightarrow> doc_import list \<Rightarrow> doc_import list" where
  "unlink_imports gone is =
     upd_rows (\<lambda>i. case im_post i of None \<Rightarrow> False | Some p \<Rightarrow> gone p) (\<lambda>i. i\<lparr>im_post := None\<rparr>) is"

definition delete_post :: "tx \<Rightarrow> uuid \<Rightarrow> unit txn" where
  "delete_post q pid = write_stmt q (\<lambda>d.
     let gone = (\<lambda>i. \<exists>p \<in> set (posts d). post_at q pid p \<and> p_id p = i)
     in Inr ((), d\<lparr>posts := del_rows (post_at q pid) (posts d),
                   post_images := del_rows (\<lambda>im. gone (pi_post im)) (post_images d),
                   doc_imports := unlink_imports gone (doc_imports d)\<rparr>))"

section \<open>Tenants\<close>

text \<open>
  \<open>^[a-z0-9](?:[a-z0-9-]{0,61}[a-z0-9])?$\<close>, the CHECK of tenants.slug and the pattern of
  tenancy.ValidSlug: after the first character, nothing or a middle of at most 61 characters and a
  last one.
\<close>

fun valid_slug :: "string \<Rightarrow> bool" where
  "valid_slug [] = False"
| "valid_slug (c # cs) =
     (slug_char c \<and>
      (cs = [] \<or>
       (length (butlast cs) \<le> 61 \<and> list_all (\<lambda>x. slug_char x \<or> x = CHR ''-'') (butlast cs) \<and>
        slug_char (last cs))))"

definition create_tenant :: "tx \<Rightarrow> uuid \<Rightarrow> string \<Rightarrow> string \<Rightarrow> unit txn" where
  "create_tenant q tid slug name = write_stmt q (\<lambda>d.
     if \<not> valid_slug slug then Inl check_violation
     else if \<exists>t \<in> set (tenants d). t_id t = tid \<or> t_slug t = slug then Inl unique_violation
     else Inr ((), d\<lparr>tenants := tenants d @
       [\<lparr>t_id = tid, t_slug = slug, t_name = name, t_settings = JObj [], t_version = 0,
         t_created = tx_now q, t_updated = tx_now q\<rparr>]\<rparr>))"

definition get_tenant :: "tx \<Rightarrow> uuid \<Rightarrow> tenant txn" where
  "get_tenant q tid =
     and_then (read_stmt (\<lambda>d. Inr (find (\<lambda>t. t_id t = tid) (tenants d)))) scan_row"

definition list_tenants :: "tx \<Rightarrow> tenant list txn" where
  "list_tenants q = read_stmt (\<lambda>d. Inr (sort_key (\<lambda>t. (t_created t, t_id t)) (tenants d)))"

text \<open>content_version is a bigint: at its largest value the increment is out of range.\<close>

definition max_bigint :: int where
  "max_bigint = 9223372036854775807"

definition bumped :: "tx \<Rightarrow> tenant \<Rightarrow> tenant" where
  "bumped q t = t\<lparr>t_version := t_version t + 1, t_updated := tx_now q\<rparr>"

definition bump_content_version :: "tx \<Rightarrow> uuid \<Rightarrow> int txn" where
  "bump_content_version q tid =
     and_then
       (write_stmt q (\<lambda>d.
          case find (\<lambda>t. t_id t = tid) (tenants d) of
            None \<Rightarrow> Inr (None, d)
          | Some t \<Rightarrow>
              if t_version t = max_bigint then Inl out_of_range
              else Inr (Some (t_version t + 1),
                        d\<lparr>tenants := upd_rows (\<lambda>t. t_id t = tid) (bumped q) (tenants d)\<rparr>)))
       scan_row"

text \<open>\<open>UpdateTenant\<close>: an empty name and a nil settings argument leave the column as it is.\<close>

definition tenant_with :: "tx \<Rightarrow> string \<Rightarrow> json option \<Rightarrow> tenant \<Rightarrow> tenant" where
  "tenant_with q name settings t =
     t\<lparr>t_name := (if name = [] then t_name t else name),
       t_settings := (case settings of None \<Rightarrow> t_settings t | Some s \<Rightarrow> s),
       t_version := t_version t + 1, t_updated := tx_now q\<rparr>"

definition update_tenant :: "tx \<Rightarrow> uuid \<Rightarrow> string \<Rightarrow> json option \<Rightarrow> tenant txn" where
  "update_tenant q tid name settings =
     and_then
       (write_stmt q (\<lambda>d.
          case find (\<lambda>t. t_id t = tid) (tenants d) of
            None \<Rightarrow> Inr (None, d)
          | Some t \<Rightarrow>
              if t_version t = max_bigint then Inl out_of_range
              else Inr (Some (tenant_with q name settings t),
                        d\<lparr>tenants := upd_rows (\<lambda>t. t_id t = tid) (tenant_with q name settings)
                                       (tenants d)\<rparr>)))
       scan_row"

text \<open>Every table with a tenant_id cascades; sessions.scope is no foreign key and stays.\<close>

definition delete_tenant :: "tx \<Rightarrow> uuid \<Rightarrow> unit txn" where
  "delete_tenant q tid = write_stmt q (\<lambda>d.
     let gone = (\<lambda>i. \<exists>p \<in> set (posts d). p_tenant p = tid \<and> p_id p = i)
     in if \<exists>t \<in> set (tenants d). t_id t = tid then
          Inr ((), d\<lparr>tenants := del_rows (\<lambda>t. t_id t = tid) (tenants d),
                     memberships := del_rows (\<lambda>m. m_tenant m = tid) (memberships d),
                     posts := del_rows (\<lambda>p. p_tenant p = tid) (posts d),
                     post_images := del_rows (\<lambda>im. pi_tenant im = tid \<or> gone (pi_post im))
                                      (post_images d),
                     invitations := del_rows (\<lambda>i. i_tenant i = tid) (invitations d),
                     doc_imports := unlink_imports gone
                                  (del_rows (\<lambda>i. im_tenant i = tid) (doc_imports d))\<rparr>)
        else Inr ((), d))"

end
