(* ===== verification/Attachments.thy ===== *)
theory Attachments
  imports Queries
begin

text \<open>
  The statements of internal/store/queries.go on post_images and imports, both under row-level
  security and tied to the posts of the same tenant by the composite foreign key.
\<close>

section \<open>Images\<close>

text \<open>
  A new image row: position and variants take their defaults, 0 and the empty object.
\<close>

definition image_row ::
  "tx \<Rightarrow> uuid \<Rightarrow> uuid \<Rightarrow> uuid \<Rightarrow> string \<Rightarrow> string \<Rightarrow> int \<Rightarrow> int \<Rightarrow> int \<Rightarrow> string \<Rightarrow> post_image" where
  "image_row q iid t p key url w h sz mime =
     \<lparr>pi_id = iid, pi_tenant = t, pi_post = p, pi_key = key, pi_url = url, pi_width = w,
      pi_height = h, pi_size = sz, pi_mime = mime, pi_position = 0, pi_variants = [],
      pi_created = tx_now q\<rparr>"

definition create_post_image ::
  "tx \<Rightarrow> uuid \<Rightarrow> uuid \<Rightarrow> uuid \<Rightarrow> string \<Rightarrow> string \<Rightarrow> int \<Rightarrow> int \<Rightarrow> int \<Rightarrow> string \<Rightarrow> unit txn" where
  "create_post_image q iid t p key url w h sz mime = write_stmt q (\<lambda>d.
     if \<not> visible q t then Inl rls_violation
     else if \<exists>x \<in> set (post_images d). pi_id x = iid \<or> (pi_tenant x = t \<and> pi_key x = key)
       then Inl unique_violation
     else if \<not> has_tenant d t \<or> \<not> has_post d t p then Inl foreign_key_violation
     else Inr ((), d\<lparr>post_images := post_images d @ [image_row q iid t p key url w h sz mime]\<rparr>))"

text \<open>
  \<open>on conflict (tenant_id, r2_key) do nothing\<close>: a row with that pair makes the statement affect
  no row; the primary key still raises.
\<close>

definition insert_post_image_on_conflict ::
  "tx \<Rightarrow> uuid \<Rightarrow> uuid \<Rightarrow> uuid \<Rightarrow> string \<Rightarrow> string \<Rightarrow> string \<Rightarrow> int \<Rightarrow> nat txn" where
  "insert_post_image_on_conflict q iid t p key url mime sz = write_stmt q (\<lambda>d.
     if \<not> visible q t then Inl rls_violation
     else if \<exists>x \<in> set (post_images d). pi_tenant x = t \<and> pi_key x = key then Inr (0, d)
     else if \<exists>x \<in> set (post_images d). pi_id x = iid then Inl unique_violation
     else if \<not> has_tenant d t \<or> \<not> has_post d t p then Inl foreign_key_violation
     else Inr (1, d\<lparr>post_images := post_images d @ [image_row q iid t p key url 0 0 sz mime]\<rparr>))"

definition image_at :: "tx \<Rightarrow> uuid \<Rightarrow> post_image \<Rightarrow> bool" where
  "image_at q iid im = (pi_id im = iid \<and> visible q (pi_tenant im))"

definition get_post_image_by_id :: "tx \<Rightarrow> uuid \<Rightarrow> post_image txn" where
  "get_post_image_by_id q iid =
     and_then (read_stmt (\<lambda>d. Inr (find (image_at q iid) (post_images d)))) scan_row"

definition get_post_image_by_key :: "tx \<Rightarrow> string \<Rightarrow> post_image txn" where
  "get_post_image_by_key q key =
     and_then
       (read_stmt (\<lambda>d. Inr (find (\<lambda>im. pi_key im = key \<and> visible q (pi_tenant im)) (post_images d))))
       scan_row"

definition delete_post_image :: "tx \<Rightarrow> uuid \<Rightarrow> unit txn" where
  "delete_post_image q iid =
     write_stmt q (\<lambda>d. Inr ((), d\<lparr>post_images := del_rows (image_at q iid) (post_images d)\<rparr>))"

definition update_post_image_variants ::
  "tx \<Rightarrow> uuid \<Rightarrow> int \<Rightarrow> int \<Rightarrow> (string \<times> variant) list \<Rightarrow> unit txn" where
  "update_post_image_variants q iid w h vs =
     write_stmt q (\<lambda>d. Inr ((), d\<lparr>post_images :=
       upd_rows (image_at q iid) (\<lambda>im. im\<lparr>pi_width := w, pi_height := h, pi_variants := vs\<rparr>)
         (post_images d)\<rparr>))"

section \<open>Imports\<close>

definition create_import ::
  "tx \<Rightarrow> uuid \<Rightarrow> uuid \<Rightarrow> uuid \<Rightarrow> uuid option \<Rightarrow> string \<Rightarrow> string \<Rightarrow> unit txn" where
  "create_import q iid t u p fmt key = write_stmt q (\<lambda>d.
     if \<not> visible q t then Inl rls_violation
     else if \<exists>x \<in> set (doc_imports d). im_id x = iid then Inl unique_violation
     else if \<not> has_tenant d t \<or> \<not> has_user d u \<or> (case p of None \<Rightarrow> False | Some i \<Rightarrow> \<not> has_post d t i)
       then Inl foreign_key_violation
     else Inr ((), d\<lparr>doc_imports := doc_imports d @
       [\<lparr>im_id = iid, im_tenant = t, im_user = u, im_post = p, im_format = fmt, im_key = key,
         im_status = ImportConverting, im_markdown = None, im_error = None,
         im_created = tx_now q, im_updated = tx_now q\<rparr>]\<rparr>))"

definition import_at :: "tx \<Rightarrow> uuid \<Rightarrow> doc_import \<Rightarrow> bool" where
  "import_at q iid im = (im_id im = iid \<and> visible q (im_tenant im))"

definition get_import_by_id :: "tx \<Rightarrow> uuid \<Rightarrow> doc_import txn" where
  "get_import_by_id q iid =
     and_then (read_stmt (\<lambda>d. Inr (find (import_at q iid) (doc_imports d)))) scan_row"

text \<open>The tag's \<open>RowsAffected() == 0\<close> turned into \<open>pgx.ErrNoRows\<close>.\<close>

definition affected :: "nat \<Rightarrow> unit txn" where
  "affected n = (if n = 0 then fail ErrNoRows else ret ())"

text \<open>The compare-and-set of \<open>post_id\<close>: only an import with a NULL post is claimed.\<close>

definition claimable :: "tx \<Rightarrow> uuid \<Rightarrow> doc_import \<Rightarrow> bool" where
  "claimable q iid im = (import_at q iid im \<and> im_post im = None)"

definition set_import_post_id :: "tx \<Rightarrow> uuid \<Rightarrow> uuid \<Rightarrow> unit txn" where
  "set_import_post_id q iid pid =
     and_then
       (write_stmt q (\<lambda>d.
          if \<exists>x \<in> set (doc_imports d). claimable q iid x \<and> \<not> has_post d (im_tenant x) pid
          then Inl foreign_key_violation
          else Inr (length (filter (claimable q iid) (doc_imports d)),
                    d\<lparr>doc_imports := upd_rows (claimable q iid)
                        (\<lambda>im. im\<lparr>im_post := Some pid, im_updated := tx_now q\<rparr>) (doc_imports d)\<rparr>)))
       affected"

record import_update =
  iu_status :: "import_status option"
  iu_post :: "uuid option"
  iu_markdown :: "string option"
  iu_error :: "string option"

definition coalesce :: "'a option \<Rightarrow> 'a option \<Rightarrow> 'a option" where
  "coalesce a b = (case a of None \<Rightarrow> b | Some x \<Rightarrow> Some x)"

definition import_with :: "tx \<Rightarrow> import_update \<Rightarrow> doc_import \<Rightarrow> doc_import" where
  "import_with q u im = im\<lparr>
     im_status := (case iu_status u of None \<Rightarrow> im_status im | Some s \<Rightarrow> s),
     im_post := coalesce (iu_post u) (im_post im),
     im_markdown := coalesce (iu_markdown u) (im_markdown im),
     im_error := coalesce (iu_error u) (im_error im),
     im_updated := tx_now q\<rparr>"

definition update_import :: "tx \<Rightarrow> uuid \<Rightarrow> import_update \<Rightarrow> unit txn" where
  "update_import q iid u =
     and_then
       (write_stmt q (\<lambda>d.
          if \<exists>x \<in> set (doc_imports d). import_at q iid x \<and>
               (case iu_post u of None \<Rightarrow> False | Some p \<Rightarrow> \<not> has_post d (im_tenant x) p)
          then Inl foreign_key_violation
          else Inr (length (filter (import_at q iid) (doc_imports d)),
                    d\<lparr>doc_imports := upd_rows (import_at q iid) (import_with q u) (doc_imports d)\<rparr>)))
       affected"

lemma affected_Inr [simp]: "affected n s = (Inr u, s') \<longleftrightarrow> n \<noteq> 0 \<and> s' = s"
  by (auto simp: affected_def)

lemma runs_affected [txn_run]: "runs (affected n) d y d' \<longleftrightarrow> n \<noteq> 0 \<and> d' = d"
  by (auto simp: runs_def)

lemma runs_then_affected [txn_run]:
  "runs (and_then (affected n) g) d y d' \<longleftrightarrow> n \<noteq> 0 \<and> runs (g ()) d y d'"
  by (cases n) (auto simp: affected_def runs_fail)

end
