(* ===== verification/Accounts.thy ===== *)
theory Accounts
  imports Attachments
begin

text \<open>
  The statements of internal/store on users, memberships, sessions and invitations. None of these
  tables is under row-level security: each statement names the user, tenant or token it is about.
\<close>

section \<open>Users\<close>

definition create_user :: "tx \<Rightarrow> uuid \<Rightarrow> string \<Rightarrow> string \<Rightarrow> string option \<Rightarrow> unit txn" where
  "create_user q uid email display pw = write_stmt q (\<lambda>d.
     if \<exists>u \<in> set (users d). us_id u = uid \<or> tx_lower q (us_email u) = tx_lower q email
     then Inl unique_violation
     else Inr ((), d\<lparr>users := users d @
       [\<lparr>us_id = uid, us_email = email, us_password = pw, us_display = display, us_super = False,
         us_created = tx_now q\<rparr>]\<rparr>))"

definition set_super_admin :: "tx \<Rightarrow> uuid \<Rightarrow> bool \<Rightarrow> unit txn" where
  "set_super_admin q uid on =
     write_stmt q (\<lambda>d. Inr ((), d\<lparr>users :=
       upd_rows (\<lambda>u. us_id u = uid) (\<lambda>u. u\<lparr>us_super := on\<rparr>) (users d)\<rparr>))"

definition get_user_by_email :: "tx \<Rightarrow> string \<Rightarrow> user txn" where
  "get_user_by_email q email =
     and_then
       (read_stmt (\<lambda>d. Inr (find (\<lambda>u. tx_lower q (us_email u) = tx_lower q email) (users d))))
       scan_row"

text \<open>\<open>IsSuperAdmin\<close> runs on the pool, outside any transaction of the caller.\<close>

definition is_super_admin :: "uuid \<Rightarrow> bool act" where
  "is_super_admin uid = (\<lambda>d.
     (case find (\<lambda>u. us_id u = uid) (users d) of
        None \<Rightarrow> Inl ErrNotMember
      | Some u \<Rightarrow> Inr (us_super u), d))"

section \<open>Memberships\<close>

definition known_role :: "string \<Rightarrow> bool" where
  "known_role r = (r \<in> {''owner'', ''admin'', ''editor'', ''author''})"

definition of_member :: "uuid \<Rightarrow> uuid \<Rightarrow> membership \<Rightarrow> bool" where
  "of_member t u m = (m_tenant m = t \<and> m_user m = u)"

definition add_membership :: "tx \<Rightarrow> uuid \<Rightarrow> uuid \<Rightarrow> string \<Rightarrow> unit txn" where
  "add_membership q t u role = write_stmt q (\<lambda>d.
     if \<not> known_role role then Inl check_violation
     else if \<exists>m \<in> set (memberships d). of_member t u m then Inl unique_violation
     else if \<not> has_tenant d t \<or> \<not> has_user d u then Inl foreign_key_violation
     else Inr ((), d\<lparr>memberships := memberships d @ [\<lparr>m_tenant = t, m_user = u, m_role = role\<rparr>]\<rparr>))"

definition add_membership_if_absent :: "tx \<Rightarrow> uuid \<Rightarrow> uuid \<Rightarrow> string \<Rightarrow> unit txn" where
  "add_membership_if_absent q t u role = write_stmt q (\<lambda>d.
     if \<not> known_role role then Inl check_violation
     else if \<exists>m \<in> set (memberships d). of_member t u m then Inr ((), d)
     else if \<not> has_tenant d t \<or> \<not> has_user d u then Inl foreign_key_violation
     else Inr ((), d\<lparr>memberships := memberships d @ [\<lparr>m_tenant = t, m_user = u, m_role = role\<rparr>]\<rparr>))"

definition membership_role :: "uuid \<Rightarrow> uuid \<Rightarrow> string act" where
  "membership_role uid tid = (\<lambda>d.
     (case find (of_member tid uid) (memberships d) of
        None \<Rightarrow> Inl ErrNotMember
      | Some m \<Rightarrow> Inr (m_role m), d))"

definition memberships_of :: "uuid \<Rightarrow> (uuid \<times> string) list act" where
  "memberships_of uid = (\<lambda>d.
     (Inr (map (\<lambda>m. (m_tenant m, m_role m)) (filter (\<lambda>m. m_user m = uid) (memberships d))), d))"

text \<open>\<open>MembershipViews\<close>: the join with tenants, ordered by the tenant's name.\<close>

definition membership_views :: "uuid \<Rightarrow> (uuid \<times> string \<times> string \<times> string) list act" where
  "membership_views uid = (\<lambda>d.
     (Inr (sort_key (\<lambda>(i, slug, name, role). name)
        (concat (map (\<lambda>m. map (\<lambda>t. (m_tenant m, t_slug t, t_name t, m_role m))
                             (filter (\<lambda>t. t_id t = m_tenant m) (tenants d)))
           (filter (\<lambda>m. m_user m = uid) (memberships d))))), d))"

definition set_membership_role :: "tx \<Rightarrow> uuid \<Rightarrow> uuid \<Rightarrow> string \<Rightarrow> unit txn" where
  "set_membership_role q t u role =
     and_then
       (write_stmt q (\<lambda>d.
          let n = length (filter (of_member t u) (memberships d))
          in if n > 0 \<and> \<not> known_role role then Inl check_violation
             else Inr (n, d\<lparr>memberships := upd_rows (of_member t u) (\<lambda>m. m\<lparr>m_role := role\<rparr>)
                              (memberships d)\<rparr>)))
       affected"

definition remove_membership :: "tx \<Rightarrow> uuid \<Rightarrow> uuid \<Rightarrow> unit txn" where
  "remove_membership q t u =
     and_then
       (write_stmt q (\<lambda>d.
          Inr (length (filter (of_member t u) (memberships d)),
               d\<lparr>memberships := del_rows (of_member t u) (memberships d)\<rparr>)))
       affected"

text \<open>\<open>ListTenantMembers\<close>: user id, email, display name and role, by the user's creation.\<close>

definition list_tenant_members :: "tx \<Rightarrow> uuid \<Rightarrow> (uuid \<times> string \<times> string \<times> string) list txn" where
  "list_tenant_members q tid = read_stmt (\<lambda>d. Inr
     (map (\<lambda>(u, m). (us_id u, us_email u, us_display u, m_role m))
        (sort_key (\<lambda>(u, m). (us_created u, us_id u))
           (concat (map (\<lambda>m. map (\<lambda>u. (u, m)) (filter (\<lambda>u. us_id u = m_user m) (users d)))
              (filter (\<lambda>m. m_tenant m = tid) (memberships d)))))))"

section \<open>Sessions\<close>

definition insert_session :: "tx \<Rightarrow> bytes \<Rightarrow> uuid \<Rightarrow> uuid option \<Rightarrow> time \<Rightarrow> unit txn" where
  "insert_session q h uid sc exp = write_stmt q (\<lambda>d.
     if \<exists>s \<in> set (sessions d). s_hash s = h then Inl unique_violation
     else if \<not> has_user d uid then Inl foreign_key_violation
     else Inr ((), d\<lparr>sessions := sessions d @
       [\<lparr>s_hash = h, s_user = uid, s_scope = sc, s_expires = exp, s_created = tx_now q\<rparr>]\<rparr>))"

definition get_session_by_token_hash :: "tx \<Rightarrow> bytes \<Rightarrow> session txn" where
  "get_session_by_token_hash q h =
     and_then (read_stmt (\<lambda>d. Inr (find (\<lambda>s. s_hash s = h) (sessions d)))) scan_row"

definition delete_session_by_token_hash :: "tx \<Rightarrow> bytes \<Rightarrow> unit txn" where
  "delete_session_by_token_hash q h =
     write_stmt q (\<lambda>d. Inr ((), d\<lparr>sessions := del_rows (\<lambda>s. s_hash s = h) (sessions d)\<rparr>))"

definition set_session_scope :: "tx \<Rightarrow> bytes \<Rightarrow> uuid option \<Rightarrow> unit txn" where
  "set_session_scope q h sc =
     and_then
       (write_stmt q (\<lambda>d.
          Inr (length (filter (\<lambda>s. s_hash s = h) (sessions d)),
               d\<lparr>sessions := upd_rows (\<lambda>s. s_hash s = h) (\<lambda>s. s\<lparr>s_scope := sc\<rparr>) (sessions d)\<rparr>)))
       affected"

section \<open>Invitations\<close>

definition same_email :: "tx \<Rightarrow> string \<Rightarrow> invitation \<Rightarrow> bool" where
  "same_email q email i =
     (case i_email i of None \<Rightarrow> False | Some e \<Rightarrow> tx_lower q e = tx_lower q email)"

definition live :: "tx \<Rightarrow> invitation \<Rightarrow> bool" where
  "live q i = (i_consumed i = None \<and> i_expires i > tx_now q)"

definition has_pending_invitation :: "tx \<Rightarrow> string \<Rightarrow> bool txn" where
  "has_pending_invitation q email =
     read_stmt (\<lambda>d. Inr (\<exists>i \<in> set (invitations d). same_email q email i \<and> live q i))"

definition insert_invitation ::
  "tx \<Rightarrow> uuid \<Rightarrow> uuid \<Rightarrow> string option \<Rightarrow> string \<Rightarrow> bytes option \<Rightarrow> time \<Rightarrow> unit txn" where
  "insert_invitation q iid t email role tok exp = write_stmt q (\<lambda>d.
     if \<not> known_role role then Inl check_violation
     else if \<exists>i \<in> set (invitations d). i_id i = iid then Inl unique_violation
     else if \<not> has_tenant d t then Inl foreign_key_violation
     else Inr ((), d\<lparr>invitations := invitations d @
       [\<lparr>i_id = iid, i_tenant = t, i_email = email, i_role = role, i_token = tok, i_expires = exp,
         i_consumed = None\<rparr>]\<rparr>))"

definition consume_invitation_by_email :: "tx \<Rightarrow> string \<Rightarrow> unit txn" where
  "consume_invitation_by_email q email =
     write_stmt q (\<lambda>d. Inr ((), d\<lparr>invitations :=
       upd_rows (\<lambda>i. same_email q email i \<and> i_consumed i = None)
         (\<lambda>i. i\<lparr>i_consumed := Some (tx_now q)\<rparr>) (invitations d)\<rparr>))"

text \<open>
  \<open>ConsumePendingInvitation\<close>: of the live invitations of the email (and tenant, when one is
  given) the first by expiry and id is consumed and returned.
\<close>

definition pending_for :: "tx \<Rightarrow> string \<Rightarrow> uuid option \<Rightarrow> invitation \<Rightarrow> bool" where
  "pending_for q email tid i =
     (same_email q email i \<and> live q i \<and> (case tid of None \<Rightarrow> True | Some t \<Rightarrow> i_tenant i = t))"

definition consume_pending_invitation ::
  "tx \<Rightarrow> string \<Rightarrow> uuid option \<Rightarrow> (uuid \<times> string) txn" where
  "consume_pending_invitation q email tid =
     and_then
       (write_stmt q (\<lambda>d.
          case sort_key (\<lambda>i. (i_expires i, i_id i)) (filter (pending_for q email tid) (invitations d)) of
            [] \<Rightarrow> Inr (None, d)
          | i # _ \<Rightarrow> Inr (Some (i_tenant i, i_role i),
              d\<lparr>invitations := upd_rows (\<lambda>x. i_id x = i_id i)
                  (\<lambda>x. x\<lparr>i_consumed := Some (tx_now q)\<rparr>) (invitations d)\<rparr>)))
       scan_row"

definition consume_pending_invitation_by_token :: "tx \<Rightarrow> bytes \<Rightarrow> (uuid \<times> string) txn" where
  "consume_pending_invitation_by_token q tok =
     and_then
       (write_stmt q (\<lambda>d.
          let P = (\<lambda>i. i_token i = Some tok \<and> live q i)
          in Inr (map_option (\<lambda>i. (i_tenant i, i_role i)) (find P (invitations d)),
                  d\<lparr>invitations := upd_rows P (\<lambda>x. x\<lparr>i_consumed := Some (tx_now q)\<rparr>)
                      (invitations d)\<rparr>)))
       scan_row"

end
