(* ===== verification/Jobs.thy ===== *)
theory Jobs
  imports Accounts
begin

text \<open>
  internal/jobs: the PostgreSQL inbox. \<open>enqueue\<close> writes in the caller's transaction; a worker claims
  a due job under a lease, runs its handler and records the outcome; the sweeper requeues jobs whose
  lease has expired.
\<close>

section \<open>Enqueue\<close>

definition new_job :: "tx \<Rightarrow> uuid \<Rightarrow> string \<Rightarrow> string option \<Rightarrow> job_payload \<Rightarrow> job" where
  "new_job q jid kind key payload =
     \<lparr>j_id = jid, j_kind = kind, j_dedupe = key, j_payload = payload, j_state = Queued,
      j_attempts = 0, j_run_after = tx_now q, j_lease = None, j_last_err = None,
      j_created = tx_now q, j_updated = tx_now q\<rparr>"

definition nullif_empty :: "string \<Rightarrow> string option" where
  "nullif_empty s = (if s = [] then None else Some s)"

definition same_job :: "string \<Rightarrow> string option \<Rightarrow> job \<Rightarrow> bool" where
  "same_job kind key j = (key \<noteq> None \<and> j_kind j = kind \<and> j_dedupe j = key)"

text \<open>
  \<open>on conflict (kind, dedupe_key) where dedupe_key is not null do nothing\<close>: the conflicting row may
  be in any state. \<open>jid\<close> is the id the database mints.
\<close>

definition enqueue :: "tx \<Rightarrow> uuid \<Rightarrow> string \<Rightarrow> string \<Rightarrow> job_payload \<Rightarrow> uuid txn" where
  "enqueue q jid kind key payload =
     and_then
       (write_stmt q (\<lambda>d.
          if \<exists>j \<in> set (jobs d). same_job kind (nullif_empty key) j then Inr (None, d)
          else if \<exists>j \<in> set (jobs d). j_id j = jid then Inl unique_violation
          else Inr (Some jid, d\<lparr>jobs := jobs d @ [new_job q jid kind (nullif_empty key) payload]\<rparr>)))
       (\<lambda>r. lift_sum (case r of None \<Rightarrow> Inl ErrDuplicate | Some i \<Rightarrow> Inr i))"

definition enqueue_batch :: "tx \<Rightarrow> string \<Rightarrow> (uuid \<times> job_payload) list \<Rightarrow> nat txn" where
  "enqueue_batch q kind ps = write_stmt q (\<lambda>d.
     if \<not> distinct (map fst ps) \<or> (\<exists>j \<in> set (jobs d). j_id j \<in> set (map fst ps))
     then Inl unique_violation
     else Inr (length ps, d\<lparr>jobs := jobs d @ map (\<lambda>(i, p). new_job q i kind None p) ps\<rparr>))"

section \<open>Claim, outcome, sweep\<close>

definition max_attempts :: int where
  "max_attempts = 5"

definition lease_duration :: time where
  "lease_duration = 180 * second"

definition max_backoff :: time where
  "max_backoff = 3600 * second"

definition job_timeout :: time where
  "job_timeout = 60 * second"

definition state_timeout :: time where
  "state_timeout = 15 * second"

text \<open>
  \<open>baseBackoff * 2 ^ (attempts - 1)\<close> computed on float64, where it is exact, then capped; a negative
  exponent truncates to a whole duration.
\<close>

definition compute_backoff :: "int \<Rightarrow> time" where
  "compute_backoff attempts =
     (let d = (if 1 \<le> attempts then second * 2 ^ nat (attempts - 1)
               else second div 2 ^ nat (1 - attempts))
      in if d > max_backoff then max_backoff else d)"

definition due :: "time \<Rightarrow> job \<Rightarrow> bool" where
  "due now j = (j_state j = Queued \<and> j_run_after j \<le> now)"

definition claimed :: "time \<Rightarrow> job \<Rightarrow> job" where
  "claimed now j = j\<lparr>j_state := Running, j_attempts := j_attempts j + 1,
     j_lease := Some (now + lease_duration), j_updated := now\<rparr>"

definition claim :: "time \<Rightarrow> job act" where
  "claim now = (\<lambda>d.
     case sort_key j_run_after (filter (due now) (jobs d)) of
       [] \<Rightarrow> (Inl ErrNoJob, d)
     | j # _ \<Rightarrow> (Inr (claimed now j), d\<lparr>jobs := upd_rows (\<lambda>x. j_id x = j_id j) (claimed now) (jobs d)\<rparr>))"

definition job_done :: "time \<Rightarrow> uuid \<Rightarrow> db \<Rightarrow> db" where
  "job_done now jid d = d\<lparr>jobs :=
     upd_rows (\<lambda>x. j_id x = jid) (\<lambda>x. x\<lparr>j_state := Done, j_updated := now\<rparr>) (jobs d)\<rparr>"

definition mark_failed :: "time \<Rightarrow> uuid \<Rightarrow> string \<Rightarrow> db \<Rightarrow> db" where
  "mark_failed now jid msg d = d\<lparr>jobs :=
     upd_rows (\<lambda>x. j_id x = jid)
       (\<lambda>x. x\<lparr>j_state := Failed, j_last_err := Some msg, j_updated := now\<rparr>) (jobs d)\<rparr>"

definition requeued :: "time \<Rightarrow> time \<Rightarrow> job \<Rightarrow> job" where
  "requeued now at j = j\<lparr>j_state := Queued, j_run_after := at, j_lease := None, j_updated := now\<rparr>"

definition fail_job :: "time \<Rightarrow> uuid \<Rightarrow> string \<Rightarrow> db \<Rightarrow> db" where
  "fail_job now jid msg d =
     (case find (\<lambda>x. j_id x = jid) (jobs d) of
        None \<Rightarrow> d
      | Some j \<Rightarrow>
          if j_attempts j \<ge> max_attempts then mark_failed now jid msg d
          else d\<lparr>jobs := upd_rows (\<lambda>x. j_id x = jid)
                   (requeued now (now + compute_backoff (j_attempts j))) (jobs d)\<rparr>)"

text \<open>
  \<open>runJob\<close>: \<open>known\<close> is the set of registered kinds and \<open>outcome\<close> what the handler returns, \<open>None\<close>
  for nil. A payload that does not decode is a failure of the run; an unknown kind fails at once.
\<close>

definition run_job :: "time \<Rightarrow> (string \<Rightarrow> bool) \<Rightarrow> job \<Rightarrow> string option \<Rightarrow> db \<Rightarrow> db" where
  "run_job now known j outcome d =
     (case j_payload j of
        BadPayload msg \<Rightarrow> fail_job now (j_id j) msg d
      | JobPayload t dat \<Rightarrow>
          if \<not> known (j_kind j) then
            mark_failed now (j_id j) (''jobs: no handler registered for kind '' @ j_kind j) d
          else (case outcome of
                  Some msg \<Rightarrow> fail_job now (j_id j) msg d
                | None \<Rightarrow> job_done now (j_id j) d))"

definition lease_expired :: "time \<Rightarrow> job \<Rightarrow> bool" where
  "lease_expired now j =
     (j_state j = Running \<and> (case j_lease j of None \<Rightarrow> False | Some l \<Rightarrow> l < now))"

text \<open>The three statements of a sweep, each a transaction of its own.\<close>

definition requeue_expired :: "time \<Rightarrow> db \<Rightarrow> db" where
  "requeue_expired now d = d\<lparr>jobs := upd_rows (lease_expired now) (requeued now now) (jobs d)\<rparr>"

definition drop_sessions :: "time \<Rightarrow> db \<Rightarrow> db" where
  "drop_sessions now d = d\<lparr>sessions := del_rows (\<lambda>s. s_expires s < now - 7 * 86400 * second) (sessions d)\<rparr>"

definition drop_flows :: "time \<Rightarrow> db \<Rightarrow> db" where
  "drop_flows now d = d\<lparr>oauth_flows := del_rows (\<lambda>f. f_expires f < now) (oauth_flows d)\<rparr>"

definition sweep :: "time \<Rightarrow> db \<Rightarrow> db" where
  "sweep now d = drop_flows now (drop_sessions now (requeue_expired now d))"

section \<open>The queue under its workers\<close>

text \<open>
  The runs in flight are the jobs claimed and not yet recorded, with the time of their claim. A
  run keeps its bound: the handler's context ends after 60 seconds and the final statement after 15
  more, so time does not pass a run's limit while it is in flight. A crash of the process, or a failing
  final statement, loses a run. Whatever else the program commits leaves the queue's rows alone.
\<close>

definition run_limit :: time where
  "run_limit = job_timeout + state_timeout"

record wstate =
  w_db :: db
  w_now :: time
  w_runs :: "(job \<times> time) list"

inductive wstep :: "(string \<Rightarrow> bool) \<Rightarrow> wstate \<Rightarrow> wstate \<Rightarrow> bool" for known where
  ws_tick: "w_now w \<le> t \<Longrightarrow> (\<And>j c. (j, c) \<in> set (w_runs w) \<Longrightarrow> t \<le> c + run_limit) \<Longrightarrow>
     wstep known w (w\<lparr>w_now := t\<rparr>)"
| ws_enqueue: "tx_now q = w_now w \<Longrightarrow> runs (enqueue q jid kind key payload) (w_db w) i d' \<Longrightarrow>
     wstep known w (w\<lparr>w_db := d'\<rparr>)"
| ws_claim: "claim (w_now w) (w_db w) = (Inr j, d') \<Longrightarrow>
     wstep known w (w\<lparr>w_db := d', w_runs := (j, w_now w) # w_runs w\<rparr>)"
| ws_finish: "(j, c) \<in> set (w_runs w) \<Longrightarrow>
     wstep known w (w\<lparr>w_db := run_job (w_now w) known j outcome (w_db w),
                     w_runs := remove1 (j, c) (w_runs w)\<rparr>)"
| ws_crash: "(j, c) \<in> set (w_runs w) \<Longrightarrow>
     wstep known w (w\<lparr>w_runs := remove1 (j, c) (w_runs w)\<rparr>)"
| ws_sweep: "wstep known w (w\<lparr>w_db := requeue_expired (w_now w) (w_db w)\<rparr>)"
| ws_other: "jobs d' = jobs (w_db w) \<Longrightarrow> wstep known w (w\<lparr>w_db := d'\<rparr>)"

definition wstart :: "wstate \<Rightarrow> bool" where
  "wstart w \<longleftrightarrow> distinct (map j_id (jobs (w_db w))) \<and> w_runs w = []"

inductive_cases wstepE: "wstep known w w'"

section \<open>Backoff\<close>

lemma backoff_bounds: "1 \<le> a \<Longrightarrow> second \<le> compute_backoff a \<and> compute_backoff a \<le> max_backoff"
  by (simp add: compute_backoff_def max_backoff_def Let_def)

lemma backoff_doubles:
  assumes "1 \<le> a"
  shows "compute_backoff (a + 1) = min (2 * compute_backoff a) max_backoff"
proof -
  have "nat (a + 1 - 1) = Suc (nat (a - 1))" using assms by simp
  then show ?thesis using assms by (simp add: compute_backoff_def max_backoff_def Let_def)
qed

section \<open>Effects on the table\<close>

lemma claim_InrE:
  assumes "claim now d = (Inr j, d')"
  obtains r where "r \<in> set (jobs d)" "due now r" "j = claimed now r"
    "\<And>x. x \<in> set (jobs d) \<Longrightarrow> due now x \<Longrightarrow> j_run_after r \<le> j_run_after x"
    "d' = d\<lparr>jobs := upd_rows (\<lambda>x. j_id x = j_id r) (claimed now) (jobs d)\<rparr>"
proof -
  let ?s = "sort_key j_run_after (filter (due now) (jobs d))"
  from assms obtain r rs where s: "?s = r # rs"
    and j: "j = claimed now r" "d' = d\<lparr>jobs := upd_rows (\<lambda>x. j_id x = j_id r) (claimed now) (jobs d)\<rparr>"
    by (auto simp: claim_def split: list.splits)
  have set_s: "set (r # rs) = set (jobs d) \<inter> {x. due now x}"
    unfolding s [symmetric] by auto
  have "sorted (map j_run_after (r # rs))"
    unfolding s [symmetric] by (rule sorted_sort_key)
  then have first: "\<And>x. x \<in> set rs \<Longrightarrow> j_run_after r \<le> j_run_after x" by simp
  show ?thesis
  proof (rule that)
    show "r \<in> set (jobs d)" "due now r" using set_s by auto
    show "j_run_after r \<le> j_run_after x" if "x \<in> set (jobs d)" "due now x" for x
    proof -
      from that set_s have "x \<in> set (r # rs)" by blast
      then show ?thesis using first by auto
    qed
  qed (fact j)+
qed

lemma claim_NoJob_iff: "(\<exists>d'. claim now d = (Inl ErrNoJob, d')) \<longleftrightarrow> \<not> (\<exists>j \<in> set (jobs d). due now j)"
proof -
  let ?s = "sort_key j_run_after (filter (due now) (jobs d))"
  have "?s = [] \<longleftrightarrow> \<not> (\<exists>j \<in> set (jobs d). due now j)"
    by (metis (no_types, lifting) empty_filter_conv set_empty set_sort)
  then show ?thesis by (auto simp: claim_def split: list.splits)
qed

section \<open>The lease protocol\<close>

text \<open>
  The row of a run in flight is Running under the lease of its claim. \<open>one_lease\<close> is the invariant:
  ids are unique, no two runs are of the same job, and every run holds its row's lease and is within
  its time limit.
\<close>

definition holds_lease :: "db \<Rightarrow> job \<times> time \<Rightarrow> bool" where
  "holds_lease d r = (\<exists>x \<in> set (jobs d).
     j_id x = j_id (fst r) \<and> j_state x = Running \<and> j_lease x = Some (snd r + lease_duration))"

definition one_lease :: "wstate \<Rightarrow> bool" where
  "one_lease w \<longleftrightarrow> distinct (map j_id (jobs (w_db w))) \<and>
     distinct (map (\<lambda>r. j_id (fst r)) (w_runs w)) \<and>
     (\<forall>r \<in> set (w_runs w). holds_lease (w_db w) r \<and> w_now w \<le> snd r + run_limit)"

lemma job_row_ids [simp]:
  "j_id (claimed now j) = j_id j" "j_id (requeued now at j) = j_id j"
  "j_id (new_job q i kind key payload) = i"
  by (simp_all add: claimed_def requeued_def new_job_def)

lemma claimed_sel [simp]:
  "j_state (claimed now j) = Running" "j_lease (claimed now j) = Some (now + lease_duration)"
  by (simp_all add: claimed_def)

lemma run_limit_lease: "run_limit < lease_duration"
  by (simp add: run_limit_def job_timeout_def state_timeout_def lease_duration_def)

text \<open>A run records its outcome on its own row only, and never changes an id.\<close>

definition job_key :: "job \<Rightarrow> uuid \<times> string \<times> string option" where
  "job_key j = (j_id j, j_kind j, j_dedupe j)"

lemma job_key_kept [simp]:
  "job_key (claimed now j) = job_key j" "job_key (requeued now at j) = job_key j"
  by (simp_all add: claimed_def requeued_def job_key_def)

lemma job_keys_ids: "map job_key js = map job_key js' \<Longrightarrow> map j_id js = map j_id js'"
proof -
  assume "map job_key js = map job_key js'"
  then have "map fst (map job_key js) = map fst (map job_key js')" by simp
  then show ?thesis by (simp add: job_key_def comp_def)
qed

definition only_row :: "uuid \<Rightarrow> db \<Rightarrow> db \<Rightarrow> bool" where
  "only_row i d d' \<longleftrightarrow> map job_key (jobs d') = map job_key (jobs d) \<and>
     (\<forall>x \<in> set (jobs d). j_id x \<noteq> i \<longrightarrow> x \<in> set (jobs d'))"

lemma only_row_upd:
  assumes "\<And>x. job_key (f x) = job_key x"
  shows "only_row i d (d\<lparr>jobs := upd_rows (\<lambda>x. j_id x = i) f (jobs d)\<rparr>)"
  using assms by (auto simp: only_row_def map_upd_rows intro: in_upd_rows_kept)

lemma only_row_fail: "only_row i d (fail_job now i msg d)"
  by (auto simp: fail_job_def mark_failed_def job_key_def split: option.split
      intro: only_row_upd only_row_upd [OF job_key_kept(2)])
    (simp add: only_row_def)

lemma only_row_run: "only_row (j_id j) d (run_job now known j outcome d)"
  by (auto simp: run_job_def mark_failed_def job_done_def only_row_upd only_row_fail job_key_def
      split: job_payload.split option.split)

lemma enqueue_rows:
  assumes "runs (enqueue q jid kind key payload) d i d'"
  shows "i = jid \<and> jobs d' = jobs d @ [new_job q jid kind (nullif_empty key) payload] \<and>
    jid \<notin> j_id ` set (jobs d) \<and> \<not> (\<exists>j \<in> set (jobs d). same_job kind (nullif_empty key) j)"
  using assms by (auto simp: enqueue_def txn_run split: if_splits)

lemma holds_lease_kept:
  assumes "holds_lease d r" "\<And>x. x \<in> set (jobs d) \<Longrightarrow> j_id x = j_id (fst r) \<Longrightarrow>
    j_state x = Running \<Longrightarrow> j_lease x = Some (snd r + lease_duration) \<Longrightarrow> x \<in> set (jobs d')"
  shows "holds_lease d' r"
  using assms unfolding holds_lease_def by blast

lemma only_row_lease:
  "only_row i d d' \<Longrightarrow> j_id (fst r) \<noteq> i \<Longrightarrow> holds_lease d r \<Longrightarrow> holds_lease d' r"
  unfolding only_row_def holds_lease_def by metis

lemma one_lease_claim:
  assumes inv: "one_lease w" and c: "claim (w_now w) (w_db w) = (Inr j, d')"
  shows "one_lease (w\<lparr>w_db := d', w_runs := (j, w_now w) # w_runs w\<rparr>)"
proof -
  from c obtain r where r: "r \<in> set (jobs (w_db w))" "due (w_now w) r" "j = claimed (w_now w) r"
    and d': "d' = (w_db w)\<lparr>jobs := upd_rows (\<lambda>x. j_id x = j_id r) (claimed (w_now w)) (jobs (w_db w))\<rparr>"
    by (rule claim_InrE)
  have other: "j_id (fst s) \<noteq> j_id r" if "s \<in> set (w_runs w)" for s
  proof
    assume eq: "j_id (fst s) = j_id r"
    from inv that obtain x where "x \<in> set (jobs (w_db w))" "j_id x = j_id (fst s)" "j_state x = Running"
      unfolding one_lease_def holds_lease_def by blast
    moreover from inv have "distinct (map j_id (jobs (w_db w)))" by (simp add: one_lease_def)
    ultimately have "x = r" using r(1) eq by (auto dest: key_unique)
    with \<open>j_state x = Running\<close> r(2) show False by (simp add: due_def)
  qed
  have "holds_lease d' s" if "s \<in> set (w_runs w)" for s
    using inv that other [OF that] unfolding one_lease_def d'
    by (auto intro!: in_upd_rows_kept elim!: holds_lease_kept dest!: bspec)
  moreover have "holds_lease d' (j, w_now w)"
    unfolding holds_lease_def d' r(3)
    by (rule bexI [of _ "claimed (w_now w) r"]) (auto intro: in_upd_rows_changed r(1))
  moreover have "map j_id (jobs d') = map j_id (jobs (w_db w))"
    unfolding d' by (simp add: map_upd_rows)
  moreover have "j_id (fst s) \<noteq> j_id j" if "s \<in> set (w_runs w)" for s
    using other [OF that] r(3) by simp
  ultimately show ?thesis using inv
    by (fastforce simp: one_lease_def run_limit_def job_timeout_def state_timeout_def)
qed

lemma one_lease_finish:
  assumes inv: "one_lease w" and jc: "(j, c) \<in> set (w_runs w)"
  shows "one_lease (w\<lparr>w_db := run_job (w_now w) known j outcome (w_db w),
                      w_runs := remove1 (j, c) (w_runs w)\<rparr>)"
proof -
  have only: "only_row (j_id j) (w_db w) (run_job (w_now w) known j outcome (w_db w))"
    by (rule only_row_run)
  from inv have dr: "distinct (map (\<lambda>r. j_id (fst r)) (w_runs w))" by (simp add: one_lease_def)
  then have dw: "distinct (w_runs w)" by (simp add: distinct_map)
  have "j_id (fst s) \<noteq> j_id j" if "s \<in> set (remove1 (j, c) (w_runs w))" for s
    using that dw key_unique [OF dr jc, of s] by auto
  then have "holds_lease (run_job (w_now w) known j outcome (w_db w)) s"
    if "s \<in> set (remove1 (j, c) (w_runs w))" for s
    using inv that dw only_row_lease [OF only] by (auto simp: one_lease_def)
  moreover have "distinct (map (\<lambda>r. j_id (fst r)) (remove1 (j, c) (w_runs w)))"
    using dr dw by (simp add: distinct_map inj_on_def)
  ultimately show ?thesis using inv dw only by (auto simp: one_lease_def only_row_def dest: job_keys_ids)
qed

lemma one_lease_sweep:
  assumes inv: "one_lease w"
  shows "one_lease (w\<lparr>w_db := requeue_expired (w_now w) (w_db w)\<rparr>)"
proof -
  have "holds_lease (requeue_expired (w_now w) (w_db w)) s" if "s \<in> set (w_runs w)" for s
  proof -
    have "w_now w \<le> snd s + run_limit" "holds_lease (w_db w) s"
      using inv that by (auto simp: one_lease_def)
    then show ?thesis using run_limit_lease
      by (auto elim!: holds_lease_kept intro!: in_upd_rows_kept simp: requeue_expired_def lease_expired_def)
  qed
  with inv show ?thesis by (auto simp: one_lease_def requeue_expired_def map_upd_rows)
qed

lemma one_lease_step:
  assumes "one_lease w" "wstep known w w'"
  shows "one_lease w'"
  using assms(2)
proof cases
  case (ws_tick t)
  then show ?thesis using assms(1) by (auto simp: one_lease_def)
next
  case (ws_enqueue q jid kind key payload i d')
  then show ?thesis using assms(1) enqueue_rows [OF ws_enqueue(3)]
    by (auto simp: one_lease_def holds_lease_def)
next
  case (ws_other d')
  then show ?thesis using assms(1) by (auto simp: one_lease_def holds_lease_def)
next
  case (ws_crash j c)
  then show ?thesis using assms(1)
    by (auto simp: one_lease_def distinct_map inj_on_def dest: notin_set_remove1)
qed (use assms(1) in \<open>simp_all add: one_lease_claim one_lease_finish one_lease_sweep\<close>)

interpretation leases: invariant_system wstart "wstep known" one_lease
  by unfold_locales (simp add: wstart_def one_lease_def, rule one_lease_step)

section \<open>Outcomes that stay\<close>

lemma finished_step:
  assumes inv: "one_lease u" and st: "wstep known u v"
    and r: "r \<in> set (jobs (w_db u)) \<and> j_state r \<in> {Done, Failed}"
  shows "r \<in> set (jobs (w_db v)) \<and> j_state r \<in> {Done, Failed}"
  using st
proof cases
  case (ws_enqueue q jid kind key payload i d')
  then show ?thesis using r enqueue_rows [OF ws_enqueue(3)] by auto
next
  case (ws_claim j d')
  from ws_claim(2) obtain x where x: "x \<in> set (jobs (w_db u))" "due (w_now u) x"
    "d' = (w_db u)\<lparr>jobs := upd_rows (\<lambda>y. j_id y = j_id x) (claimed (w_now u)) (jobs (w_db u))\<rparr>"
    by (rule claim_InrE)
  have "j_id r \<noteq> j_id x"
    using inv r x(1,2) by (auto simp: one_lease_def due_def dest: key_unique)
  then show ?thesis using r x(3) ws_claim by (auto intro: in_upd_rows_kept)
next
  case (ws_finish j c outcome)
  have "holds_lease (w_db u) (j, c)" "distinct (map j_id (jobs (w_db u)))"
    using inv ws_finish(2) by (auto simp: one_lease_def)
  then have "j_id r \<noteq> j_id j" using r by (auto simp: holds_lease_def dest: key_unique)
  then show ?thesis using r ws_finish only_row_run [of j "w_db u"]
    by (auto simp: only_row_def)
next
  case ws_sweep
  then show ?thesis using r by (auto simp: requeue_expired_def lease_expired_def intro: in_upd_rows_kept)
qed (use r in auto)

text \<open>No row leaves the table, none changes its kind or key, and a new row brings a fresh key.\<close>

lemma keys_grow:
  assumes "wstep known u v"
  obtains new where "map job_key (jobs (w_db v)) = map job_key (jobs (w_db u)) @ new"
    "\<And>i k x. (i, k, Some x) \<in> set new \<Longrightarrow> (k, Some x) \<notin> (\<lambda>j. (j_kind j, j_dedupe j)) ` set (jobs (w_db u))"
    "length new \<le> 1"
proof -
  note ex = that
  have same: ?thesis if "map job_key (jobs (w_db v)) = map job_key (jobs (w_db u))"
    using that by (intro ex [of "[]"]) auto
  from assms show ?thesis
  proof cases
    case (ws_enqueue q jid kind key payload i d')
    note e = enqueue_rows [OF ws_enqueue(3)]
    show ?thesis
    proof (rule that [of "[(jid, kind, nullif_empty key)]"])
      show "map job_key (jobs (w_db v)) = map job_key (jobs (w_db u)) @ [(jid, kind, nullif_empty key)]"
        using e ws_enqueue(1) by (simp add: job_key_def new_job_def)
      show "(k, Some x) \<notin> (\<lambda>j. (j_kind j, j_dedupe j)) ` set (jobs (w_db u))"
        if "(i, k, Some x) \<in> set [(jid, kind, nullif_empty key)]" for i k x
        using e that by (auto simp: same_job_def)
    qed simp
  next
    case (ws_claim j d')
    then show ?thesis by (intro same) (auto elim!: claim_InrE simp: map_upd_rows)
  next
    case (ws_finish j c outcome)
    then show ?thesis
      using only_row_run [of j "w_db u"] by (intro same) (simp add: only_row_def)
  next
    case ws_sweep
    then show ?thesis by (intro same) (simp add: requeue_expired_def map_upd_rows)
  qed (auto intro: same)
qed

lemma enqueue_taken:
  assumes "j \<in> set (jobs d)" "j_kind j = kind" "j_dedupe j = Some key" "key \<noteq> []" "\<not> tx_ro q"
  shows "enqueue q jid kind key payload \<lparr>t_db = d, t_aborted = False\<rparr> =
    (Inl ErrDuplicate, \<lparr>t_db = d, t_aborted = False\<rparr>)"
proof -
  have "\<exists>j \<in> set (jobs d). same_job kind (nullif_empty key) j"
    using assms by (auto simp: same_job_def nullif_empty_def)
  then show ?thesis using assms(5) by (simp add: enqueue_def and_then_def)
qed

text \<open>While its run is in flight, nothing else changes the row of a job.\<close>

lemma row_in_flight_kept:
  assumes inv: "one_lease u" and st: "wstep known u v"
    and r: "r \<in> set (w_runs u)" "r \<in> set (w_runs v)"
    and x: "x \<in> set (jobs (w_db u))" "j_id x = j_id (fst r)"
  shows "x \<in> set (jobs (w_db v))"
proof -
  obtain y where "y \<in> set (jobs (w_db u))" "j_id y = j_id (fst r)" "j_state y = Running"
    "j_lease y = Some (snd r + lease_duration)"
    using inv r(1) unfolding one_lease_def holds_lease_def by blast
  moreover from inv have d: "distinct (map j_id (jobs (w_db u)))" by (simp add: one_lease_def)
  ultimately have row: "j_state x = Running" "j_lease x = Some (snd r + lease_duration)"
    using x by (auto dest: key_unique)
  show ?thesis using st
  proof cases
    case (ws_enqueue q jid kind key payload i d')
    then show ?thesis using x enqueue_rows [OF ws_enqueue(3)] by auto
  next
    case (ws_claim j d')
    from ws_claim(2) obtain y where y: "y \<in> set (jobs (w_db u))" "due (w_now u) y"
      "d' = (w_db u)\<lparr>jobs := upd_rows (\<lambda>z. j_id z = j_id y) (claimed (w_now u)) (jobs (w_db u))\<rparr>"
      by (rule claim_InrE)
    then have "j_id x \<noteq> j_id y" using key_unique [OF d x(1) y(1)] row(1) by (auto simp: due_def)
    then show ?thesis using x y(3) ws_claim(1) by (simp add: in_upd_rows_kept)
  next
    case (ws_finish j c outcome)
    have dr: "distinct (map (\<lambda>r. j_id (fst r)) (w_runs u))" using inv by (simp add: one_lease_def)
    then have "r \<noteq> (j, c)" using r(2) ws_finish(1) by (auto simp: distinct_map)
    then have "j_id x \<noteq> j_id j" using key_unique [OF dr r(1) ws_finish(2)] x(2) by auto
    then show ?thesis using x ws_finish(1) only_row_run [of j "w_db u"] by (auto simp: only_row_def)
  next
    case ws_sweep
    moreover have "w_now u \<le> snd r + run_limit" using inv r(1) by (simp add: one_lease_def)
    ultimately show ?thesis using x row run_limit_lease
      by (auto simp: requeue_expired_def lease_expired_def intro!: in_upd_rows_kept)
  qed (use x in auto)
qed

section \<open>Properties\<close>


text \<open>
  The outcome of a job is final: once its row is Done or Failed, no enqueue, claim, finishing run,
  crash or sweep changes the row again.
\<close>

theorem outcome_final:
  assumes "reachable wstart (wstep known) w" "(wstep known)\<^sup>*\<^sup>* w w'"
    and "r \<in> set (jobs (w_db w))" "j_state r \<in> {Done, Failed}"
  shows "r \<in> set (jobs (w_db w'))"
proof -
  have "r \<in> set (jobs (w_db w')) \<and> j_state r \<in> {Done, Failed}"
    using assms(2,1) by (rule leases.kept_along) (use assms in \<open>auto dest: finished_step\<close>)
  then show ?thesis ..
qed

text \<open>
  A dedupe key is spent for good: after a job of a kind and a non-empty key was enqueued, whatever
  the queue does to it later (it may be Done), every further enqueue of that kind and key is
  ErrDuplicate, writes nothing and leaves the transaction usable.
\<close>

theorem dedupe_forever:
  assumes "j \<in> set (jobs (w_db w))" "j_dedupe j = Some key" "key \<noteq> []"
    and "(wstep known)\<^sup>*\<^sup>* w w'" "\<not> tx_ro q"
  shows "enqueue q jid (j_kind j) key payload \<lparr>t_db = w_db w', t_aborted = False\<rparr> =
    (Inl ErrDuplicate, \<lparr>t_db = w_db w', t_aborted = False\<rparr>)"
proof -
  from assms(4) have "job_key j \<in> set (map job_key (jobs (w_db w')))"
  proof (induction rule: rtranclp_induct)
    case base
    then show ?case using assms(1) by simp
  next
    case (step u v)
    from step(2) obtain new where "map job_key (jobs (w_db v)) = map job_key (jobs (w_db u)) @ new"
      by (rule keys_grow)
    then show ?case using step(3) by (metis Un_iff set_append)
  qed
  then obtain j' where "j' \<in> set (jobs (w_db w'))" "job_key j' = job_key j" by auto
  then show ?thesis using assms by (intro enqueue_taken [of j']) (auto simp: job_key_def)
qed

text \<open>
  A claim takes an earliest due job and only that one: when some job is queued and due, claim
  succeeds, the job it returns was due with the least run_after of all due jobs, its row becomes
  Running with one more attempt and a lease of 180 seconds, and no other row changes.
\<close>

theorem claim_earliest:
  assumes "\<exists>j \<in> set (jobs d). due now j"
  shows "\<exists>r \<in> set (jobs d). due now r \<and> (\<forall>x \<in> set (jobs d). due now x \<longrightarrow> j_run_after r \<le> j_run_after x) \<and>
    claim now d = (Inr (r\<lparr>j_state := Running, j_attempts := j_attempts r + 1,
                          j_lease := Some (now + lease_duration), j_updated := now\<rparr>),
      d\<lparr>jobs := upd_rows (\<lambda>x. j_id x = j_id r) (claimed now) (jobs d)\<rparr>)"
proof -
  from assms claim_NoJob_iff [of now d] obtain j d' where c: "claim now d = (Inr j, d')"
    by (auto simp: claim_def split: list.splits)
  then show ?thesis by (rule claim_InrE) (use c in \<open>auto simp: claimed_def\<close>)
qed

text \<open>
  The retry budget: when the handler of a registered kind fails, the job is requeued for
  2 ^ (attempts - 1) seconds later, without a lease, on its attempts 1 to 4, and on attempt 5 it is
  Failed with the handler's error.
\<close>

theorem retry_schedule:
  assumes "find (\<lambda>x. j_id x = j_id j) (jobs d) = Some x" "1 \<le> j_attempts x"
    and "j_payload j = JobPayload t dat" "known (j_kind j)"
  shows "run_job now known j (Some msg) d =
    d\<lparr>jobs := upd_rows (\<lambda>r. j_id r = j_id j)
       (\<lambda>r. if j_attempts x < 5
             then r\<lparr>j_state := Queued, j_run_after := now + second * 2 ^ nat (j_attempts x - 1),
                    j_lease := None, j_updated := now\<rparr>
             else r\<lparr>j_state := Failed, j_last_err := Some msg, j_updated := now\<rparr>) (jobs d)\<rparr>"
proof (cases "j_attempts x < 5")
  case True
  with assms(2) have "j_attempts x \<in> {1, 2, 3, 4}" by auto
  then have "compute_backoff (j_attempts x) = second * 2 ^ nat (j_attempts x - 1)"
    by (auto simp: compute_backoff_def max_backoff_def)
  with True assms show ?thesis
    by (simp add: run_job_def fail_job_def max_attempts_def requeued_def [abs_def])
qed (use assms in \<open>simp add: run_job_def fail_job_def mark_failed_def max_attempts_def\<close>)

section \<open>A run of the queue\<close>

definition sample_tx :: tx where
  "sample_tx = \<lparr>tx_tenant = None, tx_platform = False, tx_ro = False, tx_now = 0, tx_lower = id\<rparr>"

definition sample_job :: job where
  "sample_job = new_job sample_tx 7 ''purge'' (Some ''k'') (JobPayload 1 (OtherData JNull))"

definition sample_start :: wstate where
  "sample_start = \<lparr>w_db = empty_db, w_now = 0, w_runs = []\<rparr>"

definition sample_queued :: wstate where
  "sample_queued = sample_start\<lparr>w_db := empty_db\<lparr>jobs := [sample_job]\<rparr>\<rparr>"

definition sample_claimed :: wstate where
  "sample_claimed = \<lparr>w_db = empty_db\<lparr>jobs := [claimed 0 sample_job]\<rparr>, w_now = 0,
     w_runs = [(claimed 0 sample_job, 0)]\<rparr>"

definition sample_done :: wstate where
  "sample_done = \<lparr>w_db = empty_db\<lparr>jobs := [(claimed 0 sample_job)\<lparr>j_state := Done\<rparr>]\<rparr>, w_now = 0,
     w_runs = []\<rparr>"

definition sample_swept :: wstate where
  "sample_swept = sample_done\<lparr>w_db := requeue_expired 0 (w_db sample_done)\<rparr>"

lemmas sample_defs = sample_tx_def sample_job_def sample_start_def sample_queued_def sample_claimed_def
  sample_done_def empty_db_def new_job_def claimed_def

lemma sample_steps:
  "wstep (\<lambda>k. True) sample_start sample_queued"
  "wstep (\<lambda>k. True) sample_queued sample_claimed"
  "wstep (\<lambda>k. True) sample_claimed sample_done"
proof -
  have "runs (enqueue sample_tx 7 ''purge'' ''k'' (JobPayload 1 (OtherData JNull)))
      (w_db sample_start) 7 (empty_db\<lparr>jobs := [sample_job]\<rparr>)"
    by (auto simp: enqueue_def txn_run sample_defs nullif_empty_def)
  from ws_enqueue [OF _ this] show "wstep (\<lambda>k. True) sample_start sample_queued"
    by (simp add: sample_queued_def) (simp add: sample_defs)
next
  have "claim (w_now sample_queued) (w_db sample_queued) =
      (Inr (claimed 0 sample_job), empty_db\<lparr>jobs := [claimed 0 sample_job]\<rparr>)"
    by (simp add: claim_def due_def sample_defs)
  from ws_claim [OF this] show "wstep (\<lambda>k. True) sample_queued sample_claimed"
    by (simp add: sample_defs)
next
  have "(claimed 0 sample_job, 0) \<in> set (w_runs sample_claimed)" by (simp add: sample_claimed_def)
  from ws_finish [OF this, of "\<lambda>k. True" None] show "wstep (\<lambda>k. True) sample_claimed sample_done"
    by (simp add: sample_defs run_job_def job_done_def)
qed

lemma sample_reachable:
  "reachable wstart (wstep (\<lambda>k. True)) sample_claimed" "reachable wstart (wstep (\<lambda>k. True)) sample_done"
proof -
  have "wstart sample_start" by (simp add: wstart_def sample_start_def empty_db_def)
  then show "reachable wstart (wstep (\<lambda>k. True)) sample_claimed"
    using sample_steps by (meson reach_start reach_step)
  then show "reachable wstart (wstep (\<lambda>k. True)) sample_done"
    using sample_steps by (meson reach_step)
qed


theorem outcome_final_witness:
  "(claimed 0 sample_job)\<lparr>j_state := Done\<rparr> \<in> set (jobs (w_db sample_swept))"
proof -
  have "w_now sample_done = 0" by (simp add: sample_done_def)
  then have "wstep (\<lambda>k. True) sample_done sample_swept"
    unfolding sample_swept_def by (metis ws_sweep)
  then have "(wstep (\<lambda>k. True))\<^sup>*\<^sup>* sample_done sample_swept" by blast
  moreover have "(claimed 0 sample_job)\<lparr>j_state := Done\<rparr> \<in> set (jobs (w_db sample_done))"
    "j_state ((claimed 0 sample_job)\<lparr>j_state := Done\<rparr>) \<in> {Done, Failed}"
    by (simp_all add: sample_done_def)
  ultimately show ?thesis by (rule outcome_final [OF sample_reachable(2)])
qed

theorem dedupe_forever_witness:
  "enqueue sample_tx 8 ''purge'' ''k'' (BadPayload []) \<lparr>t_db = w_db sample_done, t_aborted = False\<rparr> =
     (Inl ErrDuplicate, \<lparr>t_db = w_db sample_done, t_aborted = False\<rparr>)"
proof -
  have "(wstep (\<lambda>k. True))\<^sup>*\<^sup>* sample_queued sample_done"
    using sample_steps(2,3) by (meson r_into_rtranclp rtranclp.rtrancl_into_rtrancl)
  moreover have "sample_job \<in> set (jobs (w_db sample_queued))" "\<not> tx_ro sample_tx"
    "j_dedupe sample_job = Some ''k''" "j_kind sample_job = ''purge''"
    by (simp_all add: sample_queued_def sample_job_def new_job_def sample_tx_def)
  ultimately show ?thesis
    using dedupe_forever [of sample_job sample_queued "''k''" _ sample_done sample_tx] by fastforce
qed

theorem claim_earliest_witness:
  "claim 0 (w_db sample_queued) =
     (Inr (claimed 0 sample_job), (w_db sample_queued)\<lparr>jobs := [claimed 0 sample_job]\<rparr>)"
  using claim_earliest [of "w_db sample_queued" 0] by (simp add: due_def sample_defs)

theorem retry_schedule_witness:
  "jobs (run_job 50 (\<lambda>k. True) (claimed 0 sample_job) (Some ''e'') (w_db sample_claimed)) =
     [(claimed 0 sample_job)\<lparr>j_state := Queued, j_run_after := 50 + second, j_lease := None,
        j_updated := 50\<rparr>]"
  using retry_schedule [of "claimed 0 sample_job" "w_db sample_claimed" "claimed 0 sample_job" 1
      "OtherData JNull" "\<lambda>k. True" 50 "''e''"]
  by (simp add: sample_defs)

end
