(* ===== verification/Sanitize.thy ===== *)
theory Sanitize
  imports Env
begin

text \<open>
  internal/posts/renderer.go: markdown is converted by goldmark, the HTML is parsed, filtered
  against an allow-list of elements, attributes, URLs and styles, and rendered again. Goldmark and
  golang.org/x/net/html are parameters; the filter between them is defined here.
\<close>

section \<open>Character classes\<close>

definition is_alnum :: "char \<Rightarrow> bool" where
  "is_alnum c = (is_lower c \<or> is_upper c \<or> is_digit c)"

text \<open>\<open>^[0-9]+$\<close> and \<open>^[a-zA-Z0-9 _-]+$\<close>: without the flag m, \<open>$\<close> is the end of the text.\<close>

definition digits_ok :: "string \<Rightarrow> bool" where
  "digits_ok s = (s \<noteq> [] \<and> list_all is_digit s)"

definition class_ok :: "string \<Rightarrow> bool" where
  "class_ok s = (s \<noteq> [] \<and> length s \<le> 256 \<and>
     list_all (\<lambda>c. is_alnum c \<or> c \<in> set '' _-'') s)"

section \<open>Styles\<close>

text \<open>\<open>\s\<close> of RE2: tab, newline, form feed, carriage return and space.\<close>

definition re_space :: "char \<Rightarrow> bool" where
  "re_space c = (of_char c \<in> {9, 10, 12, 13, 32 :: nat})"

definition value_char :: "char \<Rightarrow> bool" where
  "value_char c = (is_alnum c \<or> c \<in> set '' #.%+-'')"

text \<open>
  \<open>\s*[a-zA-Z0-9 #.%+-]+$\<close>: the value starts after the spaces, or, when only spaces are left, it is
  a final blank.
\<close>

definition style_value :: "string \<Rightarrow> bool" where
  "style_value s =
     (let v = dropWhile re_space s
      in if v \<noteq> [] then list_all value_char v else s \<noteq> [] \<and> last s = CHR '' '')"

text \<open>\<open>^[a-z][a-z-]*\s*(:\s*[a-zA-Z0-9 #.%+-]+)?$\<close>\<close>

definition style_re :: "string \<Rightarrow> bool" where
  "style_re s =
     (s \<noteq> [] \<and> is_lower (hd s) \<and>
      (case dropWhile re_space (dropWhile (\<lambda>c. is_lower c \<or> c = CHR ''-'') s) of
         [] \<Rightarrow> True
       | c # r \<Rightarrow> c = CHR '':'' \<and> style_value r))"

definition style_props :: "string list" where
  "style_props = [''color'', ''background-color'', ''font-weight'', ''font-style'',
     ''text-decoration'', ''white-space'', ''user-select'', ''margin-right'', ''padding'',
     ''display'', ''tab-width'', ''border-spacing'', ''vertical-align'', ''margin'', ''border'',
     ''float'', ''clear'', ''text-align'']"

definition style_decl :: "string \<Rightarrow> bool" where
  "style_decl decl =
     (let d = trim_space decl
      in d = [] \<or>
         (style_re d \<and> trim_space (takeWhile (\<lambda>c. c \<noteq> CHR '':'') d) \<in> set style_props))"

definition safe_style :: "string \<Rightarrow> bool" where
  "safe_style s = (s \<noteq> [] \<and> length s \<le> 512 \<and> list_all style_decl (go_split s CHR '';''))"

section \<open>URLs\<close>

definition safe_link_url :: "env \<Rightarrow> string \<Rightarrow> bool" where
  "safe_link_url E u =
     (if u = [] \<or> trim_space u \<noteq> u then False
      else case e_url E u of
        None \<Rightarrow> False
      | Some p \<Rightarrow>
          (let scheme = lower_of E (u_scheme p)
           in if scheme \<in> {''http'', ''https'', ''mailto''} then True
              else if scheme = [] then u_host p = [] \<and> \<not> has_prefix u ''//''
              else False))"

definition safe_image_url :: "env \<Rightarrow> string \<Rightarrow> bool" where
  "safe_image_url E u =
     (if u = [] \<or> trim_space u \<noteq> u then False
      else case e_url E u of
        None \<Rightarrow> False
      | Some p \<Rightarrow>
          (let scheme = lower_of E (u_scheme p)
           in (scheme = ''http'' \<or> scheme = ''https'') \<and> u_host p \<noteq> []))"

text \<open>\<open>imgHosts\<close>: \<open>None\<close> is nil, any host; a list is an exact allow-list.\<close>

definition image_host_allowed :: "env \<Rightarrow> string list option \<Rightarrow> string \<Rightarrow> bool" where
  "image_host_allowed E hosts u =
     (case hosts of
        None \<Rightarrow> True
      | Some hs \<Rightarrow>
          (case e_url E u of
             None \<Rightarrow> False
           | Some p \<Rightarrow> (let host = lower_of E (u_host p) in \<exists>h \<in> set hs. host = lower_of E h)))"

text \<open>
  \<open>strings.EqualFold(key, "src")\<close>: Unicode folds the long s, the bytes C5 BF, to the letter s.
\<close>

definition src_folds :: "string list" where
  "src_folds = concat (map (\<lambda>s. concat (map (\<lambda>r. map (\<lambda>c. s @ r @ c) [''c'', ''C'']) [''r'', ''R'']))
     [''s'', ''S'', [CHR 0xC5, CHR 0xBF]])"

definition fold_src :: "string \<Rightarrow> bool" where
  "fold_src key = (key \<in> set src_folds)"

fun img_src_allowed :: "env \<Rightarrow> string list option \<Rightarrow> (string \<times> string) list \<Rightarrow> bool" where
  "img_src_allowed E hosts [] = False"
| "img_src_allowed E hosts ((k, v) # attrs) =
     (if fold_src k then safe_image_url E v \<and> image_host_allowed E hosts v
      else img_src_allowed E hosts attrs)"

section \<open>Elements and attributes\<close>

definition allowed_tags :: "string list" where
  "allowed_tags =
     [''h1'', ''h2'', ''h3'', ''h4'', ''h5'', ''h6'', ''p'', ''br'', ''hr'', ''blockquote'',
      ''ul'', ''ol'', ''li'', ''strong'', ''em'', ''del'', ''s'', ''b'', ''i'', ''sub'', ''sup'',
      ''a'', ''img'', ''pre'', ''code'', ''span'', ''div'', ''table'', ''thead'', ''tbody'',
      ''tfoot'', ''tr'', ''th'', ''td'', ''input'']"

definition dangerous_tags :: "string list" where
  "dangerous_tags =
     [''script'', ''style'', ''iframe'', ''frame'', ''frameset'', ''object'', ''embed'', ''applet'',
      ''param'', ''form'', ''button'', ''select'', ''option'', ''textarea'', ''template'',
      ''noscript'', ''link'', ''meta'', ''base'', ''svg'', ''math'', ''video'', ''audio'',
      ''source'', ''track'', ''canvas'']"

definition allowed_attr :: "env \<Rightarrow> string \<Rightarrow> string \<Rightarrow> string \<Rightarrow> bool" where
  "allowed_attr E tag key0 val =
     (let key = lower_of E key0
      in if tag = ''a'' then
           (if key = ''href'' then safe_link_url E val else key = ''title'')
         else if tag = ''img'' then
           (if key = ''src'' then safe_image_url E val
            else if key = ''alt'' \<or> key = ''title'' then True
            else if key = ''width'' \<or> key = ''height'' then digits_ok val
            else False)
         else if tag = ''pre'' then
           (if key = ''style'' then safe_style val
            else if key = ''tabindex'' then digits_ok val
            else if key = ''class'' then class_ok val
            else False)
         else if tag = ''code'' \<or> tag = ''span'' \<or> tag = ''div'' then
           (if key = ''class'' then class_ok val
            else if key = ''style'' then safe_style val
            else False)
         else if tag = ''li'' then key = ''class'' \<and> class_ok val
         else if tag = ''th'' \<or> tag = ''td'' then
           (if key = ''align'' then val \<in> {''left'', ''center'', ''right'', ''justify'', ''char''}
            else if key = ''style'' then safe_style val
            else if key = ''rowspan'' \<or> key = ''colspan'' then digits_ok val
            else False)
         else if tag = ''input'' then
           (if key = ''type'' then val = ''checkbox''
            else key = ''checked'' \<or> key = ''disabled'')
         else False)"

text \<open>
  \<open>appendSanitized\<close>: the nodes that one node of the input appends to the parent. A dangerous
  element goes with its subtree, an unknown one is replaced by its children.
\<close>

fun append_sanitized :: "env \<Rightarrow> string list option \<Rightarrow> node \<Rightarrow> node list" where
  "append_sanitized E hosts (TextNode s) = [TextNode s]"
| "append_sanitized E hosts (OtherNode cs) = []"
| "append_sanitized E hosts (ElementNode tag attrs cs) =
     (if tag \<in> set dangerous_tags then []
      else if tag \<notin> set allowed_tags then concat (map (append_sanitized E hosts) cs)
      else if tag = ''img'' \<and> \<not> img_src_allowed E hosts attrs then []
      else [ElementNode tag (filter (\<lambda>(k, v). allowed_attr E tag k v) attrs)
              (concat (map (append_sanitized E hosts) cs))])"

section \<open>The pipeline\<close>

fun find_body :: "node \<Rightarrow> node option" and find_bodies :: "node list \<Rightarrow> node option" where
  "find_body (TextNode s) = None"
| "find_body (OtherNode cs) = find_bodies cs"
| "find_body (ElementNode tag attrs cs) =
     (if tag = ''body'' then Some (ElementNode tag attrs cs) else find_bodies cs)"
| "find_bodies [] = None"
| "find_bodies (n # ns) = (case find_body n of Some b \<Rightarrow> Some b | None \<Rightarrow> find_bodies ns)"

definition document_body :: "node \<Rightarrow> node" where
  "document_body doc = (case find_body doc of None \<Rightarrow> doc | Some b \<Rightarrow> b)"

fun children :: "node \<Rightarrow> node list" where
  "children (TextNode s) = []"
| "children (ElementNode tag attrs cs) = cs"
| "children (OtherNode cs) = cs"

definition sanitized_tree :: "env \<Rightarrow> string list option \<Rightarrow> node \<Rightarrow> node" where
  "sanitized_tree E hosts doc =
     ElementNode ''div'' [] (concat (map (append_sanitized E hosts) (children (document_body doc))))"

text \<open>
  The rendered \<open>div\<close> without its own tags: \<open>s[5 : len(s)-6]\<close>. Both failures give nil.
\<close>

definition sanitize :: "env \<Rightarrow> string list option \<Rightarrow> bytes \<Rightarrow> bytes" where
  "sanitize E hosts inp =
     (case e_html_parse E inp of
        None \<Rightarrow> []
      | Some doc \<Rightarrow>
          (case e_html_render E (sanitized_tree E hosts doc) of
             None \<Rightarrow> []
           | Some s \<Rightarrow> take (length s - 11) (drop 5 s)))"

definition render_gfm_hosts :: "env \<Rightarrow> bytes \<Rightarrow> string list option \<Rightarrow> error + bytes" where
  "render_gfm_hosts E md hosts =
     (case e_convert E md of
        None \<Rightarrow> Inl (ErrText ''posts: render'')
      | Some html \<Rightarrow> Inr (sanitize E hosts html))"

definition default_media_origin :: string where
  "default_media_origin = ''media.example.com''"

definition render_gfm :: "env \<Rightarrow> bytes \<Rightarrow> error + bytes" where
  "render_gfm E md = render_gfm_hosts E md (Some [default_media_origin])"

section \<open>What a style can contain\<close>

definition style_char :: "char \<Rightarrow> bool" where
  "style_char c = (is_alnum c \<or> c \<in> set ''-: #.%+;'' \<or> re_space c \<or>
     (\<exists>sp \<in> set all_spaces. c \<in> set sp))"

lemma set_takeWhileD2: "c \<in> set s \<Longrightarrow> c \<in> set (takeWhile P s) \<or> c \<in> set (dropWhile P s)"
  by (metis Un_iff set_append takeWhile_dropWhile_id)

lemma style_value_chars: "style_value s \<Longrightarrow> c \<in> set s \<Longrightarrow> value_char c \<or> re_space c"
  using set_takeWhileD2 [of c s re_space]
  by (auto simp: style_value_def Let_def list_all_iff dest: set_takeWhileD split: if_splits)

lemma style_re_chars:
  assumes "style_re d" "c \<in> set d"
  shows "style_char c"
proof -
  let ?name = "\<lambda>c. is_lower c \<or> c = CHR ''-''"
  let ?r = "dropWhile re_space (dropWhile ?name d)"
  have "?name c \<or> re_space c \<or> c \<in> set ?r"
    using set_takeWhileD2 [OF assms(2), of ?name]
      set_takeWhileD2 [of c "dropWhile ?name d" re_space] by (auto dest: set_takeWhileD)
  moreover have "style_char c" if "c \<in> set ?r"
  proof (cases ?r)
    case (Cons x r)
    then have "x = CHR '':''" "style_value r" using assms(1) by (auto simp: style_re_def)
    then show ?thesis using that Cons style_value_chars [of r c]
      by (auto simp: style_char_def value_char_def)
  qed (use that in \<open>metis empty_iff list.set(1)\<close>)
  ultimately show ?thesis by (auto simp: style_char_def is_alnum_def)
qed

lemma safe_style_chars:
  assumes "safe_style s" "c \<in> set s"
  shows "style_char c"
proof (cases "c = CHR '';''")
  case False
  then obtain d where d: "d \<in> set (go_split s CHR '';'')" "c \<in> set d"
    using split_at_covers [of c "[]" s "CHR '';''"] assms(2) by (auto simp: go_split_def)
  then have "style_decl d" using assms(1) by (auto simp: safe_style_def list_all_iff)
  then show ?thesis
    using trim_space_covers [OF d(2)] style_re_chars [of "trim_space d" c]
    by (auto simp: style_decl_def Let_def style_char_def)
qed (simp add: style_char_def)

text \<open>Parentheses, quotes, slashes, angle brackets and the like.\<close>

definition active_chars :: string where
  "active_chars = ''()/@<>!{}&='' @ [CHR 0x22, CHR 0x27, CHR 0x5C]"

lemma style_char_inert: "style_char c \<Longrightarrow> c \<notin> set active_chars"
proof -
  have "list_all (\<lambda>c. \<not> style_char c) active_chars"
    by (simp add: active_chars_def style_char_def is_alnum_def is_lower_def is_upper_def is_digit_def re_space_def
      all_spaces_def uni_spaces_def upt_rec char_of_def bit_0)
  then show "style_char c \<Longrightarrow> c \<notin> set active_chars"
    unfolding list_all_iff by blast
qed

section \<open>What the tree can contain\<close>

text \<open>The nodes of a tree, its root included.\<close>

fun nodes_of :: "node \<Rightarrow> node list" where
  "nodes_of (TextNode s) = [TextNode s]"
| "nodes_of (OtherNode cs) = OtherNode cs # concat (map nodes_of cs)"
| "nodes_of (ElementNode tag attrs cs) = ElementNode tag attrs cs # concat (map nodes_of cs)"

fun clean_node :: "env \<Rightarrow> node \<Rightarrow> bool" where
  "clean_node E (TextNode s) = True"
| "clean_node E (OtherNode cs) = False"
| "clean_node E (ElementNode tag attrs cs) =
     (tag \<in> set allowed_tags \<and> tag \<notin> set dangerous_tags \<and>
      list_all (\<lambda>(k, v). allowed_attr E tag k v) attrs)"

lemma clean_append: "m \<in> set (append_sanitized E hosts n) \<Longrightarrow> x \<in> set (nodes_of m) \<Longrightarrow> clean_node E x"
proof (induction E hosts n arbitrary: m x rule: append_sanitized.induct)
  case (3 E hosts tag attrs cs)
  then show ?case by (fastforce simp: list_all_iff split: if_splits)
qed auto

lemma clean_tree:
  assumes "x \<in> set (nodes_of (sanitized_tree E hosts doc))"
  shows "clean_node E x"
proof -
  have "''div'' \<in> set allowed_tags" "''div'' \<notin> set dangerous_tags"
    by (simp_all add: allowed_tags_def dangerous_tags_def)
  with assms show ?thesis by (auto simp: sanitized_tree_def dest: clean_append)
qed

text \<open>A URL that a browser fetches or follows without running script.\<close>

definition inert_url :: "env \<Rightarrow> string \<Rightarrow> bool" where
  "inert_url E u = (case e_url E u of
     None \<Rightarrow> False
   | Some p \<Rightarrow> lower_of E (u_scheme p) \<in> {''http'', ''https'', ''mailto''} \<or>
       lower_of E (u_scheme p) = [] \<and> u_host p = [] \<and> \<not> has_prefix u ''//'')"

lemma safe_urls_inert:
  "safe_link_url E u \<Longrightarrow> inert_url E u" "safe_image_url E u \<Longrightarrow> inert_url E u"
  by (auto simp: safe_link_url_def safe_image_url_def inert_url_def Let_def
      split: if_splits option.splits)

lemma attr_keys:
  assumes "allowed_attr E tag k v"
  shows "lower_of E k \<in> set [''href'', ''title'', ''src'', ''alt'', ''width'', ''height'', ''style'',
    ''tabindex'', ''class'', ''align'', ''rowspan'', ''colspan'', ''type'', ''checked'', ''disabled'']"
  using assms by (rule contrapos_pp) (simp add: allowed_attr_def Let_def)

lemma attr_no_handler: "allowed_attr E tag k v \<Longrightarrow> \<not> has_prefix (lower_of E k) ''on''"
  by (drule attr_keys) (auto simp: has_prefix_def)

lemma attr_href: "allowed_attr E tag k v \<Longrightarrow> lower_of E k = ''href'' \<Longrightarrow> safe_link_url E v"
  by (simp add: allowed_attr_def Let_def split: if_split_asm)

lemma attr_src: "allowed_attr E tag k v \<Longrightarrow> lower_of E k = ''src'' \<Longrightarrow> safe_image_url E v"
  by (simp add: allowed_attr_def Let_def split: if_split_asm)

lemma attr_style: "allowed_attr E tag k v \<Longrightarrow> lower_of E k = ''style'' \<Longrightarrow> safe_style v"
  by (simp add: allowed_attr_def Let_def split: if_split_asm)

lemma attr_inert:
  assumes "allowed_attr E tag k v"
  shows "\<not> has_prefix (lower_of E k) ''on'' \<and>
    (lower_of E k \<in> {''href'', ''src''} \<longrightarrow> inert_url E v) \<and>
    (lower_of E k = ''style'' \<longrightarrow> (\<forall>c \<in> set v. c \<notin> set active_chars))"
  using attr_no_handler [OF assms] attr_href [OF assms] attr_src [OF assms] attr_style [OF assms]
    safe_urls_inert [of E v] safe_style_chars [of v] style_char_inert by blast

section \<open>A second pass changes nothing\<close>

text \<open>Every attribute name of the tree that folds to src is spelled with ASCII letters.\<close>

definition plain_keys :: "(string \<times> string) list \<Rightarrow> bool" where
  "plain_keys attrs = list_all (\<lambda>(k, v). fold_src k \<longrightarrow> list_all is_ascii k) attrs"

fun plain_node :: "node \<Rightarrow> bool" where
  "plain_node (TextNode s) = True"
| "plain_node (OtherNode cs) = list_all plain_node cs"
| "plain_node (ElementNode tag attrs cs) = (plain_keys attrs \<and> list_all plain_node cs)"

lemma fold_src_ascii:
  assumes "fold_src k" "list_all is_ascii k"
  shows "lower_of E k = ''src''"
proof -
  have "list_all (\<lambda>k. list_all is_ascii k \<longrightarrow> map lower_byte k = ''src'') src_folds"
    by code_simp
  with assms show ?thesis by (auto simp: fold_src_def list_all_iff to_lower_def)
qed

lemma img_src_filter:
  assumes "plain_keys attrs" "img_src_allowed E hosts attrs"
  shows "img_src_allowed E hosts (filter (\<lambda>(k, v). allowed_attr E ''img'' k v) attrs)"
  using assms
proof (induction attrs)
  case (Cons a attrs)
  obtain k v where a: "a = (k, v)" by (cases a)
  show ?case
  proof (cases "fold_src k")
    case True
    then have "lower_of E k = ''src''" using Cons.prems(1) a
      by (auto simp: plain_keys_def intro: fold_src_ascii)
    then have "allowed_attr E ''img'' k v"
      using Cons.prems(2) True a by (simp add: allowed_attr_def)
    then show ?thesis using Cons.prems(2) True a by simp
  next
    case False
    then show ?thesis using Cons a by (auto simp: plain_keys_def)
  qed
qed simp

lemma append_sanitized_fixed:
  "plain_node n \<Longrightarrow> m \<in> set (append_sanitized E hosts n) \<Longrightarrow> append_sanitized E hosts m = [m]"
proof (induction E hosts n arbitrary: m rule: append_sanitized.induct)
  case (3 E hosts tag attrs cs)
  have sub: "append_sanitized E hosts m = [m]"
    if "c \<in> set cs" "m \<in> set (append_sanitized E hosts c)"
      "tag \<notin> set dangerous_tags" "tag \<notin> set allowed_tags \<or> \<not> (tag = ''img'' \<and> \<not> img_src_allowed E hosts attrs)"
    for c m
  proof -
    have "plain_node c" using "3.prems"(1) that(1) by (simp add: list_all_iff)
    then show ?thesis using that "3.IH"(1) [of c m] "3.IH"(2) [of c m] by blast
  qed
  have flat: "concat (map (append_sanitized E hosts) ms) = ms"
    if "\<forall>m \<in> set ms. append_sanitized E hosts m = [m]" for ms
    using that by (induction ms) auto
  show ?case
  proof (cases "tag \<in> set dangerous_tags \<or> tag \<notin> set allowed_tags \<or> (tag = ''img'' \<and> \<not> img_src_allowed E hosts attrs)")
    case True
    then have "m \<in> set (concat (map (append_sanitized E hosts) cs))"
      "tag \<notin> set dangerous_tags" "tag \<notin> set allowed_tags"
      using "3.prems"(2) by (simp_all split: if_split_asm)
    then show ?thesis using sub by fastforce
  next
    case False
    then have m: "m = ElementNode tag (filter (\<lambda>(k, v). allowed_attr E tag k v) attrs)
        (concat (map (append_sanitized E hosts) cs))"
      using "3.prems"(2) by auto
    have "concat (map (append_sanitized E hosts) (concat (map (append_sanitized E hosts) cs))) =
        concat (map (append_sanitized E hosts) cs)"
      by (rule flat) (use sub False in auto)
    moreover have "tag = ''img'' \<longrightarrow>
        img_src_allowed E hosts (filter (\<lambda>(k, v). allowed_attr E tag k v) attrs)"
      using img_src_filter False "3.prems"(1) by auto
    ultimately show ?thesis using False unfolding m by (simp del: filter_filter)
  qed
qed auto

lemma concat_fixed:
  "(\<And>m. m \<in> set ms \<Longrightarrow> append_sanitized E hosts m = [m]) \<Longrightarrow> concat (map (append_sanitized E hosts) ms) = ms"
  by (induction ms) auto

lemma find_body_clean:
  "(\<forall>x \<in> set (nodes_of m). clean_node E x) \<Longrightarrow> find_body m = None"
  and find_bodies_clean: "(\<forall>m \<in> set ms. \<forall>x \<in> set (nodes_of m). clean_node E x) \<Longrightarrow> find_bodies ms = None"
  by (induction m and ms rule: find_body_find_bodies.induct) (auto simp: allowed_tags_def)

lemma body_of_sanitized: "document_body (sanitized_tree E hosts doc) = sanitized_tree E hosts doc"
  using find_body_clean [of "sanitized_tree E hosts doc" E] clean_tree
  by (auto simp: document_body_def split: option.split)

lemma plain_body: "plain_node n \<Longrightarrow> find_body n = Some b \<Longrightarrow> plain_node b"
  and "list_all plain_node ns \<Longrightarrow> find_bodies ns = Some b \<Longrightarrow> plain_node b"
  by (induction n and ns rule: find_body_find_bodies.induct) (auto split: if_splits option.splits)

lemma plain_children: "plain_node n \<Longrightarrow> c \<in> set (children (document_body n)) \<Longrightarrow> plain_node c"
  using plain_body [of n] by (cases "document_body n")
    (auto simp: document_body_def list_all_iff split: option.splits)

lemma img_in_output:
  "plain_node n \<Longrightarrow> m \<in> set (append_sanitized E hosts n) \<Longrightarrow> ElementNode ''img'' as ks \<in> set (nodes_of m) \<Longrightarrow>
     img_src_allowed E hosts as \<and> plain_keys as"
proof (induction E hosts n arbitrary: m rule: append_sanitized.induct)
  case (3 E hosts tag attrs cs)
  show ?case
  proof (cases "tag \<in> set allowed_tags \<and> m = ElementNode tag (filter (\<lambda>(k, v). allowed_attr E tag k v) attrs)
        (concat (map (append_sanitized E hosts) cs))")
    case False
    then have m: "m \<in> set (concat (map (append_sanitized E hosts) cs))"
      "tag \<notin> set dangerous_tags" "tag \<notin> set allowed_tags"
      using "3.prems"(2) by (simp_all split: if_split_asm)
    then show ?thesis using "3.IH"(1) "3.prems"(1,3) by (fastforce simp: list_all_iff)
  next
    case True
    then have t: "tag \<notin> set dangerous_tags" "\<not> (tag = ''img'' \<and> \<not> img_src_allowed E hosts attrs)"
      using "3.prems"(2) by (simp_all split: if_split_asm)
    from True "3.prems"(3) consider
        "tag = ''img''" "as = filter (\<lambda>(k, v). allowed_attr E tag k v) attrs"
      | c m' where "c \<in> set cs" "m' \<in> set (append_sanitized E hosts c)"
          "ElementNode ''img'' as ks \<in> set (nodes_of m')"
      by auto
    then show ?thesis
    proof cases
      case 1
      then show ?thesis using t(2) "3.prems"(1) img_src_filter [of attrs E hosts]
        by (auto simp: plain_keys_def list_all_iff)
    next
      case 2
      then show ?thesis using "3.IH"(2) t True "3.prems"(1) by (auto simp: list_all_iff)
    qed
  qed
qed auto

lemma img_src_split:
  assumes "plain_keys as" "img_src_allowed E hosts as"
  shows "\<exists>pre k v post. as = pre @ (k, v) # post \<and> (\<forall>a \<in> set pre. \<not> fold_src (fst a)) \<and>
    lower_of E k = ''src'' \<and> safe_image_url E v \<and> image_host_allowed E hosts v"
  using assms
proof (induction "as")
  case (Cons a as)
  obtain k v where a: "a = (k, v)" by (cases a)
  show ?case
  proof (cases "fold_src k")
    case True
    moreover have "lower_of E k = ''src''"
      using Cons.prems(1) True a by (auto simp: plain_keys_def intro: fold_src_ascii)
    ultimately show ?thesis using Cons.prems a
      by (intro exI [of _ "[]"] exI [of _ k] exI [of _ v] exI [of _ "as"]) auto
  next
    case False
    then obtain pre k' v' post where "as = pre @ (k', v') # post" "\<forall>a \<in> set pre. \<not> fold_src (fst a)"
      "lower_of E k' = ''src''" "safe_image_url E v'" "image_host_allowed E hosts v'"
      using Cons a by (auto simp: plain_keys_def)
    then show ?thesis using False a
      by (intro exI [of _ "a # pre"] exI [of _ k'] exI [of _ v'] exI [of _ post]) auto
  qed
qed simp

section \<open>Properties\<close>

text \<open>
  C8. No active content survives: every node of the sanitized tree is a text or an element of the
  allow-list and of no dangerous kind; no attribute of it is an event handler, every href and src is
  an http, https, mailto or same-origin relative URL, and no style contains a parenthesis, quote,
  slash, backslash or angle bracket.
\<close>

theorem no_active_content:
  assumes "n \<in> set (nodes_of (sanitized_tree E hosts doc))"
  shows "(\<exists>s. n = TextNode s) \<or>
    (\<exists>tag attrs cs. n = ElementNode tag attrs cs \<and> tag \<in> set allowed_tags \<and> tag \<notin> set dangerous_tags \<and>
       (\<forall>(k, v) \<in> set attrs. \<not> has_prefix (lower_of E k) ''on'' \<and>
          (lower_of E k \<in> {''href'', ''src''} \<longrightarrow> inert_url E v) \<and>
          (lower_of E k = ''style'' \<longrightarrow>
             (\<forall>c \<in> set v. c \<notin> set active_chars))))"
proof -
  have "clean_node E n" using assms by (rule clean_tree)
  then show ?thesis
    by (cases n) (simp_all add: list_all_iff, use attr_inert in fastforce)
qed


text \<open>
  The image host policy holds of the output: in a document whose attribute names that fold to src
  are ASCII, every image of the sanitized tree has a src attribute, its first, which is an absolute
  http or https URL on a host of the allow-list.
\<close>

theorem image_policy:
  assumes "plain_node doc" "ElementNode ''img'' attrs cs \<in> set (nodes_of (sanitized_tree E hosts doc))"
  shows "\<exists>pre k v post. attrs = pre @ (k, v) # post \<and> (\<forall>a \<in> set pre. \<not> fold_src (fst a)) \<and>
    lower_of E k = ''src'' \<and> safe_image_url E v \<and> image_host_allowed E hosts v"
proof -
  from assms(2) obtain c m where "c \<in> set (children (document_body doc))"
    "m \<in> set (append_sanitized E hosts c)" "ElementNode ''img'' attrs cs \<in> set (nodes_of m)"
    by (auto simp: sanitized_tree_def)
  with assms(1) have "img_src_allowed E hosts attrs \<and> plain_keys attrs"
    by (intro img_in_output [OF plain_children])
  then show ?thesis by (blast intro: img_src_split)
qed

definition long_src :: string where
  "long_src = [CHR 0xC5, CHR 0xBF] @ ''rc''"

lemma sample_urls:
  "e_url sample_env ''https://media.example.com/a.png'' =
     Some \<lparr>u_scheme = ''https'', u_host = ''media.example.com'', u_path = ''/a.png'', u_user = False\<rparr>"
  "e_url sample_env ''https://evil.example/a.png'' =
     Some \<lparr>u_scheme = ''https'', u_host = ''evil.example'', u_path = ''/a.png'', u_user = False\<rparr>"
  "safe_image_url sample_env ''https://media.example.com/a.png''"
  "safe_image_url sample_env ''https://evil.example/a.png''"
  "e_lower sample_env = id"
  by (simp_all add: sample_env_def has_prefix_def safe_image_url_def trim_space_visible visible_char_def
      to_lower_def is_ascii_def lower_byte_def is_upper_def)

text \<open>
  The host policy can be evaded: EqualFold takes the long s of Unicode for an s, so an image whose
  first attribute is a long-s spelling of src on an allowed host passes the check, and its real src
  on any other host is kept.
\<close>

theorem image_policy_evaded:
  "sanitized_tree sample_env (Some [default_media_origin])
     (OtherNode [ElementNode ''body'' []
        [ElementNode ''img'' [(long_src, ''https://media.example.com/a.png''),
                              (''src'', ''https://evil.example/a.png'')] []]]) =
   ElementNode ''div'' [] [ElementNode ''img'' [(''src'', ''https://evil.example/a.png'')] []] \<and>
   \<not> image_host_allowed sample_env (Some [default_media_origin]) ''https://evil.example/a.png''"
  by (simp add: sanitized_tree_def document_body_def allowed_tags_def dangerous_tags_def
      fold_src_def src_folds_def long_src_def sample_urls allowed_attr_def to_lower_def is_ascii_def
      lower_byte_def is_upper_def image_host_allowed_def default_media_origin_def)

definition sample_img :: node where
  "sample_img = ElementNode ''img'' [(''src'', ''https://media.example.com/a.png''), (''onclick'', ''x'')] []"

definition sample_doc :: node where
  "sample_doc = OtherNode [ElementNode ''body'' []
     [ElementNode ''script'' [] [TextNode ''x''], ElementNode ''font'' [] [sample_img]]]"

lemma sample_doc_sanitized:
  "sanitized_tree sample_env (Some [default_media_origin]) sample_doc =
     ElementNode ''div'' [] [ElementNode ''img'' [(''src'', ''https://media.example.com/a.png'')] []]"
  by (simp add: sanitized_tree_def document_body_def allowed_tags_def dangerous_tags_def
      fold_src_def src_folds_def sample_doc_def sample_img_def sample_urls allowed_attr_def to_lower_def
      is_ascii_def lower_byte_def is_upper_def image_host_allowed_def default_media_origin_def)

lemma sample_doc_plain: "plain_node sample_doc"
  by code_simp

theorem no_active_content_witness:
  "\<not> has_prefix (lower_of sample_env ''src'') ''on'' \<and> inert_url sample_env ''https://media.example.com/a.png''"
  using no_active_content [of "ElementNode ''img'' [(''src'', ''https://media.example.com/a.png'')] []"
      sample_env "Some [default_media_origin]" sample_doc]
  by (simp add: sample_doc_sanitized to_lower_def is_ascii_def lower_byte_def is_upper_def)


theorem image_policy_witness:
  "image_host_allowed sample_env (Some [default_media_origin]) ''https://media.example.com/a.png''"
  using image_policy [OF sample_doc_plain, of "[(''src'', ''https://media.example.com/a.png'')]" "[]"
      sample_env "Some [default_media_origin]"]
  by (auto simp: sample_doc_sanitized Cons_eq_append_conv)

end
