(* ===== verification/Posts.thy ===== *)
theory Posts
  imports Jobs Sanitize
begin

text \<open>
  internal/posts/service.go: the post lifecycle. Each operation is a function of the actor, its
  input and the database; the ids that \<open>uuid.New\<close> and the database mint are arguments.
\<close>

section \<open>Configuration and inputs\<close>

record posts_config =
  media_origin :: string

definition posts_new :: "posts_config \<Rightarrow> posts_config" where
  "posts_new cfg = (if media_origin cfg = [] then cfg\<lparr>media_origin := default_media_origin\<rparr> else cfg)"

record create_input =
  ci_title :: string
  ci_markdown :: string
  ci_slug :: string
  ci_excerpt :: string
  ci_metadata :: "json option"   \<comment> \<open>None: no bytes\<close>

record update_input =
  ui_title :: "string option"
  ui_markdown :: "string option"
  ui_slug :: "string option"
  ui_excerpt :: "string option"
  ui_metadata :: "json option option"

record list_filter =
  lf_status :: "string option"
  lf_author :: "uuid option"

section \<open>Slugs\<close>

text \<open>\<open>nonSlug.ReplaceAllString(s, "-")\<close>: every maximal run of other bytes becomes one hyphen.\<close>

function hyphenate :: "string \<Rightarrow> string" where
  "hyphenate [] = []"
| "hyphenate (c # cs) =
     (if slug_char c then c # hyphenate cs
      else CHR ''-'' # hyphenate (dropWhile (\<lambda>x. \<not> slug_char x) cs))"
  by pat_completeness auto
termination
  by (relation "measure length") (auto simp: le_imp_less_Suc length_dropWhile_le)

definition derive_slug :: "env \<Rightarrow> string \<Rightarrow> string" where
  "derive_slug E title =
     (let s = trim (hyphenate (lower_of E title)) ''-''
      in if s = [] then ''post''
         else let s' = (if length s > 63 then trim (take 63 s) ''-'' else s)
              in if s' = [] then ''post'' else s')"

text \<open>The loop of \<open>uniqueSlug\<close>: \<open>slug\<close> is tried, then base-2, base-3 and so on to base-10000.\<close>

function probe_slug :: "tx \<Rightarrow> uuid \<Rightarrow> string \<Rightarrow> string \<Rightarrow> nat \<Rightarrow> string txn" where
  "probe_slug q t base slug attempt =
     and_then (slug_exists q t slug) (\<lambda>taken.
       if \<not> taken then ret slug
       else if attempt > 10000 then fail ErrSlugTaken
       else probe_slug q t base (base @ ''-'' @ itoa attempt) (attempt + 1))"
  by pat_completeness auto
termination
  by (relation "measure (\<lambda>(q, t, base, slug, attempt). 10001 - attempt)") auto

declare probe_slug.simps [simp del]

definition unique_slug :: "env \<Rightarrow> tx \<Rightarrow> uuid \<Rightarrow> string \<Rightarrow> string txn" where
  "unique_slug E q t desired =
     (let base = derive_slug E desired in probe_slug q t base base 2)"

section \<open>Rendering and purging\<close>

definition metadata_allows_external_images :: "json option \<Rightarrow> bool" where
  "metadata_allows_external_images meta =
     (case meta of
        Some (JObj kvs) \<Rightarrow> obj_get kvs ''allow_external_images'' = Some (JBool True)
      | _ \<Rightarrow> False)"

definition render :: "env \<Rightarrow> posts_config \<Rightarrow> string \<Rightarrow> json option \<Rightarrow> error + bytes" where
  "render E cfg md meta =
     render_gfm_hosts E md
       (if metadata_allows_external_images meta then None else Some [media_origin cfg])"

definition purge_job_kind :: string where
  "purge_job_kind = ''purge''"

definition purge :: "tx \<Rightarrow> uuid \<Rightarrow> uuid \<Rightarrow> post \<Rightarrow> unit txn" where
  "purge q jid t p =
     and_then (bump_content_version q t) (\<lambda>version.
       handle
         (and_then
            (enqueue q jid purge_job_kind (uuid_string t)
               (JobPayload t (PurgeData t (Some (p_id p)) (Some version) [''/''])))
            (\<lambda>_. ret ()))
         (\<lambda>e. if errors_is e ErrDuplicate then ret () else fail e))"

section \<open>Operations\<close>

definition svc_create :: "env \<Rightarrow> posts_config \<Rightarrow> uuid \<Rightarrow> actor \<Rightarrow> create_input \<Rightarrow> post act" where
  "svc_create E cfg pid a inp =
     and_then (require a CapCreateDraft) (\<lambda>_.
       let sc = scope_from_actor a in
       if sc_tenant sc = nil_uuid then fail ErrNoTenant
       else and_then (lift_sum (render E cfg (ci_markdown inp) (ci_metadata inp))) (\<lambda>html.
         scoped_rw E sc (\<lambda>q.
           let base = (if ci_slug inp = [] then ci_title inp else ci_slug inp) in
           and_then (unique_slug E q (sc_tenant sc) base) (\<lambda>slug.
             handle
               (create_post q
                  \<lparr>p_id = pid, p_tenant = sc_tenant sc, p_author = a_user a, p_slug = slug,
                   p_title = ci_title inp, p_excerpt = ci_excerpt inp,
                   p_markdown = ci_markdown inp, p_html = html, p_status = PostDraft,
                   p_published = None, p_metadata = ci_metadata inp, p_created = 0, p_updated = 0\<rparr>)
               (\<lambda>e. if is_unique_violation e then fail ErrSlugTaken else fail e)))))"

definition svc_get :: "env \<Rightarrow> actor \<Rightarrow> uuid \<Rightarrow> post act" where
  "svc_get E a pid =
     and_then
       (on_error ErrNoRows ErrPostNotFound
          (scoped E (scope_from_actor a) (\<lambda>q. get_post_by_id q pid)))
       (\<lambda>p. if \<not> owns_post a (p_author p) then fail ErrForbidden else ret p)"

definition svc_list :: "env \<Rightarrow> actor \<Rightarrow> list_filter \<Rightarrow> post_summary list act" where
  "svc_list E a f =
     and_then (require a CapCreateDraft) (\<lambda>_.
       let author = (if plain_author a then Some (a_user a) else lf_author f) in
       scoped E (scope_from_actor a) (\<lambda>q. list_post_summaries q (lf_status f) author))"

definition given :: "'a option \<Rightarrow> 'a \<Rightarrow> 'a" where
  "given new old = (case new of None \<Rightarrow> old | Some x \<Rightarrow> x)"

text \<open>\<open>UpdatePost\<close> reads only these fields of the post it is given; the rest are zero.\<close>

definition update_arg :: "uuid \<Rightarrow> string \<Rightarrow> string \<Rightarrow> string \<Rightarrow> string \<Rightarrow> bytes \<Rightarrow> post" where
  "update_arg pid title slug excerpt md html =
     \<lparr>p_id = pid, p_tenant = nil_uuid, p_author = nil_uuid, p_slug = slug, p_title = title,
      p_excerpt = excerpt, p_markdown = md, p_html = html, p_status = PostDraft,
      p_published = None, p_metadata = None, p_created = 0, p_updated = 0\<rparr>"

definition svc_update ::
  "env \<Rightarrow> posts_config \<Rightarrow> uuid \<Rightarrow> actor \<Rightarrow> uuid \<Rightarrow> update_input \<Rightarrow> post act" where
  "svc_update E cfg jid a pid inp =
     and_then (require a CapEditOwnDraft) (\<lambda>_.
       let sc = scope_from_actor a in
       scoped_rw E sc (\<lambda>q.
         and_then (on_error ErrNoRows ErrPostNotFound (get_post_by_id q pid)) (\<lambda>p.
           if \<not> owns_post a (p_author p) then fail ErrForbidden
           else if plain_author a \<and> p_status p \<noteq> PostDraft then fail ErrForbidden
           else
             let title = given (ui_title inp) (p_title p);
                 excerpt = given (ui_excerpt inp) (p_excerpt p);
                 md = given (ui_markdown inp) (p_markdown p);
                 meta = given (ui_metadata inp) (p_metadata p)
             in and_then
                  (case ui_slug inp of
                     None \<Rightarrow> ret (p_slug p)
                   | Some s \<Rightarrow>
                       if p_status p = PostPublished then fail ErrSlugImmutable
                       else unique_slug E q (sc_tenant sc) s)
                  (\<lambda>slug.
                     and_then (lift_sum (render E cfg md meta)) (\<lambda>html.
                       and_then (update_post q (update_arg pid title slug excerpt md html)) (\<lambda>out.
                         if p_status out = PostPublished then
                           and_then (purge q jid (sc_tenant sc) out) (\<lambda>_. ret out)
                         else ret out))))))"

definition transition ::
  "env \<Rightarrow> posts_config \<Rightarrow> uuid \<Rightarrow> actor \<Rightarrow> uuid \<Rightarrow> post_status \<Rightarrow> bool \<Rightarrow> post act" where
  "transition E cfg jid a pid status publishing =
     and_then (require a CapPublishArchive) (\<lambda>_.
       let sc = scope_from_actor a in
       scoped_rw E sc (\<lambda>q.
         and_then (on_error ErrNoRows ErrPostNotFound (get_post_by_id q pid)) (\<lambda>p.
           if publishing \<and> trim_space (p_markdown p) = [] then fail ErrEmptyContent
           else and_then (lift_sum (render E cfg (p_markdown p) (p_metadata p))) (\<lambda>html.
             let published_at = (if publishing then Some (e_now E) else None) in
             and_then (set_post_status q pid status published_at html) (\<lambda>out.
               and_then (purge q jid (sc_tenant sc) out) (\<lambda>_. ret out))))))"

definition svc_publish :: "env \<Rightarrow> posts_config \<Rightarrow> uuid \<Rightarrow> actor \<Rightarrow> uuid \<Rightarrow> post act" where
  "svc_publish E cfg jid a pid = transition E cfg jid a pid PostPublished True"

definition svc_unpublish :: "env \<Rightarrow> posts_config \<Rightarrow> uuid \<Rightarrow> actor \<Rightarrow> uuid \<Rightarrow> post act" where
  "svc_unpublish E cfg jid a pid = transition E cfg jid a pid PostDraft False"

definition svc_archive :: "env \<Rightarrow> posts_config \<Rightarrow> uuid \<Rightarrow> actor \<Rightarrow> uuid \<Rightarrow> post act" where
  "svc_archive E cfg jid a pid = transition E cfg jid a pid PostArchived False"

definition svc_delete :: "env \<Rightarrow> actor \<Rightarrow> uuid \<Rightarrow> unit act" where
  "svc_delete E a pid =
     and_then (require a CapEditOwnDraft) (\<lambda>_.
       scoped_rw E (scope_from_actor a) (\<lambda>q.
         and_then (on_error ErrNoRows ErrPostNotFound (get_post_by_id q pid)) (\<lambda>p.
           if \<not> owns_post a (p_author p) then fail ErrForbidden
           else if plain_author a \<and> p_status p \<noteq> PostDraft then fail ErrForbidden
           else delete_post q pid)))"

section \<open>Slugs are valid and stable\<close>

definition slug_text :: "string \<Rightarrow> bool" where
  "slug_text s = list_all (\<lambda>c. slug_char c \<or> c = CHR ''-'') s"

text \<open>No two hyphens in a row.\<close>

fun single_dashes :: "string \<Rightarrow> bool" where
  "single_dashes (a # b # s) = (\<not> (a = CHR ''-'' \<and> b = CHR ''-'') \<and> single_dashes (b # s))"
| "single_dashes s = True"

lemma hyphenate_text: "slug_text (hyphenate s)"
  by (induction s rule: hyphenate.induct) (auto simp: slug_text_def)

lemma hyphenate_slug_start: "s \<noteq> [] \<Longrightarrow> slug_char (hd s) \<Longrightarrow> slug_char (hd (hyphenate s))"
  by (cases s) auto

lemma single_dashes_Cons:
  "single_dashes s \<Longrightarrow> (c = CHR ''-'' \<Longrightarrow> s \<noteq> [] \<Longrightarrow> slug_char (hd s)) \<Longrightarrow> single_dashes (c # s)"
  by (cases s) auto

lemma hyphenate_single: "single_dashes (hyphenate s)"
proof (induction s rule: hyphenate.induct)
  case (2 c cs)
  have tl: "slug_char (hd (hyphenate r))" if "r = dropWhile (\<lambda>x. \<not> slug_char x) cs" "hyphenate r \<noteq> []" for r
  proof -
    have "r \<noteq> []" using that(2) by auto
    then show ?thesis using that(1) hd_dropWhile by (metis hyphenate_slug_start)
  qed
  show ?case
  proof (cases "slug_char c")
    case True
    then have "c \<noteq> CHR ''-''" by auto
    then show ?thesis using 2 True by (auto intro: single_dashes_Cons)
  next
    case False
    then show ?thesis using 2(2) [OF False] tl [OF refl] by (auto intro: single_dashes_Cons)
  qed
qed simp

lemma hyphenate_fixed: "slug_text s \<Longrightarrow> single_dashes s \<Longrightarrow> hyphenate s = s"
proof (induction s rule: hyphenate.induct)
  case (2 c cs)
  show ?case
  proof (cases "slug_char c")
    case True
    then show ?thesis using 2 by (cases cs) (auto simp: slug_text_def)
  next
    case False
    then have c: "c = CHR ''-''" using 2(3) by (simp add: slug_text_def)
    have "dropWhile (\<lambda>x. \<not> slug_char x) cs = cs"
      using 2(3,4) c by (cases cs) (auto simp: slug_text_def)
    then show ?thesis using 2(2) [OF False] 2(3,4) c by (cases cs) (auto simp: slug_text_def)
  qed
qed simp

lemma single_dashes_append: "single_dashes (s @ t) \<Longrightarrow> single_dashes s \<and> single_dashes t"
  by (induction s rule: single_dashes.induct) (auto, (cases t; auto)+)

lemma single_dashes_take: "single_dashes s \<Longrightarrow> single_dashes (take n s)"
  by (metis append_take_drop_id single_dashes_append)

lemma single_dashes_drop: "single_dashes s \<Longrightarrow> single_dashes (drop n s)"
  by (metis append_take_drop_id single_dashes_append)

lemma trim_sub: "\<exists>m n. trim s cs = take n (drop m s)"
proof -
  have "\<exists>m. trim_left s cs = drop m s" for s by (metis dropWhile_eq_drop trim_left_def)
  moreover have "\<exists>n. trim_right s cs = take n s" for s
    by (metis dropWhile_eq_drop rev_drop rev_rev_ident trim_right_def)
  ultimately show ?thesis unfolding trim_def by metis
qed

lemma trim_slug:
  assumes "slug_text s" "single_dashes s"
  shows "slug_text (trim s cs) \<and> single_dashes (trim s cs)"
proof -
  obtain m n where "trim s cs = take n (drop m s)" using trim_sub by blast
  then show ?thesis
    using assms by (auto simp: slug_text_def list_all_iff single_dashes_take single_dashes_drop
        dest: in_set_takeD in_set_dropD)
qed

text \<open>What \<open>derive_slug\<close> returns: hyphens only single and inside, at most 63 bytes.\<close>

definition slug_shape :: "string \<Rightarrow> bool" where
  "slug_shape s = (s \<noteq> [] \<and> slug_text s \<and> single_dashes s \<and> length s \<le> 63 \<and>
     hd s \<noteq> CHR ''-'' \<and> last s \<noteq> CHR ''-'')"

lemma trim_shape:
  "slug_text s \<Longrightarrow> single_dashes s \<Longrightarrow> trim s ''-'' \<noteq> [] \<Longrightarrow> length (trim s ''-'') \<le> 63 \<Longrightarrow>
     slug_shape (trim s ''-'')"
  using trim_slug [of s "''-''"] hd_trim [of s "''-''"] last_trim [of s "''-''"]
  by (auto simp: slug_shape_def)

lemma derive_slug_shape: "slug_shape (derive_slug E title)"
proof -
  let ?h = "hyphenate (lower_of E title)" and ?p = "''post''"
  let ?s = "trim ?h ''-''"
  have post: "slug_shape ?p"
    by (simp add: slug_shape_def slug_text_def slug_char_def is_lower_def)
  have s: "slug_text ?s" "single_dashes ?s"
    using trim_slug hyphenate_text hyphenate_single by blast+
  have "slug_text (take 63 ?s)" "single_dashes (take 63 ?s)"
    using s by (auto simp: slug_text_def list_all_iff single_dashes_take dest: in_set_takeD)
  moreover have "length (trim (take 63 ?s) ''-'') \<le> 63"
    using length_trim [of "take 63 ?s" "''-''"] by simp
  ultimately show ?thesis
    using post trim_shape [OF hyphenate_text hyphenate_single, of "lower_of E title"]
      trim_shape [of "take 63 ?s"]
    by (auto simp: derive_slug_def Let_def)
qed

lemma valid_slugI:
  assumes "s \<noteq> []" "slug_text s" "length s \<le> 63" "hd s \<noteq> CHR ''-''" "last s \<noteq> CHR ''-''"
  shows "valid_slug s"
proof -
  obtain c cs where s: "s = c # cs" using assms(1) by (auto simp: neq_Nil_conv)
  have "list_all (\<lambda>c. slug_char c \<or> c = CHR ''-'') (butlast cs)"
    using assms(2) s by (auto simp: slug_text_def list_all_iff dest: in_set_butlastD)
  moreover have "cs \<noteq> [] \<Longrightarrow> slug_char (last cs)"
    using assms(2,5) s last_in_set [of cs] by (auto simp: slug_text_def list_all_iff)
  ultimately show ?thesis using assms s by (auto simp: slug_text_def)
qed

lemma slug_shape_valid: "slug_shape s \<Longrightarrow> valid_slug s"
  by (rule valid_slugI) (simp_all add: slug_shape_def)

lemma slug_shape_fixed:
  assumes "slug_shape s"
  shows "derive_slug E s = s"
proof -
  have chars: "list_all (\<lambda>c. slug_char c \<or> c = CHR ''-'') s"
    using assms by (simp add: slug_shape_def slug_text_def)
  have dash: "is_ascii CHR ''-''" "lower_byte CHR ''-'' = CHR ''-''"
    by (simp_all add: is_ascii_def lower_byte_def is_upper_def)
  have "list_all is_ascii s"
    using chars dash by (auto simp: list_all_iff slug_char_ascii)
  moreover have "map lower_byte s = s"
    using chars dash by (intro map_idI) (auto simp: list_all_iff slug_char_lower)
  ultimately have "lower_of E s = s" by (simp add: to_lower_def)
  moreover have "trim s ''-'' = s" using assms by (intro trim_id) (auto simp: slug_shape_def)
  ultimately show ?thesis
    using assms by (auto simp: derive_slug_def slug_shape_def hyphenate_fixed Let_def)
qed

section \<open>The slug probe\<close>

definition suffixed :: "string \<Rightarrow> nat \<Rightarrow> string" where
  "suffixed base n = base @ ''-'' @ itoa n"

definition slug_taken :: "tx \<Rightarrow> uuid \<Rightarrow> db \<Rightarrow> string \<Rightarrow> bool" where
  "slug_taken q t d slug = (\<exists>p \<in> set (posts d). visible q (p_tenant p) \<and> p_tenant p = t \<and> p_slug p = slug)"

text \<open>The probe returns the first free candidate of its list, and leaves the transaction as it was.\<close>

lemma probe_slug_first:
  "probe_slug q t base slug a \<lparr>t_db = d, t_aborted = False\<rparr> =
     (case find (\<lambda>s. \<not> slug_taken q t d s) (slug # map (suffixed base) [a..<10001]) of
        None \<Rightarrow> (Inl ErrSlugTaken, \<lparr>t_db = d, t_aborted = False\<rparr>)
      | Some s \<Rightarrow> (Inr s, \<lparr>t_db = d, t_aborted = False\<rparr>))"
proof (induction q t base slug a rule: probe_slug.induct)
  case (1 q t base slug a)
  have step: "slug_exists q t slug \<lparr>t_db = d, t_aborted = False\<rparr> =
      (Inr (slug_taken q t d slug), \<lparr>t_db = d, t_aborted = False\<rparr>)"
    by (simp add: slug_exists_def slug_taken_def)
  show ?case
  proof (cases "slug_taken q t d slug \<and> a \<le> 10000")
    case True
    then have "[a..<10001] = a # [Suc a..<10001]" by (simp add: upt_conv_Cons)
    then show ?thesis using True "1.IH" [of True]
      by (simp add: probe_slug.simps [of q t base slug] and_then_def step suffixed_def)
  qed (auto simp: probe_slug.simps [of q t base slug] and_then_def step)
qed

definition slug_candidates :: "env \<Rightarrow> string \<Rightarrow> string list" where
  "slug_candidates E desired =
     derive_slug E desired # map (suffixed (derive_slug E desired)) [2..<10001]"

lemma unique_slug_first:
  "unique_slug E q t desired \<lparr>t_db = d, t_aborted = False\<rparr> =
     (case find (\<lambda>s. \<not> slug_taken q t d s) (slug_candidates E desired) of
        None \<Rightarrow> (Inl ErrSlugTaken, \<lparr>t_db = d, t_aborted = False\<rparr>)
      | Some s \<Rightarrow> (Inr s, \<lparr>t_db = d, t_aborted = False\<rparr>))"
  unfolding unique_slug_def Let_def slug_candidates_def by (rule probe_slug_first)

lemma runs_then_unique [txn_run]:
  "runs (and_then (unique_slug E q t desired) g) d y d' \<longleftrightarrow>
     (\<exists>s. find (\<lambda>s. \<not> slug_taken q t d s) (slug_candidates E desired) = Some s \<and> runs (g s) d y d')"
  unfolding runs_def
  by (auto simp: and_then_def unique_slug_first split: option.splits)

lemma distinct_suffixed: "distinct ns \<Longrightarrow> distinct (b # map (suffixed b) ns)"
  by (auto simp: distinct_map inj_on_def suffixed_def)

lemma distinct_candidates: "distinct (slug_candidates E desired)"
  unfolding slug_candidates_def by (rule distinct_suffixed [OF distinct_upt])

lemma length_candidates: "length (slug_candidates E desired) = 10000"
  by (simp only: slug_candidates_def list.size length_map length_upt)

text \<open>With fewer posts in the tenant than candidates, one of them is free.\<close>

lemma candidate_free:
  assumes "length (filter (\<lambda>p. p_tenant p = t) (posts d)) < 10000"
  obtains s where "find (\<lambda>s. \<not> slug_taken q t d s) (slug_candidates E desired) = Some s"
proof (cases "find (\<lambda>s. \<not> slug_taken q t d s) (slug_candidates E desired)")
  case None
  then have "set (slug_candidates E desired) \<subseteq> p_slug ` set (filter (\<lambda>p. p_tenant p = t) (posts d))"
    by (auto simp: find_None_iff slug_taken_def)
  then have "card (set (slug_candidates E desired)) \<le> card (p_slug ` set (filter (\<lambda>p. p_tenant p = t) (posts d)))"
    by (intro card_mono) auto
  also have "\<dots> \<le> length (filter (\<lambda>p. p_tenant p = t) (posts d))"
    by (meson List.finite_set card_image_le card_length order_trans)
  finally show ?thesis
    using assms by (simp add: distinct_card [OF distinct_candidates] length_candidates)
qed (rule that)

section \<open>What a successful operation did\<close>

lemma runs_bump:
  "runs (and_then (bump_content_version q t) g) d y d' \<longleftrightarrow> \<not> tx_ro q \<and>
     (\<exists>b. find (\<lambda>x. t_id x = t) (tenants d) = Some b \<and> t_version b \<noteq> max_bigint \<and>
        runs (g (t_version b + 1)) (d\<lparr>tenants := upd_rows (\<lambda>x. t_id x = t) (bumped q) (tenants d)\<rparr>) y d')"
  by (auto simp: bump_content_version_def txn_run split: option.splits if_splits)

lemma runs_enqueue_once:
  "runs (handle (and_then (enqueue q jid kind key payload) (\<lambda>_. ret ()))
      (\<lambda>e. if errors_is e ErrDuplicate then ret () else fail e)) d u d' \<longleftrightarrow> \<not> tx_ro q \<and>
     (if \<exists>j \<in> set (jobs d). same_job kind (nullif_empty key) j then d' = d
      else jid \<notin> j_id ` set (jobs d) \<and>
        d' = d\<lparr>jobs := jobs d @ [new_job q jid kind (nullif_empty key) payload]\<rparr>)"
  by (auto simp: enqueue_def runs_def handle_def and_then_def split: if_splits sum.splits)

lemma act_if: "(if b then m else m') d = (y, d') \<longleftrightarrow> (if b then m d = (y, d') else m' d = (y, d'))"
  by simp

lemma act_lift:
  "and_then (lift_sum r) f d = (Inr y, d') \<longleftrightarrow> (\<exists>x. r = Inr x \<and> f x d = (Inr y, d'))"
  by (auto simp: and_then_def split: sum.splits)

lemma runs_then_get:
  "runs (and_then (on_error ErrNoRows ErrPostNotFound (get_post_by_id q pid)) g) d y d' \<longleftrightarrow>
     (\<exists>p. find (post_at q pid) (posts d) = Some p \<and> runs (g p) d y d')"
  by (auto simp: get_post_by_id_def txn_run)

abbreviation rw_tx :: "env \<Rightarrow> actor \<Rightarrow> tx" where
  "rw_tx E a \<equiv> tx_of E False (scope_from_actor a)"

abbreviation tenant_of_actor :: "actor \<Rightarrow> uuid" where
  "tenant_of_actor a \<equiv> sc_tenant (scope_from_actor a)"

lemma runs_handle_unique:
  "runs (handle m (\<lambda>e. if is_unique_violation e then fail e1 else fail e)) d y d' \<longleftrightarrow> runs m d y d'"
  by (auto simp: runs_def handle_def split: prod.splits sum.splits if_splits)

lemma svc_create_effect:
  assumes "svc_create E cfg pid a inp d = (Inr p, d')"
  obtains slug html where "can a CapCreateDraft" "tenant_of_actor a \<noteq> nil_uuid"
    "find (\<lambda>s. \<not> slug_taken (rw_tx E a) (tenant_of_actor a) d s)
       (slug_candidates E (if ci_slug inp = [] then ci_title inp else ci_slug inp)) = Some slug"
    "render E cfg (ci_markdown inp) (ci_metadata inp) = Inr html"
    "d' = d\<lparr>posts := posts d @ [p]\<rparr>" "\<forall>x \<in> set (posts d). p_id x \<noteq> pid"
    "\<forall>x \<in> set (posts d). p_tenant x = tenant_of_actor a \<longrightarrow> p_slug x \<noteq> slug"
    "p = \<lparr>p_id = pid, p_tenant = tenant_of_actor a, p_author = a_user a, p_slug = slug,
       p_title = ci_title inp, p_excerpt = ci_excerpt inp, p_markdown = ci_markdown inp,
       p_html = html, p_status = PostDraft, p_published = None,
       p_metadata = Some (case ci_metadata inp of None \<Rightarrow> JObj [] | Some m \<Rightarrow> m),
       p_created = e_pgnow E, p_updated = e_pgnow E\<rparr>"
    "has_tenant d (tenant_of_actor a)" "has_user d (a_user a)"
  using assms
  by (auto simp: svc_create_def act_require Let_def act_lift scoped_rw_runs txn_run runs_handle_unique
      create_post_def post_row_def split: if_splits)

definition purge_job :: "tx \<Rightarrow> uuid \<Rightarrow> uuid \<Rightarrow> uuid \<Rightarrow> int \<Rightarrow> job" where
  "purge_job q jid t pid v = new_job q jid purge_job_kind (Some (uuid_string t))
     (JobPayload t (PurgeData t (Some pid) (Some v) [''/'']))"

lemma uuid_string_nonempty [simp]: "uuid_string t \<noteq> []"
  by (simp add: uuid_string_def Let_def)

lemma nullif_uuid: "nullif_empty (uuid_string t) = Some (uuid_string t)"
  by (simp add: nullif_empty_def)

text \<open>A purge bumps the tenant's version and appends its job, unless one with its key is there.\<close>

definition purged_tenants :: "tx \<Rightarrow> uuid \<Rightarrow> db \<Rightarrow> tenant list" where
  "purged_tenants q t d = upd_rows (\<lambda>x. t_id x = t) (bumped q) (tenants d)"

lemma purge_effect:
  assumes "runs (purge q jid t p) d u d'"
  obtains b js where "find (\<lambda>x. t_id x = t) (tenants d) = Some b" "t_version b \<noteq> max_bigint"
    "d' = d\<lparr>tenants := purged_tenants q t d, jobs := jobs d @ js\<rparr>"
    "js = (if \<exists>j \<in> set (jobs d). same_job purge_job_kind (Some (uuid_string t)) j then []
           else [purge_job q jid t (p_id p) (t_version b + 1)])"
proof -
  let ?k = "Some (uuid_string t)" and ?d1 = "d\<lparr>tenants := purged_tenants q t d\<rparr>"
  from assms obtain b where b: "find (\<lambda>x. t_id x = t) (tenants d) = Some b" "t_version b \<noteq> max_bigint"
    and e: "if \<exists>j \<in> set (jobs ?d1). same_job purge_job_kind ?k j then d' = ?d1
      else jid \<notin> j_id ` set (jobs ?d1) \<and>
        d' = ?d1\<lparr>jobs := jobs ?d1 @ [purge_job q jid t (p_id p) (t_version b + 1)]\<rparr>"
    unfolding purge_def runs_bump runs_enqueue_once purge_job_def purged_tenants_def nullif_uuid
    by blast
  show ?thesis
    by (rule that [OF b(1,2) _ refl]) (use e in \<open>auto split: if_splits\<close>)
qed

lemma runs_guard: "runs (if b then fail e else m) d y d' \<longleftrightarrow> \<not> b \<and> runs m d y d'"
  by (simp add: runs_fail)

lemma runs_then_done:
  "runs (and_then m (\<lambda>_. ret x)) d y d' \<longleftrightarrow> runs m d () d' \<and> y = x" for m :: "unit txn"
  by (auto simp: runs_def and_then_def split: prod.splits sum.splits)

lemma update_arg_sel [simp]:
  "p_id (update_arg pid title slug excerpt md html) = pid"
  "p_slug (update_arg pid title slug excerpt md html) = slug"
  by (simp_all add: update_arg_def)

lemma runs_then_update_post:
  "runs (and_then (update_post q u) g) d y d' \<longleftrightarrow> \<not> tx_ro q \<and>
     (\<exists>old. find (post_at q (p_id u)) (posts d) = Some old \<and>
        (\<forall>x \<in> set (posts d). p_id x \<noteq> p_id old \<longrightarrow> p_tenant x = p_tenant old \<longrightarrow> p_slug x \<noteq> p_slug u) \<and>
        runs (g (updated_post q u old)) (d\<lparr>posts := upd_rows (post_at q (p_id u)) (updated_post q u) (posts d)\<rparr>) y d')"
  by (auto simp: update_post_def txn_run split: option.splits if_splits)

lemma runs_then_set_status:
  "runs (and_then (set_post_status q pid st pub html) g) d y d' \<longleftrightarrow> \<not> tx_ro q \<and>
     (\<exists>old. find (post_at q pid) (posts d) = Some old \<and>
        runs (g (post_with_status q st pub html old))
          (d\<lparr>posts := upd_rows (post_at q pid) (post_with_status q st pub html) (posts d)\<rparr>) y d')"
  by (auto simp: set_post_status_def txn_run split: option.splits)

definition new_slug :: "env \<Rightarrow> actor \<Rightarrow> db \<Rightarrow> post \<Rightarrow> string option \<Rightarrow> string \<Rightarrow> bool" where
  "new_slug E a d p wanted slug = (case wanted of
     None \<Rightarrow> slug = p_slug p
   | Some s \<Rightarrow> p_status p \<noteq> PostPublished \<and>
       find (\<lambda>s. \<not> slug_taken (rw_tx E a) (tenant_of_actor a) d s) (slug_candidates E s) = Some slug)"

lemma runs_then_slug:
  "runs (and_then (case wanted of
            None \<Rightarrow> ret (p_slug p)
          | Some s \<Rightarrow> if p_status p = PostPublished then fail ErrSlugImmutable
                      else unique_slug E (rw_tx E a) (tenant_of_actor a) s) g) d y d' \<longleftrightarrow>
     (\<exists>slug. new_slug E a d p wanted slug \<and> runs (g slug) d y d')"
  by (auto simp: new_slug_def txn_run runs_fail split: option.split)

text \<open>The row that an update leaves for the row \<open>p\<close>.\<close>

definition edited :: "env \<Rightarrow> update_input \<Rightarrow> string \<Rightarrow> bytes \<Rightarrow> post \<Rightarrow> post" where
  "edited E inp slug html p = p\<lparr>p_title := given (ui_title inp) (p_title p), p_slug := slug,
     p_excerpt := given (ui_excerpt inp) (p_excerpt p),
     p_markdown := given (ui_markdown inp) (p_markdown p), p_html := html, p_updated := e_pgnow E\<rparr>"

text \<open>The rows after one row \<open>p\<close> of the table became \<open>p'\<close>.\<close>

definition row_becomes :: "tx \<Rightarrow> uuid \<Rightarrow> (post \<Rightarrow> post) \<Rightarrow> db \<Rightarrow> db" where
  "row_becomes q pid f d = d\<lparr>posts := upd_rows (post_at q pid) f (posts d)\<rparr>"

lemma svc_update_effect:
  assumes "svc_update E cfg jid a pid inp d = (Inr out, d')"
  obtains p slug html f where "find (post_at (rw_tx E a) pid) (posts d) = Some p"
    "can a CapEditOwnDraft" "owns_post a (p_author p)" "plain_author a \<longrightarrow> p_status p = PostDraft"
    "new_slug E a d p (ui_slug inp) slug"
    "render E cfg (given (ui_markdown inp) (p_markdown p)) (given (ui_metadata inp) (p_metadata p)) = Inr html"
    "f p = edited E inp slug html p" "out = f p"
    "\<forall>x. p_id (f x) = p_id x \<and> p_tenant (f x) = p_tenant x"
    "\<forall>x \<in> set (posts d). p_id x \<noteq> pid \<longrightarrow> p_tenant x = p_tenant p \<longrightarrow> p_slug x \<noteq> slug"
    "if p_status p = PostPublished
     then runs (purge (rw_tx E a) jid (tenant_of_actor a) out) (row_becomes (rw_tx E a) pid f d) () d'
     else d' = row_becomes (rw_tx E a) pid f d"
proof -
  let ?q = "rw_tx E a"
  let ?md = "\<lambda>p. given (ui_markdown inp) (p_markdown p)"
  let ?u = "\<lambda>p slug html. update_arg pid (given (ui_title inp) (p_title p)) slug
    (given (ui_excerpt inp) (p_excerpt p)) (?md p) html"
  from assms obtain p slug html where p: "find (post_at ?q pid) (posts d) = Some p"
    "can a CapEditOwnDraft" "owns_post a (p_author p)" "plain_author a \<longrightarrow> p_status p = PostDraft"
    "new_slug E a d p (ui_slug inp) slug"
    "render E cfg (?md p) (given (ui_metadata inp) (p_metadata p)) = Inr html"
    and free: "\<forall>x \<in> set (posts d). p_id x \<noteq> p_id p \<longrightarrow> p_tenant x = p_tenant p \<longrightarrow> p_slug x \<noteq> slug"
    and rest: "runs (if p_status (updated_post ?q (?u p slug html) p) = PostPublished then
          and_then (purge ?q jid (tenant_of_actor a) (updated_post ?q (?u p slug html) p))
            (\<lambda>_. ret (updated_post ?q (?u p slug html) p))
        else ret (updated_post ?q (?u p slug html) p))
        (row_becomes ?q pid (updated_post ?q (?u p slug html)) d) out d'"
    unfolding svc_update_def act_require Let_def scoped_rw_runs runs_then_get runs_guard
        runs_then_slug runs_then_lift runs_then_update_post row_becomes_def update_arg_sel
    by auto
  have id: "p_id p = pid" using find_SomeD [OF p(1)] by (simp add: post_at_def)
  show ?thesis
    by (rule that [OF p, of "updated_post ?q (?u p slug html)"])
      (use free rest id in \<open>simp_all add: updated_post_def update_arg_def edited_def Let_def runs_then_done
         runs_ret split: if_splits\<close>)
qed

definition restated :: "env \<Rightarrow> post_status \<Rightarrow> bool \<Rightarrow> bytes \<Rightarrow> post \<Rightarrow> post" where
  "restated E st publishing html p = p\<lparr>p_status := st,
     p_published := (if publishing then Some (e_now E) else None), p_html := html, p_updated := e_pgnow E\<rparr>"

lemma transition_effect:
  assumes "transition E cfg jid a pid st publishing d = (Inr out, d')"
  obtains p html f where "find (post_at (rw_tx E a) pid) (posts d) = Some p"
    "can a CapPublishArchive" "publishing \<longrightarrow> trim_space (p_markdown p) \<noteq> []"
    "render E cfg (p_markdown p) (p_metadata p) = Inr html"
    "f p = restated E st publishing html p" "out = f p"
    "\<forall>x. p_id (f x) = p_id x \<and> p_tenant (f x) = p_tenant x \<and> p_slug (f x) = p_slug x"
    "runs (purge (rw_tx E a) jid (tenant_of_actor a) out) (row_becomes (rw_tx E a) pid f d) () d'"
proof -
  let ?q = "rw_tx E a" and ?pub = "if publishing then Some (e_now E) else None"
  from assms obtain p html where p: "find (post_at ?q pid) (posts d) = Some p"
    "can a CapPublishArchive" "publishing \<longrightarrow> trim_space (p_markdown p) \<noteq> []"
    "render E cfg (p_markdown p) (p_metadata p) = Inr html"
    and rest: "runs (purge ?q jid (tenant_of_actor a) (post_with_status ?q st ?pub html p))
        (row_becomes ?q pid (post_with_status ?q st ?pub html) d) () d'"
      "out = post_with_status ?q st ?pub html p"
    unfolding transition_def act_require Let_def scoped_rw_runs runs_then_get runs_guard
      runs_then_lift runs_then_set_status runs_then_done row_becomes_def
    by auto
  show ?thesis
    by (rule that [OF p, of "post_with_status ?q st ?pub html"])
      (use rest in \<open>simp_all add: post_with_status_def restated_def\<close>)
qed

lemma svc_delete_effect:
  assumes "svc_delete E a pid d = (Inr u, d')"
  obtains p where "find (post_at (rw_tx E a) pid) (posts d) = Some p"
    "can a CapEditOwnDraft" "owns_post a (p_author p)" "plain_author a \<longrightarrow> p_status p = PostDraft"
    "posts d' = del_rows (post_at (rw_tx E a) pid) (posts d)" "tenants d' = tenants d"
    "jobs d' = jobs d"
proof -
  from assms obtain p where p: "find (post_at (rw_tx E a) pid) (posts d) = Some p"
    "can a CapEditOwnDraft" "owns_post a (p_author p)" "plain_author a \<longrightarrow> p_status p = PostDraft"
    and r: "runs (delete_post (rw_tx E a) pid) d u d'"
    unfolding svc_delete_def act_require scoped_rw_runs runs_then_get runs_guard by auto
  from r have "posts d' = del_rows (post_at (rw_tx E a) pid) (posts d) \<and> tenants d' = tenants d \<and> jobs d' = jobs d"
    by (auto simp: delete_post_def txn_run Let_def)
  with p that show ?thesis by blast
qed

lemma act_then_guard:
  "and_then m (\<lambda>p. if b p then fail e else ret p) d = (Inr y, d') \<longleftrightarrow> m d = (Inr y, d') \<and> \<not> b y"
  by (auto simp: and_then_def split: prod.splits sum.splits if_splits)

lemma svc_get_effect:
  "svc_get E a pid d = (Inr p, d') \<longleftrightarrow>
     find (post_at (tx_of E True (scope_from_actor a)) pid) (posts d) = Some p \<and> owns_post a (p_author p) \<and> d' = d"
  unfolding svc_get_def act_then_guard on_error_Inr scoped_runs
  by (auto simp: get_post_by_id_def txn_run)

end
