(* ===== verification/PostTable.thy ===== *)
theory PostTable
  imports Posts
begin

text \<open>
  The posts table under the requests of internal/posts: what one request can do to it, the invariants
  of every table that requests can produce, and the properties of the service.
\<close>

section \<open>Requests on the table of posts\<close>

datatype post_op =
    OpCreate uuid create_input
  | OpUpdate uuid update_input
  | OpPublish uuid
  | OpUnpublish uuid
  | OpArchive uuid
  | OpDelete uuid

definition void :: "('s, 'a) comp \<Rightarrow> ('s, unit) comp" where
  "void m = and_then m (\<lambda>_. ret ())"

lemma void_Inr: "void m d = (Inr u, d') \<longleftrightarrow> (\<exists>x. m d = (Inr x, d'))"
  by (auto simp: void_def and_then_def split: prod.splits sum.splits)

fun exec_op :: "env \<Rightarrow> posts_config \<Rightarrow> uuid \<Rightarrow> actor \<Rightarrow> post_op \<Rightarrow> unit act" where
  "exec_op E cfg jid a (OpCreate pid inp) = void (svc_create E cfg pid a inp)"
| "exec_op E cfg jid a (OpUpdate pid inp) = void (svc_update E cfg jid a pid inp)"
| "exec_op E cfg jid a (OpPublish pid) = void (svc_publish E cfg jid a pid)"
| "exec_op E cfg jid a (OpUnpublish pid) = void (svc_unpublish E cfg jid a pid)"
| "exec_op E cfg jid a (OpArchive pid) = void (svc_archive E cfg jid a pid)"
| "exec_op E cfg jid a (OpDelete pid) = svc_delete E a pid"

text \<open>
  What one request can do: nothing, append a draft of the actor, change one visible row, or delete
  one. The status of a row changes only under CapPublishArchive, its slug only when it is not
  published, and whenever a row is or was set by a transition the tenant's purge has run.
\<close>

definition may_edit :: "actor \<Rightarrow> post \<Rightarrow> bool" where
  "may_edit a p = (can a CapEditOwnDraft \<and> owns_post a (p_author p) \<and> (plain_author a \<longrightarrow> p_status p = PostDraft))"

inductive op_effect :: "env \<Rightarrow> posts_config \<Rightarrow> actor \<Rightarrow> post_op \<Rightarrow> db \<Rightarrow> db \<Rightarrow> bool" for E cfg a op d where
  eff_none: "op_effect E cfg a op d d"
| eff_create: "op = OpCreate pid inp \<Longrightarrow> can a CapCreateDraft \<Longrightarrow>
     p_id p = pid \<Longrightarrow> p_tenant p = tenant_of_actor a \<Longrightarrow> tenant_of_actor a \<noteq> nil_uuid \<Longrightarrow>
     p_author p = a_user a \<Longrightarrow> p_status p = PostDraft \<Longrightarrow> p_published p = None \<Longrightarrow>
     render E cfg (p_markdown p) (p_metadata p) = Inr (p_html p) \<Longrightarrow>
     (\<forall>x \<in> set (posts d). p_id x \<noteq> p_id p) \<Longrightarrow>
     (\<forall>x \<in> set (posts d). p_tenant x = p_tenant p \<longrightarrow> p_slug x \<noteq> p_slug p) \<Longrightarrow>
     op_effect E cfg a op d (d\<lparr>posts := posts d @ [p]\<rparr>)"
| eff_edit: "op = OpUpdate pid inp \<Longrightarrow> may_edit a p \<Longrightarrow>
     find (post_at (rw_tx E a) pid) (posts d) = Some p \<Longrightarrow>
     p_status (f p) = p_status p \<Longrightarrow> p_published (f p) = p_published p \<Longrightarrow>
     p_metadata (f p) = p_metadata p \<Longrightarrow> p_author (f p) = p_author p \<Longrightarrow>
     (p_status p = PostPublished \<longrightarrow> p_slug (f p) = p_slug p) \<Longrightarrow>
     render E cfg (p_markdown (f p)) (given (ui_metadata inp) (p_metadata p)) = Inr (p_html (f p)) \<Longrightarrow>
     (\<forall>x. p_id (f x) = p_id x \<and> p_tenant (f x) = p_tenant x) \<Longrightarrow>
     (\<forall>x \<in> set (posts d). p_id x \<noteq> pid \<longrightarrow> p_tenant x = p_tenant p \<longrightarrow> p_slug x \<noteq> p_slug (f p)) \<Longrightarrow>
     (if p_status p = PostPublished
      then runs (purge (rw_tx E a) jid (tenant_of_actor a) (f p)) (row_becomes (rw_tx E a) pid f d) () d'
      else d' = row_becomes (rw_tx E a) pid f d) \<Longrightarrow>
     op_effect E cfg a op d d'"
| eff_transition: "op = (case st of PostPublished \<Rightarrow> OpPublish pid | PostDraft \<Rightarrow> OpUnpublish pid
       | PostArchived \<Rightarrow> OpArchive pid) \<Longrightarrow> can a CapPublishArchive \<Longrightarrow>
     find (post_at (rw_tx E a) pid) (posts d) = Some p \<Longrightarrow>
     (st = PostPublished \<longrightarrow> trim_space (p_markdown p) \<noteq> []) \<Longrightarrow>
     f p = restated E st (st = PostPublished) html p \<Longrightarrow>
     render E cfg (p_markdown p) (p_metadata p) = Inr html \<Longrightarrow>
     (\<forall>x. p_id (f x) = p_id x \<and> p_tenant (f x) = p_tenant x \<and> p_slug (f x) = p_slug x) \<Longrightarrow>
     runs (purge (rw_tx E a) jid (tenant_of_actor a) (f p)) (row_becomes (rw_tx E a) pid f d) () d' \<Longrightarrow>
     op_effect E cfg a op d d'"
| eff_delete: "op = OpDelete pid \<Longrightarrow> may_edit a p \<Longrightarrow>
     find (post_at (rw_tx E a) pid) (posts d) = Some p \<Longrightarrow>
     posts d' = del_rows (post_at (rw_tx E a) pid) (posts d) \<Longrightarrow> tenants d' = tenants d \<Longrightarrow>
     jobs d' = jobs d \<Longrightarrow> op_effect E cfg a op d d'"

inductive_cases op_effectE: "op_effect E cfg a op d d'"

lemma metadata_default: "render E cfg md (Some (case m of None \<Rightarrow> JObj [] | Some x \<Rightarrow> x)) = render E cfg md m"
  by (auto simp: render_def metadata_allows_external_images_def obj_get_def split: option.split)

lemma svc_InlD:
  "svc_create E cfg pid a inp d = (Inl e, d') \<Longrightarrow> d' = d"
  "svc_update E cfg jid a pid upd d = (Inl e, d') \<Longrightarrow> d' = d"
  "transition E cfg jid a pid st publishing d = (Inl e, d') \<Longrightarrow> d' = d"
  "svc_delete E a pid d = (Inl e, d') \<Longrightarrow> d' = d"
  by (auto simp: svc_create_def svc_update_def transition_def svc_delete_def and_then_def require_def Let_def
      dest: scoped_rw_InlD split: if_splits sum.splits prod.splits)

lemma void_InlD: "void m d = (Inl e, d') \<Longrightarrow> \<exists>e. m d = (Inl e, d')"
  by (auto simp: void_def and_then_def split: prod.splits sum.splits)

lemma transition_op_effect:
  assumes "transition E cfg jid a pid st publishing d = (Inr out, d')" "publishing = (st = PostPublished)"
    and "op = (case st of PostPublished \<Rightarrow> OpPublish pid | PostDraft \<Rightarrow> OpUnpublish pid | PostArchived \<Rightarrow> OpArchive pid)"
  shows "op_effect E cfg a op d d'"
  using assms(1)
proof (rule transition_effect)
  fix p html f
  assume "find (post_at (rw_tx E a) pid) (posts d) = Some p" "can a CapPublishArchive"
    "publishing \<longrightarrow> trim_space (p_markdown p) \<noteq> []" "render E cfg (p_markdown p) (p_metadata p) = Inr html"
    "f p = restated E st publishing html p" "out = f p"
    "\<forall>x. p_id (f x) = p_id x \<and> p_tenant (f x) = p_tenant x \<and> p_slug (f x) = p_slug x"
    "runs (purge (rw_tx E a) jid (tenant_of_actor a) out) (row_becomes (rw_tx E a) pid f d) () d'"
  then show ?thesis using assms(2)
    by (intro eff_transition [OF assms(3), where p = p and f = f and html = html and jid = jid]) simp_all
qed

lemma exec_op_effect:
  assumes "exec_op E cfg jid a op d = (r, d')"
  shows "op_effect E cfg a op d d'"
proof (cases r)
  case (Inl e)
  then have "d' = d" using assms
    by (cases op) (auto simp: svc_publish_def svc_unpublish_def svc_archive_def dest!: void_InlD dest: svc_InlD)
  then show ?thesis by (simp add: eff_none)
next
  case (Inr u)
  show ?thesis
  proof (cases op)
    case (OpCreate pid inp)
    with assms Inr obtain p where "svc_create E cfg pid a inp d = (Inr p, d')" by (auto simp: void_Inr)
    then show ?thesis
    proof (rule svc_create_effect)
      fix slug html
      assume *: "can a CapCreateDraft" "tenant_of_actor a \<noteq> nil_uuid" "d' = d\<lparr>posts := posts d @ [p]\<rparr>"
        "\<forall>x \<in> set (posts d). p_id x \<noteq> pid" "render E cfg (ci_markdown inp) (ci_metadata inp) = Inr html"
        "\<forall>x \<in> set (posts d). p_tenant x = tenant_of_actor a \<longrightarrow> p_slug x \<noteq> slug"
        "p = \<lparr>p_id = pid, p_tenant = tenant_of_actor a, p_author = a_user a, p_slug = slug,
           p_title = ci_title inp, p_excerpt = ci_excerpt inp, p_markdown = ci_markdown inp,
           p_html = html, p_status = PostDraft, p_published = None,
           p_metadata = Some (case ci_metadata inp of None \<Rightarrow> JObj [] | Some m \<Rightarrow> m),
           p_created = e_pgnow E, p_updated = e_pgnow E\<rparr>"
      show ?thesis unfolding *(3) by (rule eff_create [OF OpCreate *(1)]) (use * in \<open>simp_all add: metadata_default\<close>)
    qed
  next
    case (OpUpdate pid inp)
    with assms Inr obtain out where "svc_update E cfg jid a pid inp d = (Inr out, d')" by (auto simp: void_Inr)
    then show ?thesis
    proof (rule svc_update_effect)
      fix p slug html f
      assume *: "find (post_at (rw_tx E a) pid) (posts d) = Some p"
        "can a CapEditOwnDraft" "owns_post a (p_author p)" "plain_author a \<longrightarrow> p_status p = PostDraft"
        "new_slug E a d p (ui_slug inp) slug" "f p = edited E inp slug html p" "out = f p"
        "render E cfg (given (ui_markdown inp) (p_markdown p)) (given (ui_metadata inp) (p_metadata p)) = Inr html"
        "\<forall>x. p_id (f x) = p_id x \<and> p_tenant (f x) = p_tenant x"
        "\<forall>x \<in> set (posts d). p_id x \<noteq> pid \<longrightarrow> p_tenant x = p_tenant p \<longrightarrow> p_slug x \<noteq> slug"
        "if p_status p = PostPublished
         then runs (purge (rw_tx E a) jid (tenant_of_actor a) out) (row_becomes (rw_tx E a) pid f d) () d'
         else d' = row_becomes (rw_tx E a) pid f d"
      have sl: "p_status p = PostPublished \<longrightarrow> slug = p_slug p"
        using *(5) by (auto simp: new_slug_def split: option.splits)
      show ?thesis
        by (rule eff_edit [OF OpUpdate, where p = p and f = f and jid = jid])
          (use * sl in \<open>simp_all add: may_edit_def edited_def split: if_splits\<close>)
    qed
  next
    case (OpDelete pid)
    then have "svc_delete E a pid d = (Inr u, d')" using assms Inr by simp
    then show ?thesis
      by (rule svc_delete_effect) (rule eff_delete [OF OpDelete]; simp add: may_edit_def)
  qed (use assms Inr in \<open>auto simp: void_Inr svc_publish_def svc_unpublish_def svc_archive_def
         intro: transition_op_effect\<close>)
qed

section \<open>Isolation, confinement and frozen slugs\<close>

lemma row_becomes_sel [simp]:
  "posts (row_becomes q pid f d) = upd_rows (post_at q pid) f (posts d)"
  "tenants (row_becomes q pid f d) = tenants d" "jobs (row_becomes q pid f d) = jobs d"
  by (simp_all add: row_becomes_def)

lemma purge_posts: "runs (purge q jid t p) d u d' \<Longrightarrow> posts d' = posts d"
  by (erule purge_effect) simp

lemma purge_other_tenants:
  "runs (purge q jid t p) d u d' \<Longrightarrow> filter (\<lambda>b. t_id b \<noteq> t) (tenants d') = filter (\<lambda>b. t_id b \<noteq> t) (tenants d)"
  by (erule purge_effect) (auto simp: purged_tenants_def bumped_def intro: filter_upd_rows)

lemma scope_platform: "sc_platform (scope_from_actor a) \<longleftrightarrow> a_platform a \<and> a_tenant a = None"
  by (auto simp: scope_from_actor_def split: option.split)

lemma visible_own:
  "\<not> (a_platform a \<and> a_tenant a = None) \<Longrightarrow> visible (tx_of E ro (scope_from_actor a)) t \<Longrightarrow> t = tenant_of_actor a"
  by (auto simp: visible_scope scope_platform)

lemma effect_isolated:
  assumes "op_effect E cfg a op d d'" "\<not> (a_platform a \<and> a_tenant a = None)"
  shows "filter (\<lambda>p. p_tenant p \<noteq> tenant_of_actor a) (posts d') = filter (\<lambda>p. p_tenant p \<noteq> tenant_of_actor a) (posts d) \<and>
    filter (\<lambda>b. t_id b \<noteq> tenant_of_actor a) (tenants d') = filter (\<lambda>b. t_id b \<noteq> tenant_of_actor a) (tenants d)"
proof -
  have own: "post_at (rw_tx E a) pid x \<Longrightarrow> p_tenant x = tenant_of_actor a" for pid x
    using visible_own [OF assms(2)] unfolding post_at_def by blast
  have upd: "filter (\<lambda>p. p_tenant p \<noteq> tenant_of_actor a) (upd_rows (post_at (rw_tx E a) pid) f (posts d)) =
      filter (\<lambda>p. p_tenant p \<noteq> tenant_of_actor a) (posts d)"
    if "\<And>x. p_tenant (f x) = p_tenant x" for pid f
    by (rule filter_upd_rows) (use that own in auto)
  have del: "filter (\<lambda>p. p_tenant p \<noteq> tenant_of_actor a) (del_rows (post_at (rw_tx E a) pid) (posts d)) =
      filter (\<lambda>p. p_tenant p \<noteq> tenant_of_actor a) (posts d)" for pid
    by (rule filter_del_rows) (use own in auto)
  show ?thesis
    using assms(1)
  proof cases
    case (eff_edit pid inp p f jid)
    then show ?thesis
      by (auto simp: upd purge_posts dest: purge_other_tenants split: if_splits)
  next
    case (eff_transition st pid p f html jid)
    then show ?thesis by (auto simp: upd purge_posts dest: purge_other_tenants)
  qed (auto simp: del)
qed

text \<open>With unique ids a visible id is one row.\<close>

lemma post_at_one:
  assumes "distinct (map p_id (posts d))" "find (post_at q pid) (posts d) = Some p" "x \<in> set (posts d)"
  shows "post_at q pid x \<longleftrightarrow> x = p"
  using assms find_SomeD [OF assms(2)] by (auto simp: post_at_def dest: key_unique)

lemma effect_keeps_row:
  assumes "op_effect E cfg a op d d'" "distinct (map p_id (posts d))" "x \<in> set (posts d)"
    and "\<not> may_edit a x" "\<not> can a CapPublishArchive"
  shows "x \<in> set (posts d')"
  using assms(1)
proof cases
  case (eff_edit pid inp p f jid)
  then have "\<not> post_at (rw_tx E a) pid x" using post_at_one [OF assms(2) _ assms(3)] assms(4) by auto
  then show ?thesis using eff_edit assms(3)
    by (auto simp: purge_posts intro: in_upd_rows_kept split: if_splits)
next
  case (eff_delete pid p)
  then have "\<not> post_at (rw_tx E a) pid x" using post_at_one [OF assms(2) _ assms(3)] assms(4) by auto
  then show ?thesis using eff_delete assms(3) by simp
qed (use assms in auto)

lemma effect_new_row:
  assumes "op_effect E cfg a op d d'" "distinct (map p_id (posts d))" "x \<in> set (posts d')"
    and "\<not> can a CapPublishArchive" "p_status x \<noteq> PostDraft" "plain_author a"
  shows "x \<in> set (posts d)"
  using assms(1)
proof cases
  case (eff_edit pid inp p f jid)
  then have d: "p_status p = PostDraft" using assms(6) by (simp add: may_edit_def)
  with eff_edit have "d' = row_becomes (rw_tx E a) pid f d" by simp
  with assms(3) have "x \<in> set (upd_rows (post_at (rw_tx E a) pid) f (posts d))" by simp
  then show ?thesis
  proof (cases rule: in_upd_rowsE)
    case (changed r)
    then have "r = p" using post_at_one [OF assms(2) eff_edit(3)] by simp
    then show ?thesis using changed d eff_edit assms(5) by simp
  qed
qed (use assms in auto)

lemma effect_slug:
  assumes "op_effect E cfg a op d d'" "distinct (map p_id (posts d))"
    and "p \<in> set (posts d)" "p_status p = PostPublished" "p' \<in> set (posts d')" "p_id p' = p_id p"
  shows "p_slug p' = p_slug p"
proof -
  have one: "p' = p" if "p' \<in> set (posts d)" using assms(2,3,6) that by (auto dest: key_unique)
  have upd: "p_slug p' = p_slug p"
    if "p' \<in> set (upd_rows (post_at (rw_tx E a) pid) f (posts d))"
      "\<forall>x. p_id (f x) = p_id x" "find (post_at (rw_tx E a) pid) (posts d) = Some r"
      "p_status r = PostPublished \<longrightarrow> p_slug (f r) = p_slug r" for pid f r
    using that(1)
  proof (cases rule: in_upd_rowsE)
    case (changed x)
    then have "x = r" using post_at_one [OF assms(2) that(3)] by simp
    moreover have "x = p" using changed that(2) assms(2,3,6) by (auto dest: key_unique)
    ultimately show ?thesis using changed that(4) assms(4) by simp
  qed (use one in simp)
  show ?thesis
    using assms(1)
  proof cases
    case (eff_edit pid inp r f jid)
    then have "posts d' = upd_rows (post_at (rw_tx E a) pid) f (posts d)"
      by (auto simp: purge_posts split: if_splits)
    then show ?thesis using upd [of pid f r] eff_edit assms(5) by auto
  next
    case (eff_transition st pid r f html jid)
    then have "posts d' = upd_rows (post_at (rw_tx E a) pid) f (posts d)" by (simp add: purge_posts)
    moreover have "p_slug (f r) = p_slug r" using eff_transition(7) by blast
    ultimately show ?thesis using upd [of pid f r] eff_transition(3,7) assms(5) by simp
  next
    case eff_none
    then show ?thesis using one assms(5) by simp
  next
    case (eff_create pid inp n)
    then have "p' \<in> set (posts d)" using assms(3,5,6) by auto
    then show ?thesis using one by simp
  next
    case (eff_delete pid r)
    then show ?thesis using one assms(5) by simp
  qed
qed

section \<open>The table under requests\<close>

text \<open>
  Every request may carry its own clock readings; the other parameters of the environment are fixed.
  \<open>ok\<close> restricts the requests that are considered.
\<close>

inductive post_step :: "env \<Rightarrow> posts_config \<Rightarrow> (post_op \<Rightarrow> bool) \<Rightarrow> db \<Rightarrow> db \<Rightarrow> bool" for E cfg ok where
  post_request: "exec_op (at_time E now pgnow) cfg jid a op d = (r, d') \<Longrightarrow> ok op \<Longrightarrow> post_step E cfg ok d d'"

definition posts_start :: "db \<Rightarrow> bool" where
  "posts_start d \<longleftrightarrow> posts d = []"

definition posts_ok :: "db \<Rightarrow> bool" where
  "posts_ok d \<longleftrightarrow> distinct (map p_id (posts d)) \<and> distinct (map (\<lambda>p. (p_tenant p, p_slug p)) (posts d)) \<and>
     (\<forall>p \<in> set (posts d). p_status p = PostPublished \<longleftrightarrow> p_published p \<noteq> None)"

text \<open>The stored HTML is the rendering of the stored markdown under the stored metadata.\<close>

definition html_current :: "env \<Rightarrow> posts_config \<Rightarrow> db \<Rightarrow> bool" where
  "html_current E cfg d \<longleftrightarrow> distinct (map p_id (posts d)) \<and>
     (\<forall>p \<in> set (posts d). render E cfg (p_markdown p) (p_metadata p) = Inr (p_html p))"

definition keeps_metadata :: "post_op \<Rightarrow> bool" where
  "keeps_metadata op = (case op of OpUpdate pid inp \<Rightarrow> ui_metadata inp = None | _ \<Rightarrow> True)"

lemma clock_fields [simp]:
  "lower_of (at_time E n m) = lower_of E"
  "safe_link_url (at_time E n m) = safe_link_url E" "safe_image_url (at_time E n m) = safe_image_url E"
  "image_host_allowed (at_time E n m) = image_host_allowed E" "allowed_attr (at_time E n m) = allowed_attr E"
  by (intro ext, simp add: safe_link_url_def safe_image_url_def image_host_allowed_def allowed_attr_def Let_def
      cong: option.case_cong if_cong)+

lemma img_src_clock [simp]: "img_src_allowed (at_time E n m) hosts attrs = img_src_allowed E hosts attrs"
proof (induction attrs)
  case (Cons a attrs)
  then show ?case by (cases a) (simp cong: if_cong)
qed simp

lemma append_clock [simp]: "append_sanitized (at_time E n m) hosts x = append_sanitized E hosts x"
proof (induction E hosts x rule: append_sanitized.induct)
  case (3 E hosts tag attrs cs)
  then show ?case by (auto cong: map_cong)
qed auto

lemma render_clock [simp]: "render (at_time E n m) cfg = render E cfg"
proof -
  have "sanitized_tree (at_time E n m) = sanitized_tree E"
    by (rule ext)+ (simp add: sanitized_tree_def cong: map_cong)
  then show ?thesis
    by (intro ext) (simp add: render_def render_gfm_hosts_def sanitize_def cong: option.case_cong if_cong)
qed

lemma posts_ok_step:
  assumes "posts_ok d" "post_step E cfg ok d d'"
  shows "posts_ok d'"
proof -
  from assms(2) obtain n m a op where eff: "op_effect (at_time E n m) cfg a op d d'"
    by cases (blast dest: exec_op_effect)
  have ids: "distinct (map p_id (posts d))" and slugs: "distinct (map (\<lambda>p. (p_tenant p, p_slug p)) (posts d))"
    and pub: "\<forall>p \<in> set (posts d). p_status p = PostPublished \<longleftrightarrow> p_published p \<noteq> None"
    using assms(1) by (auto simp: posts_ok_def)
  let ?q = "rw_tx (at_time E n m) a"
  have upd: "posts_ok d'"
    if "posts d' = upd_rows (post_at ?q pid) f (posts d)" "find (post_at ?q pid) (posts d) = Some p"
      "\<forall>x. p_id (f x) = p_id x \<and> p_tenant (f x) = p_tenant x"
      "\<forall>x \<in> set (posts d). p_id x \<noteq> pid \<longrightarrow> p_tenant x = p_tenant p \<longrightarrow> p_slug x \<noteq> p_slug (f p)"
      "p_status (f p) = PostPublished \<longleftrightarrow> p_published (f p) \<noteq> None" for pid f p
  proof -
    note one = post_at_one [OF ids that(2)]
    have pid: "p_id p = pid" "p \<in> set (posts d)" using find_SomeD [OF that(2)] by (auto simp: post_at_def)
    have "distinct (map (\<lambda>p. (p_tenant p, p_slug p)) (posts d'))"
      unfolding that(1)
    proof (rule distinct_upd_one [OF slugs _ one])
      show "distinct (posts d)" using ids by (simp add: distinct_map)
      show "(p_tenant x, p_slug x) \<noteq> (p_tenant (f p), p_slug (f p))" if "x \<in> set (posts d)" "x \<noteq> p" for x
        using that \<open>\<forall>x \<in> set (posts d). p_id x \<noteq> pid \<longrightarrow> _ x\<close> pid ids \<open>\<forall>x. p_id (f x) = p_id x \<and> _ x\<close>
        by (auto dest: key_unique)
    qed
    moreover have "distinct (map p_id (posts d'))"
      unfolding that(1) using ids that(3) by (simp add: map_upd_rows)
    moreover have "\<forall>x \<in> set (posts d'). p_status x = PostPublished \<longleftrightarrow> p_published x \<noteq> None"
      unfolding that(1) using pub one that(5) by (auto elim!: in_upd_rowsE)
    ultimately show ?thesis by (simp add: posts_ok_def)
  qed
  show ?thesis
    using eff
  proof cases
    case (eff_create pid inp p)
    then show ?thesis using ids slugs pub by (auto simp: posts_ok_def)
  next
    case (eff_edit pid inp p f jid)
    have "posts d' = upd_rows (post_at ?q pid) f (posts d)"
      using eff_edit by (auto simp: purge_posts split: if_splits)
    moreover have "p \<in> set (posts d)" using find_SomeD [OF eff_edit(3)] by simp
    ultimately show ?thesis using upd [of pid f p] eff_edit pub by auto
  next
    case (eff_transition st pid p f html jid)
    have p: "p_id p = pid" "p \<in> set (posts d)" using find_SomeD [OF eff_transition(3)] by (auto simp: post_at_def)
    have "\<forall>x \<in> set (posts d). p_id x \<noteq> pid \<longrightarrow> p_tenant x = p_tenant p \<longrightarrow> p_slug x \<noteq> p_slug (f p)"
      using slugs p eff_transition(7) by (auto dest: key_unique)
    then show ?thesis
      using upd [of pid f p] eff_transition by (auto simp: purge_posts restated_def)
  next
    case (eff_delete pid p)
    then show ?thesis using ids slugs pub by (auto simp: posts_ok_def intro: distinct_map_del_rows)
  qed (use assms in simp)
qed

interpretation post_table: invariant_system posts_start "post_step E cfg ok" posts_ok
  by unfold_locales (simp add: posts_start_def posts_ok_def, rule posts_ok_step)

lemma html_current_step:
  assumes "html_current E cfg d" "post_step E cfg keeps_metadata d d'"
  shows "html_current E cfg d'"
proof -
  from assms(2) obtain n m a op where eff: "op_effect (at_time E n m) cfg a op d d'" and op: "keeps_metadata op"
    by cases (blast dest: exec_op_effect)
  let ?q = "rw_tx (at_time E n m) a"
  have ids: "distinct (map p_id (posts d))"
    and cur: "\<And>p. p \<in> set (posts d) \<Longrightarrow> render E cfg (p_markdown p) (p_metadata p) = Inr (p_html p)"
    using assms(1) by (auto simp: html_current_def)
  have upd: "html_current E cfg d'"
    if "posts d' = upd_rows (post_at ?q pid) f (posts d)" "find (post_at ?q pid) (posts d) = Some p"
      "\<forall>x. p_id (f x) = p_id x" "render E cfg (p_markdown (f p)) (p_metadata (f p)) = Inr (p_html (f p))" for pid f p
    using that ids cur post_at_one [OF ids that(2)]
    by (auto simp: html_current_def map_upd_rows elim!: in_upd_rowsE)
  show ?thesis
    using eff
  proof cases
    case (eff_create pid inp p)
    then show ?thesis using assms(1) by (auto simp: html_current_def)
  next
    case (eff_edit pid inp p f jid)
    then have "posts d' = upd_rows (post_at ?q pid) f (posts d)"
      by (auto simp: purge_posts split: if_splits)
    then show ?thesis using upd [of pid f p] eff_edit op by (auto simp: keeps_metadata_def given_def)
  next
    case (eff_transition st pid p f html jid)
    then show ?thesis using upd [of pid f p] by (auto simp: purge_posts restated_def)
  next
    case (eff_delete pid p)
    then show ?thesis using assms(1) by (auto simp: html_current_def intro: distinct_map_del_rows)
  qed (use assms in simp)
qed

interpretation html_table: invariant_system posts_start "post_step E cfg keeps_metadata" "html_current E cfg"
  by unfold_locales (simp add: posts_start_def html_current_def, rule html_current_step)

section \<open>The public view and the tenant's version\<close>

lemma purge_version:
  assumes "runs (purge q jid t p) d u d'"
  shows "\<exists>v. version_of t d = Some v \<and> version_of t d' = Some (v + 1)"
  using assms
proof (rule purge_effect)
  fix b js
  assume "find (\<lambda>x. t_id x = t) (tenants d) = Some b"
    "d' = d\<lparr>tenants := purged_tenants q t d, jobs := jobs d @ js\<rparr>"
  then show ?thesis
    by (simp add: version_of_def purged_tenants_def find_upd_same bumped_def)
qed

lemma view_other:
  assumes "distinct (map p_id (posts d))" "find (post_at q pid) (posts d) = Some p"
    and "p_tenant (f p) = p_tenant p"
    and "t \<noteq> p_tenant p \<or> (p_status p \<noteq> PostPublished \<and> p_status (f p) \<noteq> PostPublished)"
  shows "filter (\<lambda>p. p_tenant p = t \<and> p_status p = PostPublished) (upd_rows (post_at q pid) f (posts d)) = published_view t d"
  unfolding published_view_def
  by (rule filter_upd_rows) (use assms post_at_one [OF assms(1,2)] in auto)

lemma effect_version:
  assumes "op_effect E cfg a op d d'" "distinct (map p_id (posts d))" "\<forall>pid. op \<noteq> OpDelete pid"
    and "\<not> has_tenant d nil_uuid" "published_view t d' \<noteq> published_view t d"
  shows "\<exists>v. version_of t d = Some v \<and> version_of t d' = Some (v + 1)"
proof -
  let ?q = "rw_tx E a"
  have purged: ?thesis
    if pu: "runs (purge ?q jid (tenant_of_actor a) x) (row_becomes ?q pid f d) () d'"
      and p: "find (post_at ?q pid) (posts d) = Some p" "p_tenant (f p) = p_tenant p" for jid pid f p x
  proof -
    from purge_version [OF pu] obtain v where v: "version_of (tenant_of_actor a) d = Some v"
      "version_of (tenant_of_actor a) d' = Some (v + 1)" by (auto simp: version_of_def)
    have "visible ?q (p_tenant p)" using find_SomeD [OF p(1)] by (simp add: post_at_def)
    moreover have "has_tenant d (tenant_of_actor a)"
      using v(1) by (auto simp: version_of_def has_tenant_def dest: find_SomeD)
    then have "\<not> (a_platform a \<and> a_tenant a = None)"
      using assms(4) by (cases "a_tenant a") (auto simp: scope_from_actor_def)
    ultimately have "p_tenant p = tenant_of_actor a" using visible_own by blast
    moreover have "t = p_tenant p"
      using assms(5) view_other [where f = f, OF assms(2) p] purge_posts [OF pu] by (auto simp: published_view_def)
    ultimately show ?thesis using v by simp
  qed
  show ?thesis
    using assms(1)
  proof cases
    case eff_none
    then show ?thesis using assms(5) by simp
  next
    case (eff_create pid inp p)
    then show ?thesis using assms(5) by (simp add: published_view_def)
  next
    case (eff_edit pid inp p f jid)
    show ?thesis
    proof (cases "p_status p = PostPublished")
      case True
      then show ?thesis using eff_edit purged [of jid "f p" pid f p] by simp
    next
      case False
      then show ?thesis
        using eff_edit assms(5) view_other [where f = f, OF assms(2) eff_edit(3)]
        by (simp add: published_view_def)
    qed
  next
    case (eff_transition st pid p f html jid)
    have "p_tenant (f p) = p_tenant p" using eff_transition(7) by blast
    then show ?thesis using purged [of jid "f p" pid f p] eff_transition(3,8) by blast
  next
    case (eff_delete pid p)
    then show ?thesis using assms(3) by simp
  qed
qed

lemma list_summaries_rows:
  assumes "runs (list_post_summaries q status author) d ss d'"
  shows "d' = d \<and> (\<forall>s \<in> set ss. \<exists>p \<in> set (posts d). s = post_summary_of p \<and> visible q (p_tenant p) \<and>
    (\<forall>u. author = Some u \<longrightarrow> p_author p = u))"
  using assms unfolding list_post_summaries_def runs_read
  by (auto simp: Let_def split: option.splits sum.splits) blast+

lemma list_rows:
  assumes "svc_list E a f d = (Inr ss, d')"
  shows "d' = d \<and> (\<forall>s \<in> set ss. visible (tx_of E True (scope_from_actor a)) (ps_tenant s) \<and>
    (plain_author a \<longrightarrow> ps_author s = a_user a))"
proof -
  from assms have "runs (list_post_summaries (tx_of E True (scope_from_actor a)) (lf_status f)
      (if plain_author a then Some (a_user a) else lf_author f)) d ss d'"
    unfolding svc_list_def act_require Let_def scoped_runs by blast
  from list_summaries_rows [OF this] show ?thesis by (fastforce simp: post_summary_of_def)
qed

lemma create_ok:
  assumes "a_tenant a = Some t" "t \<noteq> nil_uuid" "has_tenant d t" "has_user d (a_user a)"
    and "render E cfg (ci_markdown inp) (ci_metadata inp) = Inr html"
    and "\<forall>x \<in> set (posts d). p_id x \<noteq> pid" "length (filter (\<lambda>p. p_tenant p = t) (posts d)) < 10000"
  shows "\<exists>p. svc_create E cfg pid a inp d = (Inr p, d\<lparr>posts := posts d @ [p]\<rparr>) \<and>
    p_id p = pid \<and> p_tenant p = t \<and> p_author p = a_user a \<and> p_status p = PostDraft \<and>
    p_slug p \<in> set (slug_candidates E (if ci_slug inp = [] then ci_title inp else ci_slug inp))"
proof -
  let ?want = "if ci_slug inp = [] then ci_title inp else ci_slug inp"
  have sc: "scope_from_actor a = \<lparr>sc_tenant = t, sc_platform = False\<rparr>" by (rule scope_tenant_actor [OF assms(1)])
  have vis: "visible (rw_tx E a) t" using assms(2) by (simp add: sc visible_scope)
  obtain slug where s: "find (\<lambda>s. \<not> slug_taken (rw_tx E a) t d s) (slug_candidates E ?want) = Some slug"
    using candidate_free [OF assms(7)] by blast
  then have free: "slug \<in> set (slug_candidates E ?want)" "\<not> slug_taken (rw_tx E a) t d slug"
    by (auto dest: find_SomeD)
  have can: "can a CapCreateDraft"
    using assms(1) by (simp add: can_def)
  define p where "p = post_row (rw_tx E a) \<lparr>p_id = pid, p_tenant = t, p_author = a_user a, p_slug = slug,
    p_title = ci_title inp, p_excerpt = ci_excerpt inp, p_markdown = ci_markdown inp, p_html = html,
    p_status = PostDraft, p_published = None, p_metadata = ci_metadata inp, p_created = 0, p_updated = 0\<rparr>"
  have "\<forall>x \<in> set (posts d). \<not> (p_id x = pid \<or> p_tenant x = t \<and> p_slug x = slug)"
    using assms(6) free(2) vis by (auto simp: slug_taken_def)
  then have "svc_create E cfg pid a inp d = (Inr p, d\<lparr>posts := posts d @ [p]\<rparr>)"
    unfolding svc_create_def act_require
    using can vis assms(2-5) s
    by (simp add: sc act_lift scoped_rw_runs runs_then_unique runs_handle_unique create_post_def runs_write p_def)
  moreover have "p_id p = pid" "p_tenant p = t" "p_author p = a_user a" "p_status p = PostDraft" "p_slug p = slug"
    by (simp_all add: p_def post_row_def)
  ultimately show ?thesis using free(1) by blast
qed

section \<open>Properties\<close>


text \<open>
  Tenant isolation of reads: a post that Get returns and every summary that List returns belong to
  the actor's tenant; for a plain author they are the author's own, whatever filter is asked for; and
  reading changes nothing.
\<close>

theorem read_isolation:
  assumes "\<not> (a_platform a \<and> a_tenant a = None)"
  shows "(svc_get E a pid d = (Inr p, d') \<longrightarrow> p \<in> set (posts d) \<and> p_id p = pid \<and> p_tenant p = tenant_of_actor a \<and>
       (plain_author a \<longrightarrow> p_author p = a_user a) \<and> d' = d) \<and>
    (svc_list E a f d = (Inr ss, d') \<longrightarrow> (\<forall>s \<in> set ss. ps_tenant s = tenant_of_actor a \<and>
       (plain_author a \<longrightarrow> ps_author s = a_user a)) \<and> d' = d)"
proof -
  have vis: "visible (tx_of E ro (scope_from_actor a)) t \<Longrightarrow> t = tenant_of_actor a" for ro t
    by (rule visible_own [OF assms])
  have "p \<in> set (posts d) \<and> p_id p = pid \<and> p_tenant p = tenant_of_actor a \<and>
      (plain_author a \<longrightarrow> p_author p = a_user a) \<and> d' = d" if "svc_get E a pid d = (Inr p, d')"
    using that unfolding svc_get_effect
    by (auto simp: post_at_def owns_post_def dest!: find_SomeD dest: vis)
  moreover have "(\<forall>s \<in> set ss. ps_tenant s = tenant_of_actor a \<and>
      (plain_author a \<longrightarrow> ps_author s = a_user a)) \<and> d' = d" if "svc_list E a f d = (Inr ss, d')"
    using list_rows [OF that] vis by fastforce
  ultimately show ?thesis by blast
qed

text \<open>
  C10. A plain author touches only own drafts: in a table with unique ids, every post that is not a
  draft of the author's own is still there, unchanged, after any request of the author, and the
  request leaves no post that is not a draft and was not there before.
\<close>

theorem author_confined:
  assumes "exec_op E cfg jid a op d = (r, d')" "plain_author a" "distinct (map p_id (posts d))"
  shows "(\<forall>p \<in> set (posts d). p_author p \<noteq> a_user a \<or> p_status p \<noteq> PostDraft \<longrightarrow> p \<in> set (posts d')) \<and>
    (\<forall>p \<in> set (posts d'). p_status p \<noteq> PostDraft \<longrightarrow> p \<in> set (posts d))"
proof -
  note eff = exec_op_effect [OF assms(1)]
  have no: "\<not> can a CapPublishArchive" using plain_author_caps [OF assms(2)] by blast
  have "\<not> may_edit a p" if "p_author p \<noteq> a_user a \<or> p_status p \<noteq> PostDraft" for p
    using that assms(2) by (auto simp: may_edit_def owns_post_def)
  then show ?thesis
    using effect_keeps_row [OF eff assms(3)] effect_new_row [OF eff assms(3)] no assms(2) by blast
qed

text \<open>
  C13. The table stays well-formed: in every table reachable from an empty one by any requests of any
  actors, ids are unique, no two posts of a tenant share a slug, and exactly the published posts
  have a publication time.
\<close>

theorem posts_well_formed:
  assumes "reachable posts_start (post_step E cfg (\<lambda>op. True)) d"
  shows "distinct (map p_id (posts d)) \<and> distinct (map (\<lambda>p. (p_tenant p, p_slug p)) (posts d)) \<and>
    (\<forall>p \<in> set (posts d). p_status p = PostPublished \<longleftrightarrow> p_published p \<noteq> None)"
  using post_table.reachable_inv [OF assms] by (simp add: posts_ok_def)

text \<open>
  The slug of a published post is frozen: one request, of any actor, leaves it as it is for as
  long as the post exists.
\<close>

theorem published_slug_frozen:
  assumes "exec_op E cfg jid a op d = (r, d')" "distinct (map p_id (posts d))"
    and "p \<in> set (posts d)" "p_status p = PostPublished" "p' \<in> set (posts d')" "p_id p' = p_id p"
  shows "p_slug p' = p_slug p"
  using exec_op_effect [OF assms(1)] assms(2-) by (rule effect_slug)


text \<open>
  A delete escapes the version: deleting a post, published or not, changes no tenant row and
  enqueues no purge, so the public list changes under an unchanged content version.
\<close>

theorem delete_keeps_version:
  assumes "exec_op E cfg jid a (OpDelete pid) d = (Inr u, d')" "distinct (map p_id (posts d))"
    and "p \<in> set (posts d)" "p_id p = pid" "p_status p = PostPublished"
  shows "published_view (p_tenant p) d' \<noteq> published_view (p_tenant p) d \<and>
    version_of (p_tenant p) d' = version_of (p_tenant p) d \<and> jobs d' = jobs d"
proof -
  from assms(1) have "svc_delete E a pid d = (Inr u, d')" by simp
  then obtain r where r: "find (post_at (rw_tx E a) pid) (posts d) = Some r"
    "posts d' = del_rows (post_at (rw_tx E a) pid) (posts d)" "tenants d' = tenants d" "jobs d' = jobs d"
    by (rule svc_delete_effect)
  have "r = p" using find_SomeD [OF r(1)] assms(2-4) by (auto simp: post_at_def dest: key_unique)
  then have "p \<notin> set (posts d')" using find_SomeD [OF r(1)] r(2) by simp
  then have "p \<notin> set (published_view (p_tenant p) d')" "p \<in> set (published_view (p_tenant p) d)"
    using assms(3,5) by (auto simp: published_view_def)
  then show ?thesis using r by (auto simp: version_of_def)
qed

text \<open>
  C28. Stored HTML is current: as long as no request patches the metadata, the content_html of every
  post in a reachable table is the rendering of its markdown under its metadata.
\<close>

theorem html_in_sync:
  assumes "reachable posts_start (post_step E cfg keeps_metadata) d" "p \<in> set (posts d)"
  shows "render E cfg (p_markdown p) (p_metadata p) = Inr (p_html p)"
  using html_table.reachable_inv [OF assms(1)] assms(2) by (simp add: html_current_def)

text \<open>
  A metadata patch is lost: an update that carries new metadata renders the HTML under it, and
  leaves the metadata column as it was.
\<close>

theorem metadata_patch_lost:
  assumes "svc_update E cfg jid a pid inp d = (Inr out, d')" "ui_metadata inp = Some m"
  shows "\<exists>p \<in> set (posts d). p_id p = pid \<and> p_metadata out = p_metadata p \<and>
    render E cfg (p_markdown out) m = Inr (p_html out)"
  using assms(1)
proof (rule svc_update_effect)
  fix p slug html f
  assume "find (post_at (rw_tx E a) pid) (posts d) = Some p" "f p = edited E inp slug html p" "out = f p"
    "render E cfg (given (ui_markdown inp) (p_markdown p)) (given (ui_metadata inp) (p_metadata p)) = Inr html"
  then show ?thesis
    using assms(2) find_SomeD [of "post_at (rw_tx E a) pid" "posts d" p]
    by (auto simp: edited_def post_at_def given_def intro!: bexI [of _ p])
qed

text \<open>
  Derived slugs are valid and stable: \<open>deriveSlug\<close> of any title is a non-empty slug of lower-case
  letters, digits and single inner hyphens, of at most 63 bytes, that the tenant slug pattern
  accepts; deriving again gives the same slug.
\<close>

theorem derive_slug_valid:
  "valid_slug (derive_slug E title) \<and> length (derive_slug E title) \<le> 63 \<and>
   single_dashes (derive_slug E title) \<and> derive_slug E (derive_slug E title) = derive_slug E title"
  using derive_slug_shape [of E title] slug_shape_valid slug_shape_fixed
  by (auto simp: slug_shape_def)

text \<open>
  Creating a post succeeds: an actor with a tenant and any role, in a tenant of fewer than 10000
  posts, gets a new draft of theirs whose slug is the derived slug or the derived slug with a number
  from 2 to 10000, and which is the last row of the table.
\<close>

theorem create_succeeds:
  assumes "a_tenant a = Some t" "t \<noteq> nil_uuid" "has_tenant d t" "has_user d (a_user a)"
    and "render E cfg (ci_markdown inp) (ci_metadata inp) = Inr html"
    and "\<forall>x \<in> set (posts d). p_id x \<noteq> pid" "length (filter (\<lambda>p. p_tenant p = t) (posts d)) < 10000"
  shows "\<exists>p. svc_create E cfg pid a inp d = (Inr p, d\<lparr>posts := posts d @ [p]\<rparr>) \<and>
    p_id p = pid \<and> p_tenant p = t \<and> p_author p = a_user a \<and> p_status p = PostDraft \<and>
    p_slug p \<in> set (slug_candidates E (if ci_slug inp = [] then ci_title inp else ci_slug inp))"
  using assms by (rule create_ok)

text \<open>
  Other tenants' posts do not exist: when no post with the id is visible to the actor, because
  there is none or because it belongs to another tenant, Get, Update, Delete and the three
  transitions all fail with ErrNotFound and change nothing, for an actor who holds the capability.
\<close>

theorem hidden_post_not_found:
  assumes "\<forall>p \<in> set (posts d). p_id p = pid \<longrightarrow> \<not> visible (rw_tx E a) (p_tenant p)"
    and "can a CapEditOwnDraft" "can a CapPublishArchive"
  shows "svc_get E a pid d = (Inl ErrPostNotFound, d) \<and>
    svc_update E cfg jid a pid inp d = (Inl ErrPostNotFound, d) \<and>
    svc_delete E a pid d = (Inl ErrPostNotFound, d) \<and>
    svc_publish E cfg jid a pid d = (Inl ErrPostNotFound, d) \<and>
    svc_unpublish E cfg jid a pid d = (Inl ErrPostNotFound, d) \<and>
    svc_archive E cfg jid a pid d = (Inl ErrPostNotFound, d)"
proof -
  have none: "find (post_at (tx_of E ro (scope_from_actor a)) pid) (posts d) = None" for ro
    using assms(1) by (auto simp: find_None_iff post_at_def visible_def)
  have get: "on_error ErrNoRows ErrPostNotFound (get_post_by_id (tx_of E ro (scope_from_actor a)) pid)
      \<lparr>t_db = d, t_aborted = False\<rparr> = (Inl ErrPostNotFound, \<lparr>t_db = d, t_aborted = False\<rparr>)" for ro
    by (simp add: get_post_by_id_def and_then_def handle_def none)
  have "svc_get E a pid d = (Inl ErrPostNotFound, d)"
    by (simp add: svc_get_def and_then_def handle_def scoped_def run_tx_def get_post_by_id_def none)
  then show ?thesis
    using assms(2,3) get [of False]
    by (simp add: svc_update_def svc_delete_def svc_publish_def svc_unpublish_def svc_archive_def
        transition_def Let_def scoped_rw_def run_tx_def and_then_Inl)
qed

text \<open>
  A slug patch never keeps the slug: an update that names a slug, even the post's own, ends with a
  different one, because the probe counts the post itself as taking it.
\<close>

theorem slug_patch_renames:
  assumes "svc_update E cfg jid a pid inp d = (Inr out, d')" "ui_slug inp = Some s"
    and "\<not> (a_platform a \<and> a_tenant a = None)"
  shows "\<exists>p \<in> set (posts d). p_id p = pid \<and> p_slug out \<noteq> p_slug p"
  using assms(1)
proof (rule svc_update_effect)
  fix p slug html f
  assume *: "find (post_at (rw_tx E a) pid) (posts d) = Some p" "new_slug E a d p (ui_slug inp) slug"
    "f p = edited E inp slug html p" "out = f p"
  have p: "p \<in> set (posts d)" "p_id p = pid" "visible (rw_tx E a) (p_tenant p)"
    using find_SomeD [OF *(1)] by (auto simp: post_at_def)
  have "p_tenant p = tenant_of_actor a" using visible_own [OF assms(3) p(3)] .
  then have "slug_taken (rw_tx E a) (tenant_of_actor a) d (p_slug p)"
    using p unfolding slug_taken_def by (intro bexI [of _ p]) simp_all
  moreover have "\<not> slug_taken (rw_tx E a) (tenant_of_actor a) d slug"
    using *(2) assms(2) by (auto simp: new_slug_def dest: find_SomeD)
  ultimately show ?thesis using * p by (auto simp: edited_def intro!: bexI [of _ p])
qed

text \<open>
  A platform operator outside any tenant cannot publish: the post is found and rendered, and then
  the version bump looks for the tenant with the zero id, so the request fails with the bare
  pgx.ErrNoRows and is rolled back.
\<close>

theorem platform_publish_fails:
  assumes "a_platform a" "a_tenant a = None" "\<not> has_tenant d nil_uuid"
    and "find (\<lambda>p. p_id p = pid) (posts d) = Some p" "trim_space (p_markdown p) \<noteq> []"
    and "render E cfg (p_markdown p) (p_metadata p) = Inr html"
  shows "svc_publish E cfg jid a pid d = (Inl ErrNoRows, d)"
proof -
  have sc: "scope_from_actor a = \<lparr>sc_tenant = nil_uuid, sc_platform = True\<rparr>"
    using assms(1,2) by (simp add: scope_from_actor_def)
  have f: "find (post_at (tx_of E False \<lparr>sc_tenant = nil_uuid, sc_platform = True\<rparr>) pid) (posts d) = Some p"
    using assms(4) by (simp add: post_at_def [abs_def] visible_def)
  have n: "find (\<lambda>x. t_id x = nil_uuid) (tenants d) = None"
    using assms(3) by (auto simp: find_None_iff has_tenant_def)
  have "can a CapPublishArchive" using assms(1) by (simp add: can_def)
  then show ?thesis
    using assms(5,6)
    by (simp add: svc_publish_def transition_def Let_def sc scoped_rw_def run_tx_def and_then_def handle_def
        get_post_by_id_def f set_post_status_def purge_def bump_content_version_def n)
qed

text \<open>
  A tenant is purged through one job only: while a purge job of the tenant is in the table, in any
  state, Done included, no further publish, unpublish, archive or update of the tenant's posts
  enqueues another.
\<close>

theorem purge_enqueued_once:
  assumes "exec_op E cfg jid a op d = (r, d')"
    and "j \<in> set (jobs d)" "j_kind j = purge_job_kind" "j_dedupe j = Some (uuid_string (tenant_of_actor a))"
  shows "jobs d' = jobs d"
proof -
  have once: "jobs d' = jobs d1"
    if "runs (purge q jid (tenant_of_actor a) x) d1 u d'" "jobs d1 = jobs d" for q jid x d1 u
    using that(1)
  proof (rule purge_effect)
    fix b js
    assume *: "d' = d1\<lparr>tenants := purged_tenants q (tenant_of_actor a) d1, jobs := jobs d1 @ js\<rparr>"
      "js = (if \<exists>j \<in> set (jobs d1). same_job purge_job_kind (Some (uuid_string (tenant_of_actor a))) j then []
         else [purge_job q jid (tenant_of_actor a) (p_id x) (t_version b + 1)])"
    have "\<exists>j \<in> set (jobs d1). same_job purge_job_kind (Some (uuid_string (tenant_of_actor a))) j"
      using assms(2-4) that(2) by (auto simp: same_job_def)
    then show ?thesis using * by simp
  qed
  from exec_op_effect [OF assms(1)] show ?thesis
  proof cases
    case (eff_edit pid inp p f jid)
    then show ?thesis using once by (auto split: if_splits)
  next
    case (eff_transition st pid p f html jid)
    then show ?thesis using once by auto
  qed auto
qed

section \<open>A tenant with posts\<close>

definition sample_cfg :: posts_config where
  "sample_cfg = posts_new \<lparr>media_origin = []\<rparr>"

definition sample_tenant :: tenant where
  "sample_tenant = \<lparr>t_id = 1, t_slug = ''acme'', t_name = ''Acme'', t_settings = JObj [], t_version = 4,
     t_created = 0, t_updated = 0\<rparr>"

definition sample_user :: user where
  "sample_user = \<lparr>us_id = 2, us_email = ''a@example.com'', us_password = None, us_display = ''A'',
     us_super = False, us_created = 0\<rparr>"

definition sample_post :: post where
  "sample_post = \<lparr>p_id = 3, p_tenant = 1, p_author = 2, p_slug = ''hello'', p_title = ''Hello'',
     p_excerpt = [], p_markdown = ''hi'', p_html = ''hi'', p_status = PostDraft, p_published = None,
     p_metadata = Some (JObj []), p_created = 0, p_updated = 0\<rparr>"

definition sample_editor :: actor where
  "sample_editor = \<lparr>a_user = 2, a_tenant = Some 1, a_role = RoleEditor, a_platform = False\<rparr>"

definition sample_author :: actor where
  "sample_author = \<lparr>a_user = 5, a_tenant = Some 1, a_role = RoleAuthor, a_platform = False\<rparr>"

definition sample_platform :: actor where
  "sample_platform = \<lparr>a_user = 5, a_tenant = None, a_role = RoleAuthor, a_platform = True\<rparr>"

definition sample_site :: db where
  "sample_site = empty_db\<lparr>tenants := [sample_tenant], users := [sample_user]\<rparr>"

definition sample_blog :: db where
  "sample_blog = sample_site\<lparr>posts := [sample_post]\<rparr>"

definition sample_blog_published :: db where
  "sample_blog_published = sample_site\<lparr>
     tenants := [sample_tenant\<lparr>t_version := 5, t_updated := 50\<rparr>],
     posts := [sample_post\<lparr>p_status := PostPublished, p_published := Some 100, p_updated := 50\<rparr>],
     jobs := [purge_job (tx_of sample_env False (scope_from_actor sample_editor)) 9 1 3 5]\<rparr>"

lemmas blog_defs = sample_tenant_def sample_user_def sample_post_def sample_site_def sample_blog_def
  sample_blog_published_def empty_db_def

lemma sample_env_times [simp]: "e_now sample_env = 100" "e_pgnow sample_env = 50"
  by (simp_all add: sample_env_def)

lemma sample_render [simp]: "render sample_env cfg md meta = Inr md"
  by (simp add: render_def render_gfm_hosts_def sample_env_def sanitize_def sanitized_tree_def document_body_def)

lemma sample_scope [simp]:
  "scope_from_actor sample_editor = \<lparr>sc_tenant = 1, sc_platform = False\<rparr>"
  "scope_from_actor sample_author = \<lparr>sc_tenant = 1, sc_platform = False\<rparr>"
  by (simp_all add: scope_from_actor_def sample_editor_def sample_author_def)

lemma sample_can [simp]: "can sample_editor CapPublishArchive" "can sample_editor CapEditOwnDraft"
  "owns_post sample_editor u" "\<not> plain_author sample_editor"
  by (simp_all add: can_def sample_editor_def less_eq_role_def owns_post_def)

lemma sample_publish:
  "exec_op sample_env sample_cfg 9 sample_editor (OpPublish 3) sample_blog = (Inr (), sample_blog_published)"
proof -
  have "trim_space ''hi'' = ''hi''" by (intro trim_space_visible) (simp add: visible_char_def)
  then show ?thesis
    by (simp add: svc_publish_def transition_def void_def and_then_def Let_def scoped_rw_def run_tx_def
        get_post_by_id_def handle_def set_post_status_def post_with_status_def purge_def bump_content_version_def
        enqueue_def bumped_def purge_job_def nullif_uuid post_at_def visible_def max_bigint_def blog_defs
        purge_job_kind_def)
qed

lemma sample_unique: "distinct (map p_id (posts sample_blog))" "distinct (map p_id (posts sample_blog_published))"
  by (simp_all add: blog_defs)

lemma sample_not_platform: "\<not> (a_platform sample_editor \<and> a_tenant sample_editor = None)"
  by (simp add: sample_editor_def)


lemma sample_get: "svc_get sample_env sample_editor 3 sample_blog = (Inr sample_post, sample_blog)"
  by (simp add: svc_get_effect post_at_def visible_def blog_defs)

theorem read_isolation_witness:
  "p_tenant sample_post = sc_tenant (scope_from_actor sample_editor) \<and> sample_post \<in> set (posts sample_blog)"
  using read_isolation [OF sample_not_platform, of sample_env 3 sample_blog sample_post sample_blog] sample_get
  by blast

definition sample_two_posts :: db where
  "sample_two_posts = sample_site\<lparr>posts := [sample_post, sample_post\<lparr>p_id := 4, p_slug := ''mine'', p_author := 5\<rparr>]\<rparr>"

lemma sample_author_delete:
  "exec_op sample_env sample_cfg 9 sample_author (OpDelete 4) sample_two_posts = (Inr (), sample_blog)"
  by (simp add: svc_delete_def and_then_def scoped_rw_def run_tx_def get_post_by_id_def handle_def post_at_def
      visible_def blog_defs sample_two_posts_def sample_author_def can_def owns_post_def scope_from_actor_def
      delete_post_def del_rows_def unlink_imports_def)

theorem author_confined_witness:
  "sample_post \<in> set (posts sample_two_posts) \<and> sample_post \<in> set (posts sample_blog)"
proof -
  have "plain_author sample_author" "p_author sample_post \<noteq> a_user sample_author"
    "sample_post \<in> set (posts sample_two_posts)" "distinct (map p_id (posts sample_two_posts))"
    by (simp_all add: sample_author_def sample_two_posts_def blog_defs)
  then show ?thesis using author_confined [OF sample_author_delete] by blast
qed

definition sample_input :: create_input where
  "sample_input = \<lparr>ci_title = ''Hello'', ci_markdown = ''hi'', ci_slug = [], ci_excerpt = [], ci_metadata = None\<rparr>"

definition site_with :: "post \<Rightarrow> db" where
  "site_with p = sample_site\<lparr>posts := [p]\<rparr>"

lemma posts_site_with [simp]: "posts (site_with p) = [p]"
  by (simp add: site_with_def)

lemma sample_site_facts: "a_tenant sample_editor = Some 1" "(1 :: uuid) \<noteq> nil_uuid" "has_tenant sample_site 1"
    "has_user sample_site (a_user sample_editor)" "posts sample_site = []" "a_user sample_editor = 2"
  by (simp_all add: sample_editor_def has_tenant_def has_user_def blog_defs)

lemma sample_create:
  obtains p where "svc_create sample_env sample_cfg 3 sample_editor sample_input sample_site = (Inr p, site_with p)"
  using create_ok [OF sample_site_facts(1-4), of sample_env sample_cfg sample_input "''hi''" 3]
  by (auto simp: sample_site_facts(5) site_with_def sample_input_def)

lemma sample_reachable_posts:
  assumes ok: "\<And>pid inp. ok (OpCreate pid inp)"
  obtains p where "reachable posts_start (post_step sample_env sample_cfg ok) (site_with p)"
proof -
  have at: "at_time sample_env 100 50 = sample_env" by (simp add: sample_env_def)
  obtain p where "svc_create sample_env sample_cfg 3 sample_editor sample_input sample_site = (Inr p, site_with p)"
    by (rule sample_create)
  then have "exec_op (at_time sample_env 100 50) sample_cfg 9 sample_editor (OpCreate 3 sample_input) sample_site =
      (Inr (), site_with p)"
    unfolding at exec_op.simps void_Inr by blast
  then have "post_step sample_env sample_cfg ok sample_site (site_with p)"
    using ok by (rule post_request)
  moreover have "posts_start sample_site" by (simp add: posts_start_def sample_site_def empty_db_def)
  ultimately show ?thesis using that by (meson reach_start reach_step)
qed

theorem posts_well_formed_witness:
  "\<exists>p :: post. distinct (map p_id (posts (site_with p))) \<and>
     (p_status p = PostPublished \<longleftrightarrow> p_published p \<noteq> None)"
proof -
  obtain p where "reachable posts_start (post_step sample_env sample_cfg (\<lambda>op. True)) (site_with p)"
    by (rule sample_reachable_posts [of "\<lambda>op. True"]) auto
  from posts_well_formed [OF this] show ?thesis by auto
qed

theorem html_in_sync_witness:
  "\<exists>(d :: db) (p :: post). p \<in> set (posts d) \<and> render sample_env sample_cfg (p_markdown p) (p_metadata p) = Inr (p_html p)"
proof -
  obtain p where "reachable posts_start (post_step sample_env sample_cfg keeps_metadata) (site_with p)"
    by (rule sample_reachable_posts [of keeps_metadata]) (auto simp: keeps_metadata_def)
  from html_in_sync [OF this, of p] have "p \<in> set (posts (site_with p)) \<and>
      render sample_env sample_cfg (p_markdown p) (p_metadata p) = Inr (p_html p)" by simp
  then show ?thesis by blast
qed

theorem create_succeeds_witness:
  "\<exists>p. svc_create sample_env sample_cfg 3 sample_editor sample_input sample_site = (Inr p, site_with p) \<and>
     p_author p = 2"
  using create_succeeds [OF sample_site_facts(1-4), of sample_env sample_cfg sample_input "''hi''" 3]
  by (auto simp: sample_site_facts(5,6) site_with_def sample_input_def)

definition sample_blog_unpublished :: db where
  "sample_blog_unpublished = sample_blog_published\<lparr>
     tenants := [sample_tenant\<lparr>t_version := 6, t_updated := 50\<rparr>],
     posts := [sample_post\<lparr>p_updated := 50\<rparr>]\<rparr>"

lemma sample_unpublish:
  "exec_op sample_env sample_cfg 10 sample_editor (OpUnpublish 3) sample_blog_published =
     (Inr (), sample_blog_unpublished)"
  by (simp add: svc_unpublish_def transition_def void_def and_then_def Let_def scoped_rw_def run_tx_def
      get_post_by_id_def handle_def set_post_status_def post_with_status_def purge_def bump_content_version_def
      enqueue_def bumped_def purge_job_def nullif_uuid post_at_def visible_def max_bigint_def blog_defs
      sample_blog_unpublished_def purge_job_kind_def same_job_def new_job_def)

theorem published_slug_frozen_witness:
  "p_slug (sample_post\<lparr>p_updated := 50\<rparr>) = ''hello''"
  using published_slug_frozen [OF sample_unpublish sample_unique(2), of
      "sample_post\<lparr>p_status := PostPublished, p_published := Some 100, p_updated := 50\<rparr>" "sample_post\<lparr>p_updated := 50\<rparr>"]
  by (simp add: sample_blog_unpublished_def blog_defs)


lemma sample_delete:
  "exec_op sample_env sample_cfg 10 sample_editor (OpDelete 3) sample_blog_published =
     (Inr (), sample_blog_published\<lparr>posts := []\<rparr>)"
  by (simp add: svc_delete_def and_then_def scoped_rw_def run_tx_def get_post_by_id_def handle_def post_at_def
      visible_def blog_defs delete_post_def del_rows_def unlink_imports_def)

theorem delete_keeps_version_witness:
  "published_view 1 (sample_blog_published\<lparr>posts := []\<rparr>) \<noteq> published_view 1 sample_blog_published \<and>
   version_of 1 (sample_blog_published\<lparr>posts := []\<rparr>) = version_of 1 sample_blog_published"
  using delete_keeps_version [OF sample_delete sample_unique(2),
      of "sample_post\<lparr>p_status := PostPublished, p_published := Some 100, p_updated := 50\<rparr>"]
  by (simp add: sample_post_def sample_blog_published_def)

theorem purge_enqueued_once_witness:
  "jobs sample_blog_unpublished = jobs sample_blog_published \<and> jobs sample_blog_published \<noteq> []"
  using purge_enqueued_once [OF sample_unpublish,
      of "purge_job (tx_of sample_env False (scope_from_actor sample_editor)) 9 1 3 5"]
  by (simp add: sample_blog_published_def purge_job_def new_job_def)

theorem hidden_post_not_found_witness:
  "svc_get sample_env (sample_editor\<lparr>a_tenant := Some 7\<rparr>) 3 sample_blog = (Inl ErrPostNotFound, sample_blog)"
proof -
  let ?a = "sample_editor\<lparr>a_tenant := Some 7\<rparr>"
  have "\<forall>p \<in> set (posts sample_blog). p_id p = 3 \<longrightarrow> \<not> visible (rw_tx sample_env ?a) (p_tenant p)"
    "can ?a CapEditOwnDraft" "can ?a CapPublishArchive"
    by (simp_all add: blog_defs visible_def scope_from_actor_def sample_editor_def can_def less_eq_role_def)
  from hidden_post_not_found [OF this] show ?thesis by blast
qed

theorem platform_publish_fails_witness:
  "svc_publish sample_env sample_cfg 9 sample_platform 3 sample_blog = (Inl ErrNoRows, sample_blog)"
proof (rule platform_publish_fails)
  show "find (\<lambda>p. p_id p = 3) (posts sample_blog) = Some sample_post" by (simp add: blog_defs)
  show "trim_space (p_markdown sample_post) \<noteq> []"
    by (simp add: sample_post_def trim_space_visible visible_char_def)
qed (simp_all add: sample_platform_def has_tenant_def blog_defs)

definition sample_patch :: update_input where
  "sample_patch = \<lparr>ui_title = None, ui_markdown = None, ui_slug = None, ui_excerpt = None,
     ui_metadata = Some (Some (JObj [(''allow_external_images'', JBool True)]))\<rparr>"

lemma sample_metadata_update:
  "svc_update sample_env sample_cfg 9 sample_editor 3 sample_patch sample_blog =
     (Inr (sample_post\<lparr>p_updated := 50\<rparr>), sample_blog\<lparr>posts := [sample_post\<lparr>p_updated := 50\<rparr>]\<rparr>)"
  by (simp add: svc_update_def Let_def and_then_def scoped_rw_def run_tx_def get_post_by_id_def handle_def
      update_post_def updated_post_def update_arg_def given_def post_at_def visible_def blog_defs sample_patch_def)

theorem metadata_patch_lost_witness:
  "p_metadata (sample_post\<lparr>p_updated := 50\<rparr>) = Some (JObj []) \<and>
   render sample_env sample_cfg ''hi'' (Some (JObj [(''allow_external_images'', JBool True)])) = Inr ''hi''"
  using metadata_patch_lost [OF sample_metadata_update, of "Some (JObj [(''allow_external_images'', JBool True)])"]
  by (simp add: sample_patch_def sample_blog_def sample_post_def)

definition sample_rename :: update_input where
  "sample_rename = \<lparr>ui_title = None, ui_markdown = None, ui_slug = Some ''hello'', ui_excerpt = None,
     ui_metadata = None\<rparr>"

lemma sample_probe:
  "unique_slug sample_env (rw_tx sample_env sample_editor) 1 ''hello'' \<lparr>t_db = sample_blog, t_aborted = False\<rparr> =
     (Inr ''hello-2'', \<lparr>t_db = sample_blog, t_aborted = False\<rparr>)"
proof -
  have d: "derive_slug sample_env ''hello'' = ''hello''"
    by (rule slug_shape_fixed) (simp add: slug_shape_def slug_text_def slug_char_def is_lower_def)
  have c: "slug_candidates sample_env ''hello'' = ''hello'' # ''hello-2'' # map (suffixed ''hello'') [3..<10001]"
    unfolding slug_candidates_def d using upt_conv_Cons [of 2 10001]
    by (simp add: suffixed_def itoa.simps digit_char_def char_of_def bit_0 del: upt_rec_numeral)
  have t: "slug_taken (tx_of sample_env False \<lparr>sc_tenant = 1, sc_platform = False\<rparr>) 1 sample_blog s \<longleftrightarrow> s = ''hello''" for s
    by (auto simp: slug_taken_def visible_def blog_defs)
  show ?thesis by (simp add: unique_slug_first c t del: upt_rec_numeral)
qed

lemma sample_rename_update:
  "svc_update sample_env sample_cfg 9 sample_editor 3 sample_rename sample_blog =
     (Inr (sample_post\<lparr>p_slug := ''hello-2'', p_updated := 50\<rparr>),
      sample_blog\<lparr>posts := [sample_post\<lparr>p_slug := ''hello-2'', p_updated := 50\<rparr>]\<rparr>)"
proof -
  have q: "unique_slug sample_env (tx_of sample_env False \<lparr>sc_tenant = 1, sc_platform = False\<rparr>) 1 ''hello''
      \<lparr>t_db = sample_blog, t_aborted = False\<rparr> = (Inr ''hello-2'', \<lparr>t_db = sample_blog, t_aborted = False\<rparr>)"
    using sample_probe by simp
  have find: "find (post_at (tx_of sample_env False \<lparr>sc_tenant = 1, sc_platform = False\<rparr>) 3) (posts sample_blog) = Some sample_post"
    by (simp add: post_at_def visible_def blog_defs)
  show ?thesis
    by (simp add: svc_update_def Let_def and_then_def scoped_rw_def run_tx_def get_post_by_id_def handle_def
        find q sample_rename_def given_def)
      (simp add: update_post_def updated_post_def update_arg_def and_then_def post_at_def visible_def blog_defs)
qed

theorem slug_patch_renames_witness:
  "p_slug (sample_post\<lparr>p_slug := ''hello-2'', p_updated := 50\<rparr>) \<noteq> p_slug sample_post"
  using slug_patch_renames [OF sample_rename_update _ sample_not_platform, of "''hello''"]
  by (simp add: sample_rename_def sample_blog_def)

end
