(* ===== verification/OAuthStore.thy ===== *)
theory OAuthStore
  imports Accounts
begin

text \<open>
  The statements of internal/store on oauth_flows, oauth_tokens and identities (migrations/0001 and
  0003). None of the three tables is under row-level security.
\<close>

definition known_provider :: "string \<Rightarrow> bool" where
  "known_provider p = (p \<in> {''google'', ''github''})"

section \<open>Flows\<close>

definition insert_oauth_flow :: "tx \<Rightarrow> oauth_flow \<Rightarrow> unit txn" where
  "insert_oauth_flow q f = write_stmt q (\<lambda>d.
     if \<not> known_provider (f_provider f) then Inl check_violation
     else if \<exists>x \<in> set (oauth_flows d). f_id x = f_id f then Inl unique_violation
     else Inr ((), d\<lparr>oauth_flows := oauth_flows d @ [f\<lparr>f_created := tx_now q\<rparr>]\<rparr>))"

definition redeemable :: "tx \<Rightarrow> bytes \<Rightarrow> bytes option \<Rightarrow> oauth_flow \<Rightarrow> bool" where
  "redeemable q st sh f = (f_state f = st \<and> f_expires f > tx_now q \<and> f_session f = sh)"

definition consume_oauth_flow :: "tx \<Rightarrow> bytes \<Rightarrow> bytes option \<Rightarrow> oauth_flow txn" where
  "consume_oauth_flow q st sh =
     and_then
       (write_stmt q (\<lambda>d.
          Inr (find (redeemable q st sh) (oauth_flows d),
               d\<lparr>oauth_flows := del_rows (redeemable q st sh) (oauth_flows d)\<rparr>)))
       scan_row"

section \<open>Tokens\<close>

text \<open>
  The scopes of an updated row: the distinct non-empty entries of both lists, in the order of their
  bytes. \<open>string_to_array\<close> of the empty string has no entries.
\<close>

definition merged_scopes :: "string \<Rightarrow> string \<Rightarrow> string" where
  "merged_scopes old new =
     go_join (remdups (sort (filter (\<lambda>s. s \<noteq> []) (go_split old CHR '','' @ go_split new CHR '','')))) '',''"

definition of_token :: "uuid \<Rightarrow> string \<Rightarrow> oauth_token \<Rightarrow> bool" where
  "of_token u p k = (k_user k = u \<and> k_provider k = p)"

definition token_update :: "oauth_token \<Rightarrow> oauth_token \<Rightarrow> oauth_token" where
  "token_update new old = old\<lparr>
     k_refresh := (case k_refresh new of None \<Rightarrow> k_refresh old | Some r \<Rightarrow> Some r),
     k_access := k_access new,
     k_scopes := merged_scopes (k_scopes old) (k_scopes new),
     k_expiry := k_expiry new\<rparr>"

definition upsert_oauth_token :: "tx \<Rightarrow> oauth_token \<Rightarrow> unit txn" where
  "upsert_oauth_token q t = write_stmt q (\<lambda>d.
     if \<not> known_provider (k_provider t) then Inl check_violation
     else if \<exists>x \<in> set (oauth_tokens d). of_token (k_user t) (k_provider t) x
       then Inr ((), d\<lparr>oauth_tokens :=
         upd_rows (of_token (k_user t) (k_provider t)) (token_update t) (oauth_tokens d)\<rparr>)
     else if \<not> has_user d (k_user t) then Inl foreign_key_violation
     else Inr ((), d\<lparr>oauth_tokens := oauth_tokens d @ [t]\<rparr>))"

definition get_oauth_token_by_user :: "tx \<Rightarrow> uuid \<Rightarrow> string \<Rightarrow> oauth_token txn" where
  "get_oauth_token_by_user q u p =
     and_then (read_stmt (\<lambda>d. Inr (find (of_token u p) (oauth_tokens d)))) scan_row"

section \<open>Identities\<close>

definition is_identity :: "string \<Rightarrow> string \<Rightarrow> identity \<Rightarrow> bool" where
  "is_identity p s i = (id_provider i = p \<and> id_subject i = s)"

definition get_identity :: "tx \<Rightarrow> string \<Rightarrow> string \<Rightarrow> identity txn" where
  "get_identity q p s =
     and_then (read_stmt (\<lambda>d. Inr (find (is_identity p s) (identities d)))) scan_row"

definition insert_identity :: "tx \<Rightarrow> string \<Rightarrow> string \<Rightarrow> uuid \<Rightarrow> unit txn" where
  "insert_identity q p s u = write_stmt q (\<lambda>d.
     if \<exists>i \<in> set (identities d). is_identity p s i then Inl unique_violation
     else if \<not> has_user d u then Inl foreign_key_violation
     else Inr ((), d\<lparr>identities := identities d @ [\<lparr>id_provider = p, id_subject = s, id_user = u\<rparr>]\<rparr>))"

section \<open>The tables as maps\<close>

text \<open>Whom an identity belongs to; a table of identities only ever grows.\<close>

definition identity_map :: "db \<Rightarrow> string \<times> string \<Rightarrow> uuid option" where
  "identity_map d = (\<lambda>(p, s). map_option id_user (find (is_identity p s) (identities d)))"

lemma runs_get_identity:
  "runs (get_identity q p s) d i d' \<longleftrightarrow> find (is_identity p s) (identities d) = Some i \<and> d' = d"
  by (auto simp: get_identity_def txn_run)

lemma runs_insert_identity:
  "runs (insert_identity q p s u) d x d' \<longleftrightarrow>
     \<not> tx_ro q \<and> identity_map d (p, s) = None \<and> has_user d u \<and>
     d' = d\<lparr>identities := identities d @ [\<lparr>id_provider = p, id_subject = s, id_user = u\<rparr>]\<rparr>"
  by (auto simp: insert_identity_def txn_run identity_map_def find_None_iff split: if_splits)

lemma identity_map_insert:
  assumes "identity_map d (p, s) = None"
  shows "identity_map (d\<lparr>identities := identities d @ [\<lparr>id_provider = p, id_subject = s, id_user = u\<rparr>]\<rparr>) =
    (identity_map d)((p, s) \<mapsto> u)"
proof (rule ext)
  fix x :: "string \<times> string"
  obtain p' s' where x: "x = (p', s')" by (cases x)
  show "identity_map (d\<lparr>identities := identities d @ [\<lparr>id_provider = p, id_subject = s, id_user = u\<rparr>]\<rparr>) x =
      ((identity_map d)((p, s) \<mapsto> u)) x"
    using assms unfolding x by (auto simp: identity_map_def find_append_new is_identity_def split: option.split)
qed

text \<open>The token that a user holds for a provider.\<close>

definition token_map :: "db \<Rightarrow> uuid \<times> string \<Rightarrow> oauth_token option" where
  "token_map d = (\<lambda>(u, p). find (of_token u p) (oauth_tokens d))"

lemma upsert_token_map:
  assumes "runs (upsert_oauth_token q t) d x d'"
  shows "token_map d' = (token_map d)((k_user t, k_provider t) \<mapsto>
      (case token_map d (k_user t, k_provider t) of None \<Rightarrow> t | Some old \<Rightarrow> token_update t old)) \<and>
    d' = d\<lparr>oauth_tokens := oauth_tokens d'\<rparr>"
proof (rule conjI, rule ext)
  fix y :: "uuid \<times> string"
  obtain u p where y: "y = (u, p)" by (cases y)
  let ?P = "of_token (k_user t) (k_provider t)"
  have key: "of_token u' p' (token_update t r) \<longleftrightarrow> of_token u' p' r"
    "of_token u' p' r \<Longrightarrow> ?P r \<Longrightarrow> u' = k_user t \<and> p' = k_provider t" for u' p' r
    by (auto simp: of_token_def token_update_def)
  have upd: "find (of_token u p) (upd_rows ?P (token_update t) rs) =
      (if (u, p) = (k_user t, k_provider t) then map_option (token_update t) (find ?P rs)
       else find (of_token u p) rs)" for rs
    by (induction rs) (auto simp: key(1) dest: key(2))
  show "token_map d' y = ((token_map d)((k_user t, k_provider t) \<mapsto>
      (case token_map d (k_user t, k_provider t) of None \<Rightarrow> t | Some old \<Rightarrow> token_update t old))) y"
  proof (cases "find ?P (oauth_tokens d)")
    case None
    then have "oauth_tokens d' = oauth_tokens d @ [t]"
      using assms by (auto simp: upsert_oauth_token_def txn_run find_None_iff split: if_splits)
    with None show ?thesis unfolding y by (auto simp: token_map_def find_append_new of_token_def split: option.split)
  next
    case (Some old)
    then have "\<exists>x \<in> set (oauth_tokens d). ?P x" using find_SomeD [OF Some] by blast
    then have "oauth_tokens d' = upd_rows ?P (token_update t) (oauth_tokens d)"
      using assms by (auto simp: upsert_oauth_token_def txn_run split: if_splits)
    with Some show ?thesis unfolding y by (auto simp: token_map_def upd)
  qed
next
  show "d' = d\<lparr>oauth_tokens := oauth_tokens d'\<rparr>"
    using assms by (auto simp: upsert_oauth_token_def txn_run split: if_splits)
qed

end
