(* ===== verification/Base64.thy ===== *)
theory Base64
  imports GoStrings
begin

text \<open>
  encoding/base64 as the repository uses it: the two unpadded alphabets, \<open>RawURLEncoding\<close> for tokens
  and \<open>RawStdEncoding\<close> for password hashes. Decoding skips line breaks and ignores the low bits that
  the last character leaves over, as Go's does outside strict mode.
\<close>

section \<open>Encoding and decoding\<close>

definition b64_common :: string where
  "b64_common = ''ABCDEFGHIJKLMNOPQRSTUVWXYZabcdefghijklmnopqrstuvwxyz0123456789''"

definition b64_std :: string where
  "b64_std = b64_common @ ''+/''"

definition b64_url :: string where
  "b64_url = b64_common @ ''-_''"

fun b64_sextets :: "bytes \<Rightarrow> nat list" where
  "b64_sextets [] = []"
| "b64_sextets [a] = (let a = of_char a in [a div 4, a mod 4 * 16])"
| "b64_sextets [a, b] =
     (let a = of_char a; b = of_char b in [a div 4, a mod 4 * 16 + b div 16, b mod 16 * 4])"
| "b64_sextets (a # b # c # r) =
     (let a = of_char a; b = of_char b; c = of_char c
      in [a div 4, a mod 4 * 16 + b div 16, b mod 16 * 4 + c div 64, c mod 64] @ b64_sextets r)"

definition b64_encode :: "string \<Rightarrow> bytes \<Rightarrow> string" where
  "b64_encode alphabet s = map (\<lambda>i. alphabet ! i) (b64_sextets s)"

fun b64_bytes :: "nat list \<Rightarrow> bytes option" where
  "b64_bytes [] = Some []"
| "b64_bytes [w] = None"
| "b64_bytes [w, x] = Some [char_of (w * 4 + x div 16)]"
| "b64_bytes [w, x, y] = Some [char_of (w * 4 + x div 16), char_of (x mod 16 * 16 + y div 4)]"
| "b64_bytes (w # x # y # z # r) =
     map_option (\<lambda>s. [char_of (w * 4 + x div 16), char_of (x mod 16 * 16 + y div 4), char_of (y mod 4 * 64 + z)] @ s)
       (b64_bytes r)"

fun index_of :: "char \<Rightarrow> string \<Rightarrow> nat option" where
  "index_of c [] = None"
| "index_of c (x # xs) = (if c = x then Some 0 else map_option Suc (index_of c xs))"

fun b64_values :: "string \<Rightarrow> string \<Rightarrow> nat list option" where
  "b64_values alphabet [] = Some []"
| "b64_values alphabet (c # cs) =
     (if c = CHR 0x0A \<or> c = CHR 0x0D then b64_values alphabet cs
      else case index_of c alphabet of
        None \<Rightarrow> None
      | Some i \<Rightarrow> map_option (\<lambda>ns. i # ns) (b64_values alphabet cs))"

definition b64_decode :: "string \<Rightarrow> string \<Rightarrow> bytes option" where
  "b64_decode alphabet s = Option.bind (b64_values alphabet s) b64_bytes"

section \<open>The round trip\<close>

lemma digits_of_sum: "y < k \<Longrightarrow> (x * k + y) div k = x \<and> (x * k + y) mod k = (y :: nat)"
  by simp

lemma sextet_bounds:
  assumes "a < (256 :: nat)" "b < 256" "c < 256"
  shows "a div 4 < 64" "a mod 4 * 16 < 64" "a mod 4 * 16 + b div 16 < 64" "b mod 16 * 4 < 64"
    "b mod 16 * 4 + c div 64 < 64"
proof -
  have "a mod 4 < 4" "b mod 16 < 16" "a div 4 < 64" "b div 16 < 16" "c div 64 < 4"
    using assms by (auto simp: less_mult_imp_div_less)
  then show "a div 4 < 64" "a mod 4 * 16 < 64" "a mod 4 * 16 + b div 16 < 64" "b mod 16 * 4 < 64"
    "b mod 16 * 4 + c div 64 < 64"
    by linarith+
qed

lemma sextet_bytes:
  assumes "a < (256 :: nat)" "b < 256" "c < 256"
  shows "a div 4 * 4 + a mod 4 * 16 div 16 = a"
    "a div 4 * 4 + (a mod 4 * 16 + b div 16) div 16 = a"
    "(a mod 4 * 16 + b div 16) mod 16 * 16 + b mod 16 * 4 div 4 = b"
    "(a mod 4 * 16 + b div 16) mod 16 * 16 + (b mod 16 * 4 + c div 64) div 4 = b"
    "(b mod 16 * 4 + c div 64) mod 4 * 64 + c mod 64 = c"
proof -
  have "b div 16 < 16" "c div 64 < 4" using assms by (auto simp: less_mult_imp_div_less)
  note sums = digits_of_sum [OF this(1)] digits_of_sum [OF this(2)]
  show "a div 4 * 4 + a mod 4 * 16 div 16 = a"
    "a div 4 * 4 + (a mod 4 * 16 + b div 16) div 16 = a"
    "(a mod 4 * 16 + b div 16) mod 16 * 16 + b mod 16 * 4 div 4 = b"
    "(a mod 4 * 16 + b div 16) mod 16 * 16 + (b mod 16 * 4 + c div 64) div 4 = b"
    "(b mod 16 * 4 + c div 64) mod 4 * 64 + c mod 64 = c"
    using sums by simp_all
qed

lemma byte_small: "of_char c < (256 :: nat)"
  by simp

lemma sextets_small: "i \<in> set (b64_sextets s) \<Longrightarrow> i < 64"
proof (induction s rule: b64_sextets.induct)
  case (4 a b c r)
  then show ?case using sextet_bounds [OF byte_small [of a] byte_small [of b] byte_small [of c]] by (auto simp: Let_def)
next
  case (3 a b)
  then show ?case using sextet_bounds [OF byte_small [of a] byte_small [of b] byte_small [of b]] by (auto simp: Let_def)
next
  case (2 a)
  then show ?case using sextet_bounds [OF byte_small [of a] byte_small [of a] byte_small [of a]] by (auto simp: Let_def)
qed simp

lemma bytes_sextets [simp]: "b64_bytes (b64_sextets s) = Some s"
proof (induction s rule: b64_sextets.induct)
  case (4 a b c r)
  then show ?case using sextet_bytes [OF byte_small [of a] byte_small [of b] byte_small [of c]]
    by (simp only: b64_sextets.simps Let_def append.simps b64_bytes.simps) simp
next
  case (3 a b)
  then show ?case using sextet_bytes [OF byte_small [of a] byte_small [of b] byte_small [of b]]
    by (simp only: b64_sextets.simps Let_def b64_bytes.simps) simp
next
  case (2 a)
  then show ?case using sextet_bytes [OF byte_small [of a] byte_small [of a] byte_small [of a]]
    by (simp only: b64_sextets.simps Let_def b64_bytes.simps) simp
qed simp

text \<open>What a table of 64 characters must satisfy; both alphabets do.\<close>

definition b64_alphabet :: "string \<Rightarrow> bool" where
  "b64_alphabet t \<longleftrightarrow> length t = 64 \<and> distinct t \<and> CHR 0x0A \<notin> set t \<and> CHR 0x0D \<notin> set t"

lemma alphabets [simp]: "b64_alphabet b64_std" "b64_alphabet b64_url"
  by (simp_all add: b64_alphabet_def b64_std_def b64_url_def b64_common_def)

lemma index_of_nth: "distinct t \<Longrightarrow> i < length t \<Longrightarrow> index_of (t ! i) t = Some i"
  by (induction t arbitrary: i) (auto simp: nth_Cons split: nat.splits)

lemma b64_values_map:
  assumes "b64_alphabet t" "\<And>i. i \<in> set ns \<Longrightarrow> i < 64"
  shows "b64_values t (map (\<lambda>i. t ! i) ns) = Some ns"
  using assms(2)
proof (induction ns)
  case (Cons i ns)
  then have i: "i < length t" using assms(1) by (simp add: b64_alphabet_def)
  then have "t ! i \<noteq> CHR 0x0A" "t ! i \<noteq> CHR 0x0D" using assms(1) nth_mem [OF i] unfolding b64_alphabet_def by metis+
  then show ?case using Cons i assms(1) by (simp add: index_of_nth b64_alphabet_def)
qed simp

lemma decode_encode [simp]: "b64_alphabet t \<Longrightarrow> b64_decode t (b64_encode t s) = Some s"
  by (simp add: b64_decode_def b64_encode_def b64_values_map sextets_small)

lemma encode_inject [simp]: "b64_alphabet t \<Longrightarrow> b64_encode t s = b64_encode t r \<longleftrightarrow> s = r"
  by (metis decode_encode option.inject)

lemma encode_chars: "b64_alphabet t \<Longrightarrow> set (b64_encode t s) \<subseteq> set t"
  using sextets_small by (fastforce simp: b64_encode_def b64_alphabet_def)

end
