(* ===== verification/Auth.thy ===== *)
theory Auth
  imports Accounts Authz Base64
begin

text \<open>
  internal/auth and authz.ResolveActor: password hashes, sign-up, login, sessions, and the principal a
  request acts as. Random bytes and fresh ids are arguments; the argon2 key derivation is the record
  \<open>hasher\<close>. The limiter on concurrent hashes is theory Hashing; the expiry of a request's context is not modelled.
\<close>

section \<open>Passwords\<close>

text \<open>\<open>h_key password salt time memory threads length\<close> is \<open>argon2.IDKey\<close>.\<close>

record hasher =
  h_version :: nat
  h_key :: "bytes \<Rightarrow> bytes \<Rightarrow> nat \<Rightarrow> nat \<Rightarrow> nat \<Rightarrow> nat \<Rightarrow> bytes"

definition argon2_time :: nat where
  "argon2_time = 3"

definition argon2_memory :: nat where
  "argon2_memory = 64 * 1024"

definition argon2_threads :: nat where
  "argon2_threads = 2"

definition argon2_key_len :: nat where
  "argon2_key_len = 32"

definition hash_password :: "hasher \<Rightarrow> bytes \<Rightarrow> string \<Rightarrow> string" where
  "hash_password A salt pw =
     (let key = h_key A pw salt argon2_time argon2_memory argon2_threads argon2_key_len
      in ''$argon2id$v='' @ itoa (h_version A) @ ''$m='' @ itoa argon2_memory @ '',t='' @ itoa argon2_time @
         '',p='' @ itoa argon2_threads @ ''$'' @ b64_encode b64_std salt @ ''$'' @ b64_encode b64_std key)"

definition scan_version :: "string \<Rightarrow> int option" where
  "scan_version s = Option.bind (scan_lit ''v='' s) (\<lambda>s. map_option fst (scan_int s))"

definition scan_costs :: "string \<Rightarrow> (nat \<times> nat \<times> nat) option" where
  "scan_costs s =
     Option.bind (scan_lit ''m='' s) (\<lambda>s. Option.bind (scan_uint 32 s) (\<lambda>(memory, s).
       Option.bind (scan_lit '',t='' s) (\<lambda>s. Option.bind (scan_uint 32 s) (\<lambda>(time, s).
         Option.bind (scan_lit '',p='' s) (\<lambda>s. Option.bind (scan_uint 32 s) (\<lambda>(threads, s).
           Some (memory, time, threads)))))))"

definition verify_password :: "hasher \<Rightarrow> string \<Rightarrow> string \<Rightarrow> error + unit" where
  "verify_password A encoded pw =
     (let parts = go_split encoded CHR ''$''
      in if length parts \<noteq> 6 \<or> parts ! 1 \<noteq> ''argon2id'' then Inl ErrPasswordMismatch
         else if scan_version (parts ! 2) \<noteq> Some (int (h_version A)) then Inl ErrPasswordMismatch
         else case scan_costs (parts ! 3) of
           None \<Rightarrow> Inl ErrPasswordMismatch
         | Some (memory, time, threads) \<Rightarrow>
             if time < 1 \<or> threads < 1 \<or> threads > 255 \<or> memory < 8 * threads then Inl ErrPasswordMismatch
             else case b64_decode b64_std (parts ! 4) of
               None \<Rightarrow> Inl ErrPasswordMismatch
             | Some salt \<Rightarrow>
                 (case b64_decode b64_std (parts ! 5) of
                    None \<Rightarrow> Inl ErrPasswordMismatch
                  | Some key \<Rightarrow>
                      if key = [] then Inl ErrPasswordMismatch
                      else if h_key A pw salt time memory threads (length key) \<noteq> key then Inl ErrPasswordMismatch
                      else Inr ()))"

text \<open>A missing hash burns the same work on a dummy hash and always fails.\<close>

definition verify_best_effort :: "hasher \<Rightarrow> string option \<Rightarrow> string \<Rightarrow> error + unit" where
  "verify_best_effort A stored pw =
     (case stored of
        None \<Rightarrow> Inl ErrInvalidCredentials
      | Some h \<Rightarrow> (case verify_password A h pw of Inl e \<Rightarrow> Inl ErrInvalidCredentials | Inr u \<Rightarrow> Inr ()))"

section \<open>Sessions\<close>

definition token_ttl :: time where
  "token_ttl = 30 * 24 * 3600 * second"

definition token_hash :: "env \<Rightarrow> string \<Rightarrow> bytes" where
  "token_hash E tok = e_sha256 E tok"

text \<open>\<open>raw\<close>: the 32 random bytes of the token.\<close>

definition new_token :: "bytes \<Rightarrow> string" where
  "new_token raw = b64_encode b64_url raw"

definition issue :: "env \<Rightarrow> bytes \<Rightarrow> uuid \<Rightarrow> time \<Rightarrow> uuid option \<Rightarrow> string act" where
  "issue E raw uid ttl sc =
     (if uid = nil_uuid then fail ErrInvalidUserID
      else let tok = new_token raw
           in and_then (scoped_rw E unscoped (\<lambda>q. insert_session q (token_hash E tok) uid sc (e_now E + ttl)))
                (\<lambda>_. ret tok))"

definition verify_session :: "env \<Rightarrow> string \<Rightarrow> (uuid \<times> uuid) act" where
  "verify_session E tok = scoped E unscoped (\<lambda>q.
     and_then (on_error ErrNoRows ErrNoSession (get_session_by_token_hash q (token_hash E tok))) (\<lambda>s.
       if \<not> s_expires s > e_now E then fail ErrSessionExpired
       else ret (s_user s, case s_scope s of None \<Rightarrow> nil_uuid | Some t \<Rightarrow> t)))"

definition logout :: "env \<Rightarrow> string \<Rightarrow> unit act" where
  "logout E tok = scoped_rw E unscoped (\<lambda>q. delete_session_by_token_hash q (token_hash E tok))"

section \<open>Login and sign-up\<close>

definition normalize_email :: "env \<Rightarrow> string \<Rightarrow> string" where
  "normalize_email E email = lower_of E (trim_space email)"

definition check_credentials :: "env \<Rightarrow> hasher \<Rightarrow> string \<Rightarrow> string \<Rightarrow> uuid act" where
  "check_credentials E A email pw = scoped E unscoped (\<lambda>q.
     and_then
       (handle (and_then (get_user_by_email q email) (\<lambda>u. ret (Some u)))
          (\<lambda>e. if errors_is e ErrNoRows then ret None else fail e))
       (\<lambda>u. case u of
          None \<Rightarrow> and_then (lift_sum (verify_best_effort A None pw)) (\<lambda>_. ret nil_uuid)
        | Some u \<Rightarrow> and_then (lift_sum (verify_best_effort A (us_password u) pw)) (\<lambda>_. ret (us_id u))))"

definition login :: "env \<Rightarrow> hasher \<Rightarrow> bytes \<Rightarrow> string \<Rightarrow> string \<Rightarrow> string act" where
  "login E A raw email pw =
     and_then (check_credentials E A (normalize_email E email) pw) (\<lambda>uid. issue E raw uid token_ttl None)"

definition pending_invitation :: "env \<Rightarrow> string \<Rightarrow> bool act" where
  "pending_invitation E email = scoped E unscoped (\<lambda>q. has_pending_invitation q (normalize_email E email))"

text \<open>The part before the first @, when it is not empty.\<close>

definition display_name :: "string \<Rightarrow> string" where
  "display_name email =
     (let local = takeWhile (\<lambda>c. c \<noteq> CHR ''@'') email
      in if CHR ''@'' \<in> set email \<and> local \<noteq> [] then local else email)"

definition signup :: "env \<Rightarrow> hasher \<Rightarrow> bytes \<Rightarrow> uuid \<Rightarrow> string \<Rightarrow> string \<Rightarrow> uuid act" where
  "signup E A salt uid email pw =
     (let email = normalize_email E email
      in if email = [] \<or> pw = [] then fail (ErrText ''auth: email and password are required'')
         else and_then (pending_invitation E email) (\<lambda>invited.
           if invited then fail ErrInvited
           else and_then (scoped_rw E unscoped (\<lambda>q.
               create_user q uid email (display_name email) (Some (hash_password A salt pw))))
             (\<lambda>_. ret uid)))"

section \<open>The principal of a request\<close>

definition resolve_actor :: "uuid \<Rightarrow> uuid \<Rightarrow> actor act" where
  "resolve_actor uid tid =
     and_then (on_error ErrNotMember ErrNotMember (is_super_admin uid)) (\<lambda>super.
       if tid = nil_uuid then
         (if super then ret \<lparr>a_user = uid, a_tenant = None, a_role = RoleAuthor, a_platform = True\<rparr>
          else fail ErrNotMember)
       else (\<lambda>d. case membership_role uid tid d of
           (Inr txt, d) \<Rightarrow> (case parse_role txt of
               Inl e \<Rightarrow> (Inl e, d)
             | Inr role \<Rightarrow> (Inr \<lparr>a_user = uid, a_tenant = Some tid, a_role = role, a_platform = super\<rparr>, d))
         | (Inl e, d) \<Rightarrow>
             if errors_is e ErrNotMember \<and> super then
               (Inr \<lparr>a_user = uid, a_tenant = Some tid, a_role = RoleOwner, a_platform = True\<rparr>, d)
             else if errors_is e ErrNotMember then (Inl ErrNotMember, d)
             else (Inl e, d)))"

section \<open>Passwords: the round trip\<close>

text \<open>What is documented of argon2: a version number of 63 bits at most, and keys of the length asked for.\<close>

definition good_hasher :: "hasher \<Rightarrow> bool" where
  "good_hasher A \<longleftrightarrow> h_version A < 2 ^ 63 \<and>
     (\<forall>pw salt. length (h_key A pw salt argon2_time argon2_memory argon2_threads argon2_key_len) = argon2_key_len)"

lemma no_dollar: "CHR ''$'' \<notin> set (b64_encode b64_std s)"
proof -
  have "CHR ''$'' \<notin> set b64_std" by (simp add: b64_std_def b64_common_def)
  then show ?thesis using encode_chars [OF alphabets(1)] by blast
qed

lemma itoa_no_dollar: "CHR ''$'' \<notin> set (itoa n)"
  using itoa_digits [of "CHR ''$''" n] by (auto simp: is_digit_def)

lemma hash_parts:
  "go_split (hash_password A salt pw) CHR ''$'' =
     [[], ''argon2id'', ''v='' @ itoa (h_version A),
      ''m='' @ itoa argon2_memory @ '',t='' @ itoa argon2_time @ '',p='' @ itoa argon2_threads,
      b64_encode b64_std salt,
      b64_encode b64_std (h_key A pw salt argon2_time argon2_memory argon2_threads argon2_key_len)]"
proof -
  let ?key = "h_key A pw salt argon2_time argon2_memory argon2_threads argon2_key_len"
  have eq: "hash_password A salt pw = [] @ CHR ''$'' # ''argon2id'' @ CHR ''$'' # (''v='' @ itoa (h_version A)) @
      CHR ''$'' # (''m='' @ itoa argon2_memory @ '',t='' @ itoa argon2_time @ '',p='' @ itoa argon2_threads) @
      CHR ''$'' # b64_encode b64_std salt @ CHR ''$'' # b64_encode b64_std ?key"
    by (simp add: hash_password_def Let_def)
  have parts: "CHR ''$'' \<notin> set []" "CHR ''$'' \<notin> set ''argon2id''" "CHR ''$'' \<notin> set (''v='' @ itoa (h_version A))"
    "CHR ''$'' \<notin> set (''m='' @ itoa argon2_memory @ '',t='' @ itoa argon2_time @ '',p='' @ itoa argon2_threads)"
    using itoa_no_dollar by auto
  show ?thesis
    unfolding eq go_split_first [OF parts(1)] go_split_first [OF parts(2)] go_split_first [OF parts(3)]
      go_split_first [OF parts(4)] go_split_first [OF no_dollar] go_split_none [OF no_dollar] ..
qed

lemma scan_version_itoa: "n < 2 ^ 63 \<Longrightarrow> scan_version (''v='' @ itoa n) = Some (int n)"
  by (simp add: scan_version_def scan_lit_def has_prefix_def scan_int_itoa)

lemma scan_costs_itoa:
  assumes "m < 2 ^ 32" "t < 2 ^ 32" "p < 2 ^ 32"
  shows "scan_costs (''m='' @ itoa m @ '',t='' @ itoa t @ '',p='' @ itoa p) = Some (m, t, p)"
proof -
  have "scan_uint 32 (itoa m @ CHR '','' # r) = Some (m, CHR '','' # r)"
    "scan_uint 32 (itoa t @ CHR '','' # r) = Some (t, CHR '','' # r)" for r
    using assms by (simp_all add: scan_uint_itoa is_digit_def)
  moreover have "scan_uint 32 (itoa p) = Some (p, [])"
    using assms(3) by (rule scan_uint_itoa_end)
  ultimately show ?thesis by (simp add: scan_costs_def scan_lit_def has_prefix_def)
qed

text \<open>A hash verifies exactly the passwords that derive its key.\<close>

lemma verify_hash_password:
  assumes "good_hasher A"
  shows "verify_password A (hash_password A salt pw) pw' =
    (if h_key A pw' salt argon2_time argon2_memory argon2_threads argon2_key_len =
        h_key A pw salt argon2_time argon2_memory argon2_threads argon2_key_len
     then Inr () else Inl ErrPasswordMismatch)"
proof -
  let ?key = "h_key A pw salt argon2_time argon2_memory argon2_threads argon2_key_len"
  have len: "length ?key = argon2_key_len"
    using assms by (simp add: good_hasher_def)
  moreover from this have "?key \<noteq> []" by (auto simp: argon2_key_len_def)
  moreover have "scan_version (''v='' @ itoa (h_version A)) = Some (int (h_version A))"
    using assms by (intro scan_version_itoa) (simp add: good_hasher_def)
  moreover have "scan_costs (''m='' @ itoa argon2_memory @ '',t='' @ itoa argon2_time @ '',p='' @ itoa argon2_threads) =
      Some (argon2_memory, argon2_time, argon2_threads)"
    by (rule scan_costs_itoa) (simp_all add: argon2_memory_def argon2_time_def argon2_threads_def)
  moreover have "\<not> (argon2_time < 1 \<or> argon2_threads < 1 \<or> argon2_threads > 255 \<or> argon2_memory < 8 * argon2_threads)"
    by (simp add: argon2_memory_def argon2_time_def argon2_threads_def)
  ultimately show ?thesis
    unfolding verify_password_def hash_parts Let_def by (simp add: nth_Cons')
qed

section \<open>The session table as a map\<close>

text \<open>
  What the table promises: per token hash the user and the absolute expiry. The statements on sessions
  refine updates of this map; the scope of a session is not part of it.
\<close>

definition session_map :: "db \<Rightarrow> bytes \<Rightarrow> (uuid \<times> time) option" where
  "session_map d h = map_option (\<lambda>s. (s_user s, s_expires s)) (find (\<lambda>s. s_hash s = h) (sessions d))"

lemma issue_map:
  assumes "issue E raw uid ttl sc d = (Inr tok, d')"
  shows "tok = new_token raw \<and> uid \<noteq> nil_uuid \<and> has_user d uid \<and> session_map d (token_hash E tok) = None \<and>
    session_map d' = (session_map d)(token_hash E tok \<mapsto> (uid, e_now E + ttl)) \<and>
    d' = d\<lparr>sessions := sessions d'\<rparr>"
proof -
  from assms have nz: "uid \<noteq> nil_uuid" and tok: "tok = new_token raw"
    and r: "runs (insert_session (tx_of E False unscoped) (token_hash E tok) uid sc (e_now E + ttl)) d () d'"
    by (auto simp: issue_def Let_def scoped_rw_runs elim!: and_then_InrE split: if_splits)
  from r have no: "find (\<lambda>s. s_hash s = token_hash E tok) (sessions d) = None" and "has_user d uid"
    and d': "d' = d\<lparr>sessions := sessions d @ [\<lparr>s_hash = token_hash E tok, s_user = uid, s_scope = sc,
        s_expires = e_now E + ttl, s_created = e_pgnow E\<rparr>]\<rparr>"
    by (auto simp: insert_session_def runs_write find_None_iff split: if_splits)
  moreover have "session_map d' = (session_map d)(token_hash E tok \<mapsto> (uid, e_now E + ttl))"
    using no unfolding d' by (auto simp: session_map_def find_append_new fun_eq_iff split: option.split)
  ultimately show ?thesis using nz tok by (simp add: session_map_def)
qed

lemma issue_ok:
  assumes "uid \<noteq> nil_uuid" "has_user d uid" "session_map d (token_hash E (new_token raw)) = None"
  shows "\<exists>d'. issue E raw uid ttl sc d = (Inr (new_token raw), d')"
  using assms
  by (auto simp: issue_def Let_def and_then_def scoped_rw_def run_tx_def insert_session_def session_map_def find_None_iff)

lemma logout_map:
  assumes "logout E tok d = (r, d')"
  shows "r = Inr () \<and> session_map d' = (session_map d)(token_hash E tok := None)"
proof -
  have "r = Inr ()" "d' = d\<lparr>sessions := del_rows (\<lambda>s. s_hash s = token_hash E tok) (sessions d)\<rparr>"
    using assms by (auto simp: logout_def scoped_rw_def run_tx_def delete_session_by_token_hash_def)
  then show ?thesis by (auto simp: session_map_def find_del fun_eq_iff)
qed

lemma set_scope_map:
  assumes "scoped_rw E sc (\<lambda>q. set_session_scope q h t) d = (r, d')"
  shows "session_map d' = session_map d"
proof -
  have "map_option (\<lambda>s. (s_user s, s_expires s)) (find (\<lambda>s. s_hash s = k)
        (upd_rows (\<lambda>s. s_hash s = h) (\<lambda>s. s\<lparr>s_scope := t\<rparr>) rs)) =
      map_option (\<lambda>s. (s_user s, s_expires s)) (find (\<lambda>s. s_hash s = k) rs)" for k rs
    by (induction rs) auto
  moreover have "d' = d \<or> d' = d\<lparr>sessions := upd_rows (\<lambda>s. s_hash s = h) (\<lambda>s. s\<lparr>s_scope := t\<rparr>) (sessions d)\<rparr>"
    using assms
    by (auto simp: scoped_rw_def run_tx_def set_session_scope_def and_then_def affected_def split: if_splits prod.splits sum.splits)
  ultimately show ?thesis by (auto simp: session_map_def fun_eq_iff)
qed

lemma verify_map:
  "(\<exists>sc. fst (verify_session E tok d) = Inr (u, sc)) \<longleftrightarrow>
     (\<exists>e. session_map d (token_hash E tok) = Some (u, e) \<and> e_now E < e)"
  by (cases "find (\<lambda>s. s_hash s = token_hash E tok) (sessions d)")
    (auto simp: verify_session_def scoped_def run_tx_def get_session_by_token_hash_def and_then_def handle_def
      session_map_def)

section \<open>Sessions over time\<close>

text \<open>
  Any interleaving of requests, one transaction after another: tokens are issued and revoked, the
  active tenant of a session is switched, other requests change other tables, and time passes. The
  field \<open>ss_live\<close> records, apart from the database, which hashes were issued and not revoked since.
\<close>

record session_sys =
  ss_db :: db
  ss_now :: time
  ss_live :: "bytes \<Rightarrow> (uuid \<times> time) option"

inductive session_step :: "env \<Rightarrow> session_sys \<Rightarrow> session_sys \<Rightarrow> bool" for E where
  se_issue: "issue (at_time E (ss_now y) (ss_now y)) raw uid ttl sc (ss_db y) = (Inr tok, d') \<Longrightarrow>
     session_step E y (y\<lparr>ss_db := d', ss_live := (ss_live y)(token_hash E tok \<mapsto> (uid, ss_now y + ttl))\<rparr>)"
| se_refused: "issue (at_time E (ss_now y) (ss_now y)) raw uid ttl sc (ss_db y) = (Inl e, d') \<Longrightarrow>
     session_step E y (y\<lparr>ss_db := d'\<rparr>)"
| se_logout: "logout (at_time E (ss_now y) (ss_now y)) tok (ss_db y) = (r, d') \<Longrightarrow>
     session_step E y (y\<lparr>ss_db := d', ss_live := (ss_live y)(token_hash E tok := None)\<rparr>)"
| se_scope: "scoped_rw (at_time E (ss_now y) (ss_now y)) unscoped (\<lambda>q. set_session_scope q h t) (ss_db y) = (r, d') \<Longrightarrow>
     session_step E y (y\<lparr>ss_db := d'\<rparr>)"
| se_other: "sessions d' = sessions (ss_db y) \<Longrightarrow> session_step E y (y\<lparr>ss_db := d'\<rparr>)"
| se_tick: "0 \<le> dt \<Longrightarrow> session_step E y (y\<lparr>ss_now := ss_now y + dt\<rparr>)"

definition session_start :: "session_sys \<Rightarrow> bool" where
  "session_start y \<longleftrightarrow> sessions (ss_db y) = [] \<and> ss_live y = (\<lambda>h. None)"

definition sessions_exact :: "session_sys \<Rightarrow> bool" where
  "sessions_exact y \<longleftrightarrow> session_map (ss_db y) = ss_live y"

lemma token_hash_clock [simp]: "token_hash (at_time E n m) tok = token_hash E tok"
  by (simp add: token_hash_def)

lemma issue_InlD: "issue E raw uid ttl sc d = (Inl e, d') \<Longrightarrow> d' = d"
  by (auto simp: issue_def Let_def and_then_def dest: scoped_rw_InlD split: if_splits prod.splits sum.splits)

interpretation session_table: invariant_system session_start "session_step E" sessions_exact for E
proof
  show "session_start y \<Longrightarrow> sessions_exact y" for y
    by (simp add: session_start_def sessions_exact_def session_map_def fun_eq_iff)
next
  fix y y'
  assume inv: "sessions_exact y" and "session_step E y y'"
  from this(2) show "sessions_exact y'"
  proof cases
    case (se_issue raw uid ttl sc tok d')
    then show ?thesis using inv issue_map [OF se_issue(2)] by (simp add: sessions_exact_def)
  next
    case (se_refused raw uid ttl sc e d')
    then show ?thesis using inv issue_InlD [OF se_refused(2)] by (simp add: sessions_exact_def)
  next
    case (se_logout tok r d')
    then show ?thesis using inv logout_map [OF se_logout(2)] by (simp add: sessions_exact_def)
  next
    case (se_scope h t r d')
    then show ?thesis using inv set_scope_map [OF se_scope(2)] by (simp add: sessions_exact_def)
  next
    case (se_other d')
    then show ?thesis using inv by (simp add: sessions_exact_def session_map_def fun_eq_iff)
  qed (use inv in \<open>simp add: sessions_exact_def\<close>)
qed

section \<open>Credentials\<close>

definition has_email :: "env \<Rightarrow> string \<Rightarrow> user \<Rightarrow> bool" where
  "has_email E email u \<longleftrightarrow> to_lower (e_sql_lower E) (us_email u) = to_lower (e_sql_lower E) email"

definition credentials_ok :: "hasher \<Rightarrow> user \<Rightarrow> string \<Rightarrow> bool" where
  "credentials_ok A u pw \<longleftrightarrow> (\<exists>h. us_password u = Some h \<and> verify_password A h pw = Inr ())"

lemma best_effort: "verify_best_effort A (us_password u) pw = (if credentials_ok A u pw then Inr () else Inl ErrInvalidCredentials)"
  by (auto simp: verify_best_effort_def credentials_ok_def split: option.splits sum.splits)

lemma run_credentials:
  "check_credentials E A email pw d =
     (case find (has_email E email) (users d) of
        Some u \<Rightarrow> if credentials_ok A u pw then (Inr (us_id u), d) else (Inl ErrInvalidCredentials, d)
      | None \<Rightarrow> (Inl ErrInvalidCredentials, d))"
proof (cases "find (has_email E email) (users d)")
  case None
  then show ?thesis
    by (simp add: check_credentials_def scoped_def run_tx_def get_user_by_email_def and_then_def handle_def
        has_email_def [abs_def] verify_best_effort_def)
next
  case (Some u)
  then show ?thesis
    by (simp add: check_credentials_def scoped_def run_tx_def get_user_by_email_def and_then_def handle_def
        has_email_def [abs_def] best_effort)
qed

lemma signup_effect:
  assumes "signup E A salt uid email pw d = (Inr u, d')"
  shows "u = uid \<and> find (has_email E (normalize_email E email)) (users d) = None \<and> sessions d' = sessions d \<and>
    (\<exists>r. users d' = users d @ [r] \<and> us_id r = uid \<and> has_email E (normalize_email E email) r \<and>
       us_password r = Some (hash_password A salt pw))"
proof -
  let ?q = "tx_of E False unscoped" and ?e = "normalize_email E email"
  from assms obtain d1 where d1: "pending_invitation E ?e d = (Inr False, d1)" and u: "u = uid"
    and r: "runs (create_user ?q uid ?e (display_name ?e) (Some (hash_password A salt pw))) d1 () d'"
    by (auto simp: signup_def Let_def scoped_rw_runs elim!: and_then_InrE split: if_splits)
  have "d1 = d" using d1 by (auto simp: pending_invitation_def scoped_runs has_pending_invitation_def runs_read)
  with r u show ?thesis
    by (auto simp: create_user_def runs_write has_email_def find_None_iff split: if_splits)
qed

section \<open>Properties\<close>


text \<open>
  Login accepts credentials and nothing else, and tells nothing: it issues a session for 30 days to
  the account of the normalized email whose stored hash the password verifies, and an unknown email, an
  account without a password and a wrong password are all answered with the same error, the database
  untouched.
\<close>

theorem login_credentials:
  "login E A raw email pw d =
     (case find (has_email E (normalize_email E email)) (users d) of
        Some u \<Rightarrow> if credentials_ok A u pw then issue E raw (us_id u) token_ttl None d
                  else (Inl ErrInvalidCredentials, d)
      | None \<Rightarrow> (Inl ErrInvalidCredentials, d))"
  by (auto simp: login_def and_then_def run_credentials split: option.split)

text \<open>
  C30. Sign-up, login and sessions fit together: whoever signed up can log in with that password under
  any spelling of the email that normalizes to the same text and gets a token that is accepted for the
  new account, and a password that derives another key is refused; for a fresh token.
\<close>

theorem signup_then_login:
  assumes "good_hasher A" "signup E A salt uid email pw d = (Inr u, d')" "uid \<noteq> nil_uuid"
    and "normalize_email E email' = normalize_email E email" "session_map d (token_hash E (new_token raw)) = None"
  shows "(\<exists>d'' sc. login E A raw email' pw d' = (Inr (new_token raw), d'') \<and>
      fst (verify_session E (new_token raw) d'') = Inr (uid, sc)) \<and>
    (h_key A pw' salt argon2_time argon2_memory argon2_threads argon2_key_len \<noteq>
       h_key A pw salt argon2_time argon2_memory argon2_threads argon2_key_len \<longrightarrow>
     login E A raw email' pw' d' = (Inl ErrInvalidCredentials, d'))"
proof -
  obtain r where r: "find (has_email E (normalize_email E email)) (users d) = None" "sessions d' = sessions d"
    "users d' = users d @ [r]" "us_id r = uid" "has_email E (normalize_email E email) r"
    "us_password r = Some (hash_password A salt pw)"
    using signup_effect [OF assms(2)] by blast
  have find: "find (has_email E (normalize_email E email')) (users d') = Some r"
    using r assms(4) by (simp add: find_append_new)
  have ok: "credentials_ok A r p \<longleftrightarrow> h_key A p salt argon2_time argon2_memory argon2_threads argon2_key_len =
       h_key A pw salt argon2_time argon2_memory argon2_threads argon2_key_len" for p
    using r(6) verify_hash_password [OF assms(1)] by (auto simp: credentials_ok_def)
  have log: "login E A raw email' p d' =
      (if credentials_ok A r p then issue E raw uid token_ttl None d' else (Inl ErrInvalidCredentials, d'))" for p
    using find r(4) by (simp add: login_def and_then_def run_credentials)
  have "has_user d' uid" using r(3,4) by (simp add: has_user_def)
  moreover have "session_map d' (token_hash E (new_token raw)) = None"
    using r(2) assms(5) by (simp add: session_map_def)
  ultimately obtain d'' where i: "issue E raw uid token_ttl None d' = (Inr (new_token raw), d'')"
    using issue_ok [OF assms(3)] by blast
  have "session_map d'' (token_hash E (new_token raw)) = Some (uid, e_now E + token_ttl)"
    using issue_map [OF i] by simp
  then have "\<exists>sc. fst (verify_session E (new_token raw) d'') = Inr (uid, sc)"
    using verify_map [of E "new_token raw" d'' uid] by (simp add: token_ttl_def)
  then show ?thesis using log ok i by auto
qed

text \<open>
  C12. A request acts only as what its user is: the principal resolved for a user and a tenant carries
  that user and exactly that tenant; it is a platform operator if and only if the user is a super admin;
  and its role is the one of the user's membership, or owner for a super admin without one. Everyone
  else is refused.
\<close>

theorem resolve_actor_sound:
  "(case resolve_actor uid tid d of
      (Inr a, d') \<Rightarrow> d' = d \<and> a_user a = uid \<and> a_tenant a = (if tid = nil_uuid then None else Some tid) \<and>
        (\<exists>x \<in> set (users d). us_id x = uid \<and> us_super x = a_platform a) \<and>
        (if tid = nil_uuid then a_platform a
         else (\<exists>m \<in> set (memberships d). of_member tid uid m \<and> m_role m = role_string (a_role a)) \<or>
              (a_platform a \<and> a_role a = RoleOwner \<and> (\<forall>m \<in> set (memberships d). \<not> of_member tid uid m)))
    | (Inl e, d') \<Rightarrow> d' = d \<and>
        (e = ErrNotMember \<or> (\<exists>m \<in> set (memberships d). of_member tid uid m \<and> parse_role (m_role m) = Inl e)))"
  by (auto simp: resolve_actor_def and_then_def handle_def is_super_admin_def membership_role_def
      dest: find_SomeD find_NoneD dest!: parse_role_InrD split: option.split sum.split if_splits)

section \<open>One account\<close>

text \<open>A key derivation that pads or cuts the password to the length asked for.\<close>

definition sample_hasher :: hasher where
  "sample_hasher = \<lparr>h_version = 19, h_key = (\<lambda>pw salt t m p n. take n (pw @ replicate n (CHR 0x00)))\<rparr>"

lemma sample_hasher_good: "good_hasher sample_hasher"
  by (simp add: good_hasher_def sample_hasher_def argon2_key_len_def min_def)

definition sample_signed_up :: db where
  "sample_signed_up = empty_db\<lparr>users := [\<lparr>us_id = 5, us_email = ''ann@example.com'',
     us_password = Some (hash_password sample_hasher ''salt'' ''secret''), us_display = ''ann'', us_super = False,
     us_created = 50\<rparr>]\<rparr>"

lemma sample_email [simp]: "normalize_email sample_env ''ann@example.com'' = ''ann@example.com''"
proof -
  have "trim_space ''ann@example.com'' = ''ann@example.com''"
    by (rule trim_space_visible) (simp add: visible_char_def)
  then show ?thesis
    by (simp add: normalize_email_def to_lower_def lower_byte_def is_ascii_def is_upper_def)
qed

lemma sample_pgnow: "e_pgnow sample_env = 50"
  by (simp add: sample_env_def)

lemma sample_signup:
  "signup sample_env sample_hasher ''salt'' 5 ''ann@example.com'' ''secret'' empty_db = (Inr 5, sample_signed_up)"
  by (simp add: signup_def Let_def pending_invitation_def and_then_def scoped_def scoped_rw_def run_tx_def
      has_pending_invitation_def create_user_def empty_db_def sample_signed_up_def display_name_def sample_pgnow)

theorem signup_then_login_witness:
  "\<exists>d'' sc. login sample_env sample_hasher ''raw'' ''ann@example.com'' ''secret'' sample_signed_up =
      (Inr (new_token ''raw''), d'') \<and> fst (verify_session sample_env (new_token ''raw'') d'') = Inr (5, sc)"
proof -
  have "session_map empty_db h = None" for h by (simp add: session_map_def empty_db_def)
  then show ?thesis
    using signup_then_login [OF sample_hasher_good sample_signup, of "''ann@example.com''" "''raw''" "''other''"] by simp
qed

text \<open>A session issued to that account, seen through the system.\<close>

definition sample_logged_out :: session_sys where
  "sample_logged_out = \<lparr>ss_db = sample_signed_up, ss_now = 100, ss_live = (\<lambda>h. None)\<rparr>"


theorem resolve_actor_sound_witness:
  "resolve_actor 9 1 sample_signed_up = (Inl ErrNotMember, sample_signed_up)"
  using resolve_actor_sound [where uid = 9 and tid = 1 and d = sample_signed_up]
  by (simp add: sample_signed_up_def empty_db_def split: prod.splits sum.splits)

end
