(* ===== verification/OAuth.thy ===== *)
theory OAuth
  imports OAuthStore Auth
begin

text \<open>
  internal/oauth: sign-in with an identity provider. Requests to the providers, AES-GCM and the
  decoding of the providers' JSON are the record \<open>idp\<close> of parameters; random bytes and fresh ids are
  arguments.
\<close>

section \<open>Providers\<close>

record oauth_conf =
  oc_client :: string
  oc_secret :: string
  oc_auth_url :: string
  oc_token_url :: string
  oc_redirect :: string
  oc_scopes :: "string list"

record claims =
  cl_subject :: string
  cl_email :: string
  cl_verified :: bool
  cl_name :: string

text \<open>\<open>oauth2.Token\<close>; \<open>ot_scope\<close> is \<open>Extra("scope")\<close> when that is a string.\<close>

record token =
  ot_access :: string
  ot_refresh :: string
  ot_expiry :: "time option"
  ot_scope :: "string option"

text \<open>What the providers' JSON answers decode to.\<close>

record google_info =
  gi_sub :: string
  gi_email :: string
  gi_verified :: bool
  gi_name :: string

record github_user =
  gu_id :: int
  gu_login :: string
  gu_name :: string
  gu_email :: string

record github_email =
  ge_email :: string
  ge_primary :: bool
  ge_verified :: bool

text \<open>
  \<^item> \<open>x_do\<close>: a GET with a bearer token and headers, as status and body;
  \<^item> \<open>x_google\<close>, \<open>x_github_user\<close>, \<open>x_github_emails\<close>: \<open>json.Unmarshal\<close> into the three structs;
  \<^item> \<open>x_exchange\<close>, \<open>x_refresh\<close>: the code exchange and the refresh of golang.org/x/oauth2;
  \<^item> \<open>x_auth_url\<close>: its \<open>AuthCodeURL\<close> with offline access and the extra parameters;
  \<^item> \<open>x_seal\<close>, \<open>x_open\<close>: AES-GCM under key and nonce.
\<close>

record idp =
  x_do :: "string \<Rightarrow> string \<Rightarrow> (string \<times> string) list \<Rightarrow> error + (nat \<times> bytes)"
  x_google :: "bytes \<Rightarrow> google_info option"
  x_github_user :: "bytes \<Rightarrow> github_user option"
  x_github_emails :: "bytes \<Rightarrow> github_email list option"
  x_exchange :: "oauth_conf \<Rightarrow> string \<Rightarrow> string \<Rightarrow> token option"
  x_refresh :: "oauth_conf \<Rightarrow> token \<Rightarrow> token option"
  x_auth_url :: "oauth_conf \<Rightarrow> string \<Rightarrow> (string \<times> string) list \<Rightarrow> string"
  x_seal :: "bytes \<Rightarrow> bytes \<Rightarrow> bytes \<Rightarrow> bytes"
  x_open :: "bytes \<Rightarrow> bytes \<Rightarrow> bytes \<Rightarrow> bytes option"

definition get_json :: "idp \<Rightarrow> string \<Rightarrow> string \<Rightarrow> (string \<times> string) list \<Rightarrow> error + bytes" where
  "get_json X u access headers =
     (case x_do X u access headers of
        Inl e \<Rightarrow> Inl e
      | Inr (status, b) \<Rightarrow>
          if status \<noteq> 200 then Inl (ErrText (''oauth: userinfo '' @ u @ '' returned '' @ itoa status))
          else Inr (take (2 ^ 20) b))"

definition oidc_userinfo :: "idp \<Rightarrow> string \<Rightarrow> string \<Rightarrow> error + claims" where
  "oidc_userinfo X u access =
     (case get_json X u access [] of
        Inl e \<Rightarrow> Inl e
      | Inr b \<Rightarrow> (case x_google X b of
            None \<Rightarrow> Inl (ErrText ''json'')
          | Some v \<Rightarrow>
              if gi_sub v = [] then Inl (ErrText ''oauth: google userinfo missing sub'')
              else Inr \<lparr>cl_subject = gi_sub v, cl_email = gi_email v, cl_verified = gi_verified v, cl_name = gi_name v\<rparr>))"

text \<open>Of the listed addresses the verified primary one, else a verified one, else the first.\<close>

definition select_email :: "github_email list \<Rightarrow> claims \<Rightarrow> claims" where
  "select_email es c =
     (case find (\<lambda>e. ge_verified e \<and> ge_primary e) es of
        Some e \<Rightarrow> c\<lparr>cl_email := ge_email e, cl_verified := True\<rparr>
      | None \<Rightarrow> (case find ge_verified es of
            Some e \<Rightarrow> c\<lparr>cl_email := ge_email e, cl_verified := True\<rparr>
          | None \<Rightarrow> (case es of
                [] \<Rightarrow> c
              | e # _ \<Rightarrow> c\<lparr>cl_email := ge_email e, cl_verified := ge_verified e\<rparr>)))"

definition github_accept :: "(string \<times> string) list" where
  "github_accept = [(''Accept'', ''application/vnd.github+json'')]"

definition github_user_and_emails :: "idp \<Rightarrow> string \<Rightarrow> string \<Rightarrow> string \<Rightarrow> error + claims" where
  "github_user_and_emails X user_url emails_url access =
     (case get_json X user_url access github_accept of
        Inl e \<Rightarrow> Inl e
      | Inr b \<Rightarrow> (case x_github_user X b of
            None \<Rightarrow> Inl (ErrText ''json'')
          | Some u \<Rightarrow>
              if gu_id u = 0 then Inl (ErrText ''oauth: github user missing id'')
              else
                let c = \<lparr>cl_subject = int_string (gu_id u), cl_email = gu_email u, cl_verified = False,
                         cl_name = (if gu_name u = [] then gu_login u else gu_name u)\<rparr>
                in (case get_json X emails_url access github_accept of
                      Inl e \<Rightarrow> Inr c
                    | Inr eb \<Rightarrow> (case x_github_emails X eb of
                          None \<Rightarrow> Inr c
                        | Some es \<Rightarrow> Inr (select_email es c)))))"

section \<open>Configuration\<close>

record provider_config =
  pc_client :: string
  pc_secret :: string
  pc_auth_url :: string
  pc_token_url :: string
  pc_redirect :: string
  pc_userinfo :: string
  pc_scopes :: "string list"

record provider =
  pv_conf :: oauth_conf
  pv_claims :: "string \<Rightarrow> error + claims"

record oauth =
  oa_key :: bytes
  oa_google :: provider
  oa_github :: provider
  oa_allow :: "url list"
  oa_ttl :: time

definition google_drive_readonly :: string where
  "google_drive_readonly = ''https://www.googleapis.com/auth/drive.readonly''"

definition flow_ttl :: time where
  "flow_ttl = 15 * 60 * second"

definition refresh_margin :: time where
  "refresh_margin = 30 * second"

definition or_default :: "string \<Rightarrow> string \<Rightarrow> string" where
  "or_default given fallback = (if given = [] then fallback else given)"

definition oauth_conf_of :: "provider_config \<Rightarrow> string \<Rightarrow> string \<Rightarrow> string list \<Rightarrow> oauth_conf" where
  "oauth_conf_of c auth_url token_url scopes =
     \<lparr>oc_client = pc_client c, oc_secret = pc_secret c, oc_auth_url = or_default (pc_auth_url c) auth_url,
      oc_token_url = or_default (pc_token_url c) token_url, oc_redirect = pc_redirect c,
      oc_scopes = (if pc_scopes c = [] then scopes else pc_scopes c)\<rparr>"

definition oauth_new :: "idp \<Rightarrow> bytes \<Rightarrow> provider_config \<Rightarrow> provider_config \<Rightarrow> url list \<Rightarrow> time \<Rightarrow> error + oauth" where
  "oauth_new X key google github allow ttl =
     (if length key \<noteq> 32 then Inl (ErrText ''oauth: key must be exactly 32 bytes (AES-256-GCM)'')
      else Inr \<lparr>oa_key = key,
        oa_google = \<lparr>
          pv_conf = oauth_conf_of google ''https://accounts.google.com/o/oauth2/v2/auth''
            ''https://oauth2.googleapis.com/token'' [''openid'', ''email'', ''profile''],
          pv_claims = oidc_userinfo X (or_default (pc_userinfo google) ''https://openidconnect.googleapis.com/v1/userinfo'')\<rparr>,
        oa_github = \<lparr>
          pv_conf = oauth_conf_of github ''https://github.com/login/oauth/authorize''
            ''https://github.com/login/oauth/access_token'' [''read:user'', ''user:email''],
          pv_claims = github_user_and_emails X (or_default (pc_userinfo github) ''https://api.github.com/user'')
            ''https://api.github.com/user/emails''\<rparr>,
        oa_allow = allow, oa_ttl = (if ttl \<le> 0 then token_ttl else ttl)\<rparr>)"

definition provider_of :: "oauth \<Rightarrow> string \<Rightarrow> provider option" where
  "provider_of P name =
     (if name = ''google'' then Some (oa_google P) else if name = ''github'' then Some (oa_github P) else None)"

section \<open>Keys and hashes\<close>

text \<open>AES takes keys of 16, 24 or 32 bytes; the nonce of GCM has 12.\<close>

definition nonce_size :: nat where
  "nonce_size = 12"

definition new_gcm :: "bytes \<Rightarrow> error + unit" where
  "new_gcm key = (if length key \<in> {16, 24, 32} then Inr () else Inl (ErrText ''crypto/aes: invalid key size''))"

definition seal :: "idp \<Rightarrow> bytes \<Rightarrow> bytes \<Rightarrow> bytes \<Rightarrow> error + bytes" where
  "seal X nonce key plaintext =
     (case new_gcm key of Inl e \<Rightarrow> Inl e | Inr _ \<Rightarrow> Inr (nonce @ x_seal X key nonce plaintext))"

definition open_sealed :: "idp \<Rightarrow> bytes \<Rightarrow> bytes \<Rightarrow> error + bytes" where
  "open_sealed X key sealed =
     (case new_gcm key of
        Inl e \<Rightarrow> Inl e
      | Inr _ \<Rightarrow>
          if length sealed < nonce_size then Inl ErrDecrypt
          else case x_open X key (take nonce_size sealed) (drop nonce_size sealed) of
            None \<Rightarrow> Inl ErrDecrypt
          | Some pt \<Rightarrow> Inr pt)"

definition code_challenge :: "env \<Rightarrow> bytes \<Rightarrow> string" where
  "code_challenge E verifier = b64_encode b64_url (e_sha256 E verifier)"

definition session_hash :: "env \<Rightarrow> string \<Rightarrow> bytes option" where
  "session_hash E tok = (if tok = [] then None else Some (e_sha256 E tok))"

section \<open>Scopes and names\<close>

text \<open>\<open>strings.Fields\<close>: the maximal runs of characters that are not white space.\<close>

function fields_from :: "string \<Rightarrow> string \<Rightarrow> string list" where
  "fields_from word [] = (if word = [] then [] else [rev word])"
| "fields_from word (c # s) =
     (case find (\<lambda>sp. sp \<noteq> [] \<and> has_prefix (c # s) sp) all_spaces of
        None \<Rightarrow> fields_from (c # word) s
      | Some sp \<Rightarrow> (if word = [] then [] else [rev word]) @ fields_from [] (drop (length sp) (c # s)))"
  by pat_completeness auto
termination
  by (relation "measure (\<lambda>(word, s). length s)") (auto dest!: find_SomeD simp: Suc_diff_le)

definition go_fields :: "string \<Rightarrow> string list" where
  "go_fields s = fields_from [] s"

definition merge_scopes :: "string list \<Rightarrow> string list \<Rightarrow> string list" where
  "merge_scopes base extra = foldl (\<lambda>out s. if s \<in> set out then out else out @ [s]) [] (base @ extra)"

definition scope_set :: "string \<Rightarrow> string set" where
  "scope_set joined = {s \<in> set (go_split joined CHR '',''). s \<noteq> []}"

definition granted_scopes :: "string \<Rightarrow> token \<Rightarrow> oauth_conf \<Rightarrow> string" where
  "granted_scopes provider tok conf =
     (case (if provider = ''google'' then ot_scope tok else None) of
        Some s \<Rightarrow> if s \<noteq> [] then go_join (go_fields s) '','' else go_join (oc_scopes conf) '',''
      | None \<Rightarrow> go_join (oc_scopes conf) '','')"

definition claims_display :: "claims \<Rightarrow> string \<Rightarrow> string" where
  "claims_display c email = (if cl_name c \<noteq> [] then cl_name c else display_name email)"

section \<open>Redirects\<close>

text \<open>
  \<open>strings.EqualFold\<close>: the case of ASCII letters is ignored; \<open>alike\<close> decides on other strings.
\<close>

definition equal_fold :: "(string \<Rightarrow> string \<Rightarrow> bool) \<Rightarrow> string \<Rightarrow> string \<Rightarrow> bool" where
  "equal_fold alike s t =
     (if list_all is_ascii s \<and> list_all is_ascii t then map lower_byte s = map lower_byte t else alike s t)"

definition under_base :: "(string \<Rightarrow> string \<Rightarrow> bool) \<Rightarrow> url \<Rightarrow> url \<Rightarrow> bool" where
  "under_base alike u base =
     (equal_fold alike (u_scheme u) (u_scheme base) \<and> equal_fold alike (u_host u) (u_host base) \<and>
      (let prefix = trim_right (u_path base) ''/''
       in u_path u = u_path base \<or> (prefix \<noteq> [] \<and> has_prefix (u_path u) (prefix @ ''/'')) \<or>
          (prefix = [] \<and> has_prefix (u_path u) ''/'')))"

definition is_allowed_redirect :: "env \<Rightarrow> (string \<Rightarrow> string \<Rightarrow> bool) \<Rightarrow> oauth \<Rightarrow> string \<Rightarrow> bool" where
  "is_allowed_redirect E alike P callback =
     (case e_url E callback of
        None \<Rightarrow> False
      | Some u \<Rightarrow> u_scheme u \<noteq> [] \<and> \<not> u_user u \<and> u_host u \<noteq> [] \<and> list_ex (under_base alike u) (oa_allow P))"

section \<open>Start\<close>

text \<open>\<open>st\<close>, \<open>verifier\<close> and \<open>fid\<close>: the random state, the random PKCE verifier and the flow's id.\<close>

definition oauth_start ::
  "env \<Rightarrow> idp \<Rightarrow> (string \<Rightarrow> string \<Rightarrow> bool) \<Rightarrow> oauth \<Rightarrow> bytes \<Rightarrow> bytes \<Rightarrow> uuid \<Rightarrow>
     string \<Rightarrow> string \<Rightarrow> string \<Rightarrow> string list \<Rightarrow> string act" where
  "oauth_start E X alike P st verifier fid name redirect tok extra =
     (case provider_of P name of
        None \<Rightarrow> fail ErrUnknownProvider
      | Some p \<Rightarrow>
          if \<not> is_allowed_redirect E alike P redirect then fail ErrDisallowedRedirect
          else
            let flow = \<lparr>f_id = fid, f_provider = name, f_state = e_sha256 E st, f_verifier = verifier,
                  f_redirect = redirect, f_session = session_hash E tok, f_expires = e_now E + flow_ttl, f_created = 0\<rparr>
            in and_then (scoped_rw E unscoped (\<lambda>q. insert_oauth_flow q flow)) (\<lambda>_.
                 ret (x_auth_url X ((pv_conf p)\<lparr>oc_scopes := merge_scopes (oc_scopes (pv_conf p)) extra\<rparr>) st
                   [(''code_challenge'', code_challenge E verifier), (''code_challenge_method'', ''S256'')])))"

section \<open>Identities\<close>

definition link_identity_tx :: "tx \<Rightarrow> uuid \<Rightarrow> string \<Rightarrow> string \<Rightarrow> unit txn" where
  "link_identity_tx q uid provider subject =
     and_then (maybe_row (get_identity q provider subject)) (\<lambda>i. case i of
       Some i \<Rightarrow> if id_user i = uid then ret () else fail ErrIdentityTaken
     | None \<Rightarrow> handle (insert_identity q provider subject uid) (\<lambda>e s.
         case get_identity q provider subject s of
           (Inr i, s) \<Rightarrow> if id_user i = uid then (Inr (), s) else (Inl ErrIdentityTaken, s)
         | (Inl _, s) \<Rightarrow> (Inl e, s)))"

definition link_identity :: "env \<Rightarrow> uuid \<Rightarrow> string \<Rightarrow> string \<Rightarrow> unit act" where
  "link_identity E uid provider subject =
     (if uid = nil_uuid then fail ErrOAuthInvalidUserID
      else if subject = [] then fail (ErrText ''oauth: identity subject is required'')
      else scoped_rw E unscoped (\<lambda>q. link_identity_tx q uid provider subject))"

definition consume_invitation :: "env \<Rightarrow> string \<Rightarrow> uuid option \<Rightarrow> (uuid \<times> string) act" where
  "consume_invitation E email tid =
     (let email = normalize_email E email
      in if email = [] then fail (ErrText ''oauth: email is required'')
         else on_error ErrNoRows ErrNoInvitation
           (scoped_rw E unscoped (\<lambda>q. consume_pending_invitation q email tid)))"

text \<open>\<open>uid\<close>: the id minted for a new user.\<close>

definition resolve_identity :: "env \<Rightarrow> uuid \<Rightarrow> string \<Rightarrow> claims \<Rightarrow> uuid act" where
  "resolve_identity E uid provider c =
     (let email = normalize_email E (cl_email c)
      in scoped_rw E unscoped (\<lambda>q.
        and_then (maybe_row (get_identity q provider (cl_subject c))) (\<lambda>i. case i of
          Some i \<Rightarrow> ret (id_user i)
        | None \<Rightarrow>
            if \<not> cl_verified c \<or> email = [] then fail ErrUnverifiedEmail
            else and_then (maybe_row (get_user_by_email q email)) (\<lambda>u.
              and_then
                (case u of
                   Some u \<Rightarrow> ret (us_id u)
                 | None \<Rightarrow> and_then (create_user q uid email (claims_display c email) None) (\<lambda>_. ret uid))
                (\<lambda>uid. and_then (link_identity_tx q uid provider (cl_subject c)) (\<lambda>_.
                   and_then (maybe_row (consume_pending_invitation q email None)) (\<lambda>inv. case inv of
                     None \<Rightarrow> ret uid
                   | Some (t, role) \<Rightarrow> and_then (add_membership_if_absent q t uid role) (\<lambda>_. ret uid))))))))"

section \<open>Tokens\<close>

text \<open>\<open>n1\<close> and \<open>n2\<close>: the nonces of the access and the refresh token.\<close>

definition store_oauth_token ::
  "env \<Rightarrow> idp \<Rightarrow> oauth \<Rightarrow> bytes \<Rightarrow> bytes \<Rightarrow> uuid \<Rightarrow> string \<Rightarrow> provider \<Rightarrow> token \<Rightarrow> unit act" where
  "store_oauth_token E X P n1 n2 uid name p tok =
     and_then (lift_sum (seal X n1 (oa_key P) (ot_access tok))) (\<lambda>enc_access.
       and_then
         (if ot_refresh tok \<noteq> []
          then and_then (lift_sum (seal X n2 (oa_key P) (ot_refresh tok))) (\<lambda>r. ret (Some r))
          else ret None)
         (\<lambda>enc_refresh. scoped_rw E unscoped (\<lambda>q. upsert_oauth_token q
            \<lparr>k_user = uid, k_provider = name, k_refresh = enc_refresh, k_access = Some enc_access,
             k_scopes = granted_scopes name tok (pv_conf p), k_expiry = ot_expiry tok\<rparr>)))"

definition get_google_token :: "env \<Rightarrow> idp \<Rightarrow> oauth \<Rightarrow> bytes \<Rightarrow> bytes \<Rightarrow> uuid \<Rightarrow> bool \<Rightarrow> string act" where
  "get_google_token E X P n1 n2 uid drive =
     and_then (on_error ErrNoRows ErrNoToken (scoped E unscoped (\<lambda>q. get_oauth_token_by_user q uid ''google''))) (\<lambda>stored.
       if drive \<and> google_drive_readonly \<notin> scope_set (k_scopes stored) then fail ErrScopeMissing
       else case open_sealed X (oa_key P) (case k_access stored of None \<Rightarrow> [] | Some a \<Rightarrow> a) of
         Inl _ \<Rightarrow> fail ErrDecrypt
       | Inr access \<Rightarrow>
           if (case k_expiry stored of None \<Rightarrow> False | Some e \<Rightarrow> e - e_now E > refresh_margin) then ret access
           else (case (case k_refresh stored of None \<Rightarrow> [] | Some r \<Rightarrow> r) of
             [] \<Rightarrow> fail ErrRefreshFailed
           | sealed \<Rightarrow> (case open_sealed X (oa_key P) sealed of
               Inl _ \<Rightarrow> fail ErrDecrypt
             | Inr refresh \<Rightarrow>
                 (case x_refresh X (pv_conf (oa_google P))
                      \<lparr>ot_access = access, ot_refresh = refresh, ot_expiry = Some (e_now E - 60 * second), ot_scope = None\<rparr> of
                    None \<Rightarrow> fail ErrRefreshFailed
                  | Some nt \<Rightarrow>
                      if ot_access nt = [] then fail ErrRefreshFailed
                      else and_then (store_oauth_token E X P n1 n2 uid ''google'' (oa_google P) nt) (\<lambda>_.
                        ret (ot_access nt))))))"

section \<open>Callback\<close>

record callback_result =
  cr_session :: string
  cr_user :: uuid
  cr_redirect :: string
  cr_provider :: string

text \<open>\<open>raw\<close>: the random bytes of the session's token.\<close>

text \<open>The flow that the state and the session entitle to, and what follows once it is consumed.\<close>

abbreviation entitled :: "env \<Rightarrow> string \<Rightarrow> string \<Rightarrow> oauth_flow \<Rightarrow> bool" where
  "entitled E st tok \<equiv> redeemable (tx_of E False unscoped) (e_sha256 E st) (session_hash E tok)"

definition callback_rest ::
  "env \<Rightarrow> idp \<Rightarrow> oauth \<Rightarrow> uuid \<Rightarrow> bytes \<Rightarrow> bytes \<Rightarrow> bytes \<Rightarrow> string \<Rightarrow> oauth_flow \<Rightarrow> callback_result act" where
  "callback_rest E X P uid n1 n2 raw code flow =
     (case provider_of P (f_provider flow) of
         None \<Rightarrow> fail ErrUnknownProvider
       | Some p \<Rightarrow>
           if code = [] then fail ErrProviderDenied
           else case x_exchange X (pv_conf p) code (f_verifier flow) of
             None \<Rightarrow> fail ErrExchangeFailed
           | Some t \<Rightarrow>
               (case pv_claims p (ot_access t) of
                  Inl _ \<Rightarrow> fail ErrIdentityClaims
                | Inr c \<Rightarrow>
                    and_then (resolve_identity E uid (f_provider flow) c) (\<lambda>u.
                      and_then (store_oauth_token E X P n1 n2 u (f_provider flow) p t) (\<lambda>_.
                        and_then (issue E raw u (oa_ttl P) None) (\<lambda>session.
                          ret \<lparr>cr_session = session, cr_user = u, cr_redirect = f_redirect flow,
                               cr_provider = f_provider flow\<rparr>)))))"

definition oauth_callback ::
  "env \<Rightarrow> idp \<Rightarrow> oauth \<Rightarrow> uuid \<Rightarrow> bytes \<Rightarrow> bytes \<Rightarrow> bytes \<Rightarrow> bytes \<Rightarrow> string \<Rightarrow> string \<Rightarrow> callback_result act" where
  "oauth_callback E X P uid n1 n2 raw st code tok =
     and_then (on_error ErrNoRows ErrInvalidFlow
         (scoped_rw E unscoped (\<lambda>q. consume_oauth_flow q (e_sha256 E st) (session_hash E tok))))
       (callback_rest E X P uid n1 n2 raw code)"

section \<open>Linking\<close>

lemma runs_handle_dead:
  assumes "\<And>e s. m \<lparr>t_db = d, t_aborted = False\<rparr> = (Inl e, s) \<Longrightarrow> \<exists>e' s'. h e s = (Inl e', s')"
  shows "runs (handle m h) d y d' \<longleftrightarrow> runs m d y d'"
  using assms by (auto simp: runs_def handle_def split: prod.splits sum.splits)

lemma runs_then:
  assumes "\<And>x s. m \<lparr>t_db = d, t_aborted = False\<rparr> = (Inr x, s) \<Longrightarrow> \<not> t_aborted s"
  shows "runs (and_then m g) d y d' \<longleftrightarrow> (\<exists>x d1. runs m d x d1 \<and> runs (g x) d1 y d')"
proof
  assume "runs (and_then m g) d y d'"
  then obtain x s where m: "m \<lparr>t_db = d, t_aborted = False\<rparr> = (Inr x, s)" and g: "g x s = (Inr y, \<lparr>t_db = d', t_aborted = False\<rparr>)"
    by (auto simp: runs_def elim: and_then_InrE)
  then have "s = \<lparr>t_db = t_db s, t_aborted = False\<rparr>" using assms [OF m] by simp
  then show "\<exists>x d1. runs m d x d1 \<and> runs (g x) d1 y d'" using m g by (metis runs_def)
qed (auto simp: runs_def and_then_def)

text \<open>The look-up after a failed insert runs in an aborted transaction, so it never finds anything.\<close>

lemma recovery_is_dead:
  "runs (link_identity_tx q u p s) d x d' \<longleftrightarrow>
     (case identity_map d (p, s) of
        Some v \<Rightarrow> v = u \<and> d' = d
      | None \<Rightarrow> runs (insert_identity q p s u) d () d')"
proof -
  have dead: "runs (handle (insert_identity q p s u) (\<lambda>e st. case get_identity q p s st of
        (Inr i, st) \<Rightarrow> if id_user i = u then (Inr (), st) else (Inl ErrIdentityTaken, st)
      | (Inl _, st) \<Rightarrow> (Inl e, st))) d y d' \<longleftrightarrow> runs (insert_identity q p s u) d y d'" for y
    by (rule runs_handle_dead)
      (auto simp: insert_identity_def write_stmt_def get_identity_def read_stmt_def and_then_def split: if_splits)
  show ?thesis
    unfolding link_identity_tx_def get_identity_def runs_maybe
    by (cases "find (is_identity p s) (identities d)")
      (auto simp: identity_map_def txn_run dead [unfolded get_identity_def])
qed

lemma link_stays:
  assumes "link_identity_tx q u p s \<lparr>t_db = d, t_aborted = False\<rparr> = (Inr x, st)"
  shows "\<not> t_aborted st"
proof -
  have find: "maybe_row (get_identity q p s) \<lparr>t_db = d, t_aborted = False\<rparr> =
      (Inr (find (is_identity p s) (identities d)), \<lparr>t_db = d, t_aborted = False\<rparr>)"
    by (cases "find (is_identity p s) (identities d)")
      (simp_all add: maybe_row_def get_identity_def and_then_def handle_def)
  have aborted: "get_identity q p s st' = (Inl aborted_transaction, st')" if "t_aborted st'" for st'
    using that by (simp add: get_identity_def and_then_def read_stmt_def)
  show ?thesis
    using assms aborted unfolding link_identity_tx_def and_then_Inr [where m = "maybe_row (get_identity q p s)", OF find]
    by (cases "find (is_identity p s) (identities d)")
      (auto simp: handle_def insert_identity_def split: if_splits)
qed

lemma runs_then_link:
  "runs (and_then (link_identity_tx q u p s) g) d y d' \<longleftrightarrow> (\<exists>d1. runs (link_identity_tx q u p s) d () d1 \<and> runs (g ()) d1 y d')"
  by (subst runs_then) (auto dest: link_stays)

section \<open>What a sign-in does\<close>

text \<open>The invitation part touches neither users nor identities.\<close>

lemma invited_part_frame:
  assumes "runs (and_then (maybe_row (consume_pending_invitation q email tid)) (\<lambda>inv. case inv of
      None \<Rightarrow> ret u
    | Some (t, role) \<Rightarrow> and_then (add_membership_if_absent q t u role) (\<lambda>_. ret u))) d v d'"
  shows "v = u \<and> users d' = users d \<and> identities d' = identities d \<and> oauth_tokens d' = oauth_tokens d \<and>
    oauth_flows d' = oauth_flows d \<and> sessions d' = sessions d"
proof -
  let ?w = "\<lambda>d :: db. (case sort_key (\<lambda>i. (i_expires i, i_id i)) (filter (pending_for q email tid) (invitations d)) of
      [] \<Rightarrow> Inr (None, d)
    | i # _ \<Rightarrow> Inr (Some (i_tenant i, i_role i),
        d\<lparr>invitations := upd_rows (\<lambda>x. i_id x = i_id i) (\<lambda>x. x\<lparr>i_consumed := Some (tx_now q)\<rparr>) (invitations d)\<rparr>)) :: error + (uuid \<times> string) option \<times> db"
  obtain r d1 where w: "?w d = Inr (r, d1)" by (cases "?w d") (auto split: list.splits)
  then have "users d1 = users d" "identities d1 = identities d" "oauth_tokens d1 = oauth_tokens d"
    "oauth_flows d1 = oauth_flows d" "sessions d1 = sessions d"
    by (auto split: list.splits)
  moreover have "runs (case r of None \<Rightarrow> ret u | Some (t, role) \<Rightarrow> and_then (add_membership_if_absent q t u role) (\<lambda>_. ret u)) d1 v d'"
    using assms unfolding consume_pending_invitation_def by (simp add: runs_maybe_write [where f = ?w and d = d, OF w])
  ultimately show ?thesis
    by (auto simp: add_membership_if_absent_def txn_run split: option.splits prod.splits if_splits)
qed

lemma resolve_identity_cases:
  assumes "resolve_identity E uid p c d = (Inr u, d')"
  obtains (known) "identity_map d (p, cl_subject c) = Some u" "d' = d"
  | (linked) d1 where "identity_map d (p, cl_subject c) = None" "cl_verified c" "normalize_email E (cl_email c) \<noteq> []"
      "(\<exists>x. find (has_email E (normalize_email E (cl_email c))) (users d) = Some x \<and> us_id x = u \<and> d1 = d) \<or>
       find (has_email E (normalize_email E (cl_email c))) (users d) = None \<and> u = uid \<and>
       runs (create_user (tx_of E False unscoped) uid (normalize_email E (cl_email c))
         (claims_display c (normalize_email E (cl_email c))) None) d () d1"
      "users d' = users d1" "identities d' = identities d @ [\<lparr>id_provider = p, id_subject = cl_subject c, id_user = u\<rparr>]"
      "oauth_flows d' = oauth_flows d" "oauth_tokens d' = oauth_tokens d" "sessions d' = sessions d"
proof -
  let ?q = "tx_of E False unscoped" and ?email = "normalize_email E (cl_email c)" and ?s = "cl_subject c"
  let ?inv = "\<lambda>v. and_then (maybe_row (consume_pending_invitation ?q ?email None)) (\<lambda>inv. case inv of
      None \<Rightarrow> ret v | Some (t, role) \<Rightarrow> and_then (add_membership_if_absent ?q t v role) (\<lambda>_. ret v))"
  let ?rest = "\<lambda>v. and_then (link_identity_tx ?q v p ?s) (\<lambda>_. ?inv v)"
  let ?user = "find (has_email E ?email) (users d)"
  have has: "has_email E ?email = (\<lambda>u. tx_lower ?q (us_email u) = tx_lower ?q ?email)"
    by (simp add: has_email_def fun_eq_iff)
  have r: "runs (case find (is_identity p ?s) (identities d) of
      Some i \<Rightarrow> ret (id_user i)
    | None \<Rightarrow> if \<not> cl_verified c \<or> ?email = [] then fail ErrUnverifiedEmail
        else and_then (maybe_row (get_user_by_email ?q ?email)) (\<lambda>u. and_then
          (case u of Some u \<Rightarrow> ret (us_id u)
           | None \<Rightarrow> and_then (create_user ?q uid ?email (claims_display c ?email) None) (\<lambda>_. ret uid)) ?rest)) d u d'"
    using assms unfolding resolve_identity_def Let_def scoped_rw_runs get_identity_def runs_maybe .
  show thesis
  proof (cases "find (is_identity p ?s) (identities d)")
    case (Some i)
    then show thesis using r by (intro known) (auto simp: identity_map_def txn_run)
  next
    case None
    then have none: "identity_map d (p, ?s) = None" by (simp add: identity_map_def)
    have v: "cl_verified c" "?email \<noteq> []"
      and r2: "runs (and_then (case ?user of Some u \<Rightarrow> ret (us_id u)
           | None \<Rightarrow> and_then (create_user ?q uid ?email (claims_display c ?email) None) (\<lambda>_. ret uid)) ?rest) d u d'"
      using r None unfolding get_user_by_email_def has by (auto simp: txn_run split: if_splits)
    obtain v d1 where u: "(\<exists>x. ?user = Some x \<and> us_id x = v \<and> d1 = d) \<or>
        ?user = None \<and> v = uid \<and> runs (create_user ?q uid ?email (claims_display c ?email) None) d () d1"
      and rest: "runs (?rest v) d1 u d'"
    proof (cases ?user)
      case None
      then have "runs (and_then (create_user ?q uid ?email (claims_display c ?email) None) (\<lambda>_. ?rest uid)) d u d'"
        using r2 by (simp add: and_then_assoc)
      then obtain d1 where "runs (create_user ?q uid ?email (claims_display c ?email) None) d () d1" "runs (?rest uid) d1 u d'"
        unfolding create_user_def by (auto simp: runs_then_write runs_write)
      then show thesis using that None by blast
    qed (use r2 that in auto)
    from rest obtain d2 where link: "runs (link_identity_tx ?q v p ?s) d1 () d2" and inv: "runs (?inv v) d2 u d'"
      unfolding runs_then_link by blast
    have frame: "identities d1 = identities d" "oauth_flows d1 = oauth_flows d" "oauth_tokens d1 = oauth_tokens d"
      "sessions d1 = sessions d"
      using u by (auto simp: create_user_def runs_write split: if_splits)
    then have "identity_map d1 = identity_map d" by (simp add: identity_map_def)
    with none link have d2: "d2 = d1\<lparr>identities := identities d1 @ [\<lparr>id_provider = p, id_subject = ?s, id_user = v\<rparr>]\<rparr>"
      by (simp add: recovery_is_dead runs_insert_identity)
    show thesis
      by (rule linked [OF none v, of d1])
        (use u frame d2 invited_part_frame [OF inv] in auto)
  qed
qed

section \<open>Flows as single-use tickets\<close>

text \<open>
  What a callback spends: the ticket of its state, which must belong to the same session and be in time.
  The table of flows refines a map from hashed states to tickets.
\<close>

definition redeem :: "time \<Rightarrow> bytes \<Rightarrow> bytes option \<Rightarrow> (bytes \<Rightarrow> oauth_flow option) \<Rightarrow>
    oauth_flow option \<times> (bytes \<Rightarrow> oauth_flow option)" where
  "redeem now h sh T =
     (case T h of
        None \<Rightarrow> (None, T)
      | Some f \<Rightarrow> if now < f_expires f \<and> f_session f = sh then (Some f, T(h := None)) else (None, T))"

definition ticket_map :: "db \<Rightarrow> bytes \<Rightarrow> oauth_flow option" where
  "ticket_map d h = find (\<lambda>f. f_state f = h) (oauth_flows d)"

lemma redeem_ticket:
  assumes "distinct (map f_state (oauth_flows d))"
  shows "redeem (tx_now q) h sh (ticket_map d) =
    (find (redeemable q h sh) (oauth_flows d),
     ticket_map (d\<lparr>oauth_flows := del_rows (redeemable q h sh) (oauth_flows d)\<rparr>))"
proof (cases "find (redeemable q h sh) (oauth_flows d)")
  case None
  have no: "\<not> redeemable q h sh f" if "f \<in> set (oauth_flows d)" for f using that by (rule find_NoneD [OF None])
  have "redeem (tx_now q) h sh (ticket_map d) = (None, ticket_map d)"
  proof (cases "ticket_map d h")
    case (Some f)
    then have "f \<in> set (oauth_flows d)" "f_state f = h" unfolding ticket_map_def by (auto dest: find_SomeD)
    then show ?thesis using no [of f] Some by (simp add: redeem_def redeemable_def)
  qed (simp add: redeem_def)
  moreover have "del_rows (redeemable q h sh) (oauth_flows d) = oauth_flows d" using no by (rule del_rows_none)
  ultimately show ?thesis using None by simp
next
  case (Some f)
  have f: "f \<in> set (oauth_flows d)" "f_state f = h" "tx_now q < f_expires f" "f_session f = sh"
    using find_SomeD [OF Some] by (auto simp: redeemable_def)
  then have t: "ticket_map d h = Some f"
    unfolding ticket_map_def by (intro find_one) (auto dest: key_unique [OF assms])
  have only: "redeemable q h sh x \<longleftrightarrow> f_state x = h" if "x \<in> set (oauth_flows d)" for x
    using key_unique [OF assms that f(1)] f by (auto simp: redeemable_def)
  then have "del_rows (redeemable q h sh) (oauth_flows d) = del_rows (\<lambda>x. f_state x = h) (oauth_flows d)"
    unfolding del_rows_def by (intro filter_cong) auto
  then have "ticket_map (d\<lparr>oauth_flows := del_rows (redeemable q h sh) (oauth_flows d)\<rparr>) = (ticket_map d)(h := None)"
    by (auto simp: ticket_map_def find_del fun_eq_iff)
  then show ?thesis using t f Some by (simp add: redeem_def)
qed

lemma callback_eq:
  "oauth_callback E X P uid n1 n2 raw st code tok d =
    (case find (entitled E st tok) (oauth_flows d) of
       None \<Rightarrow> (Inl ErrInvalidFlow, d)
     | Some f \<Rightarrow> callback_rest E X P uid n1 n2 raw code f
         (d\<lparr>oauth_flows := del_rows (entitled E st tok) (oauth_flows d)\<rparr>))"
proof -
  have "scoped_rw E unscoped (\<lambda>q. consume_oauth_flow q (e_sha256 E st) (session_hash E tok)) d =
      (case find (entitled E st tok) (oauth_flows d) of
         None \<Rightarrow> (Inl ErrNoRows, d)
       | Some f \<Rightarrow> (Inr f, d\<lparr>oauth_flows := del_rows (entitled E st tok) (oauth_flows d)\<rparr>))"
    by (simp add: scoped_rw_def run_tx_def consume_oauth_flow_def and_then_def split: option.split)
  then show ?thesis
    unfolding oauth_callback_def by (simp add: and_then_def handle_def split: option.split)
qed

text \<open>After the flow is consumed nothing touches the table of flows, however the sign-in ends.\<close>

lemma store_token_frame:
  assumes "store_oauth_token E X P n1 n2 u name p t d = (r, d')"
  shows "d' = d\<lparr>oauth_tokens := oauth_tokens d'\<rparr>"
proof (cases r)
  case (Inl e)
  then show ?thesis
    using assms by (auto simp: store_oauth_token_def and_then_def dest: scoped_rw_InlD split: sum.splits prod.splits if_splits)
next
  case (Inr x)
  then show ?thesis
    using assms upsert_token_map unfolding store_oauth_token_def
    by (auto simp: scoped_rw_runs elim!: and_then_InrE split: sum.splits if_splits)
qed

lemma issue_frame:
  assumes "issue E raw u ttl sc d = (r, d')"
  shows "d' = d\<lparr>sessions := sessions d'\<rparr>"
proof (cases r)
  case (Inl e)
  then show ?thesis
    using assms by (auto simp: issue_def Let_def and_then_def dest: scoped_rw_InlD split: sum.splits prod.splits if_splits)
next
  case (Inr x)
  then show ?thesis using issue_map assms by blast
qed

lemma resolve_flows:
  assumes "resolve_identity E uid name c d = (r, d')"
  shows "oauth_flows d' = oauth_flows d"
proof (cases r)
  case (Inl e)
  then show ?thesis using assms by (auto simp: resolve_identity_def Let_def dest: scoped_rw_InlD)
next
  case (Inr u)
  show ?thesis by (rule resolve_identity_cases [OF assms [unfolded Inr]]) auto
qed

lemma callback_rest_flows:
  assumes "callback_rest E X P uid n1 n2 raw code f d = (r, d')"
  shows "oauth_flows d' = oauth_flows d"
proof -
  have st: "oauth_flows d2 = oauth_flows d1" if "store_oauth_token E X P n1 n2 u name p t d1 = (r2, d2)" for u name p t d1 r2 d2
    using store_token_frame [OF that] by (metis db.select_convs(11) db.update_convs(12) db.surjective)
  have iss: "oauth_flows d2 = oauth_flows d1" if "issue E raw u ttl sc d1 = (r2, d2)" for u ttl sc d1 r2 d2
    using issue_frame [OF that] by (metis db.select_convs(11) db.update_convs(5) db.surjective)
  show ?thesis
    using assms unfolding callback_rest_def
    by (auto simp: and_then_def dest!: resolve_flows st iss split: option.splits if_splits sum.splits prod.splits)
qed

section \<open>Flows over time\<close>

text \<open>
  Any interleaving of sign-ins, one transaction after another; other requests leave the table of flows
  alone, and time passes. The field \<open>fl_tickets\<close> is the abstract state: a start with a state that is not
  in use adds a ticket, a callback spends one.
\<close>

record flow_sys =
  fl_db :: db
  fl_now :: time
  fl_tickets :: "bytes \<Rightarrow> oauth_flow option"

definition ticket :: "env \<Rightarrow> bytes \<Rightarrow> bytes \<Rightarrow> uuid \<Rightarrow> string \<Rightarrow> string \<Rightarrow> string \<Rightarrow> oauth_flow" where
  "ticket E st verifier fid name redirect tok =
     \<lparr>f_id = fid, f_provider = name, f_state = e_sha256 E st, f_verifier = verifier, f_redirect = redirect,
      f_session = session_hash E tok, f_expires = e_now E + flow_ttl, f_created = e_pgnow E\<rparr>"

inductive flow_step ::
  "env \<Rightarrow> idp \<Rightarrow> (string \<Rightarrow> string \<Rightarrow> bool) \<Rightarrow> oauth \<Rightarrow> flow_sys \<Rightarrow> flow_sys \<Rightarrow> bool" for E X alike P where
  fs_start: "oauth_start (at_time E (fl_now y) (fl_now y)) X alike P st v fid name redirect tok extra (fl_db y) = (Inr u, d') \<Longrightarrow>
     fl_tickets y (e_sha256 E st) = None \<Longrightarrow>
     flow_step E X alike P y (y\<lparr>fl_db := d', fl_tickets := (fl_tickets y)
       (e_sha256 E st \<mapsto> ticket (at_time E (fl_now y) (fl_now y)) st v fid name redirect tok)\<rparr>)"
| fs_refused: "oauth_start (at_time E (fl_now y) (fl_now y)) X alike P st v fid name redirect tok extra (fl_db y) = (Inl e, d') \<Longrightarrow>
     flow_step E X alike P y (y\<lparr>fl_db := d'\<rparr>)"
| fs_callback: "oauth_callback (at_time E (fl_now y) (fl_now y)) X P uid n1 n2 raw st code tok (fl_db y) = (r, d') \<Longrightarrow>
     flow_step E X alike P y (y\<lparr>fl_db := d',
       fl_tickets := snd (redeem (fl_now y) (e_sha256 E st) (session_hash E tok) (fl_tickets y))\<rparr>)"
| fs_other: "oauth_flows d' = oauth_flows (fl_db y) \<Longrightarrow> flow_step E X alike P y (y\<lparr>fl_db := d'\<rparr>)"
| fs_tick: "0 \<le> dt \<Longrightarrow> flow_step E X alike P y (y\<lparr>fl_now := fl_now y + dt\<rparr>)"

definition flow_start :: "flow_sys \<Rightarrow> bool" where
  "flow_start y = (oauth_flows (fl_db y) = [] \<and> fl_tickets y = (\<lambda>h. None))"

text \<open>The refinement: the table represents the tickets, and every ticket leads to an allowed redirect.\<close>

definition flow_inv :: "env \<Rightarrow> (string \<Rightarrow> string \<Rightarrow> bool) \<Rightarrow> oauth \<Rightarrow> flow_sys \<Rightarrow> bool" where
  "flow_inv E alike P y \<longleftrightarrow>
     ticket_map (fl_db y) = fl_tickets y \<and> distinct (map f_state (oauth_flows (fl_db y))) \<and>
     (\<forall>f \<in> set (oauth_flows (fl_db y)). is_allowed_redirect E alike P (f_redirect f))"

lemma start_effect:
  assumes "oauth_start E X alike P st v fid name redirect tok extra d = (Inr u, d')"
  shows "is_allowed_redirect E alike P redirect \<and>
    d' = d\<lparr>oauth_flows := oauth_flows d @ [ticket E st v fid name redirect tok]\<rparr>"
  using assms
  by (auto simp: oauth_start_def Let_def scoped_rw_runs insert_oauth_flow_def runs_write ticket_def
      elim!: and_then_InrE split: option.splits if_splits)

lemma start_refused: "oauth_start E X alike P st v fid name redirect tok extra d = (Inl e, d') \<Longrightarrow> d' = d"
  by (auto simp: oauth_start_def Let_def and_then_def dest: scoped_rw_InlD split: option.splits if_splits sum.splits prod.splits)

lemma allowed_at_time [simp]: "is_allowed_redirect (at_time E a b) alike P r = is_allowed_redirect E alike P r"
  by (simp add: is_allowed_redirect_def)

lemma session_hash_clock [simp]: "session_hash (at_time E n m) tok = session_hash E tok"
  by (simp add: session_hash_def)

lemma callback_tickets:
  assumes "oauth_callback E X P uid n1 n2 raw st code tok d = (r, d')" "distinct (map f_state (oauth_flows d))"
  shows "redeem (e_pgnow E) (e_sha256 E st) (session_hash E tok) (ticket_map d) =
      (find (entitled E st tok) (oauth_flows d), ticket_map d') \<and>
    oauth_flows d' = del_rows (entitled E st tok) (oauth_flows d)"
proof (cases "find (entitled E st tok) (oauth_flows d)")
  case None
  then have "d' = d" using assms(1) by (simp add: callback_eq)
  moreover have "del_rows (entitled E st tok) (oauth_flows d) = oauth_flows d"
    by (rule del_rows_none) (rule find_NoneD [OF None])
  ultimately show ?thesis using redeem_ticket [OF assms(2), of "tx_of E False unscoped"] by simp
next
  case (Some f)
  then have "oauth_flows d' = del_rows (entitled E st tok) (oauth_flows d)"
    using assms(1) callback_rest_flows by (fastforce simp: callback_eq)
  moreover from this have "ticket_map d' = ticket_map (d\<lparr>oauth_flows := del_rows (entitled E st tok) (oauth_flows d)\<rparr>)"
    by (simp add: ticket_map_def fun_eq_iff)
  ultimately show ?thesis
    using redeem_ticket [OF assms(2), of "tx_of E False unscoped"] by simp
qed

lemma ticket_append:
  assumes "find (\<lambda>f. f_state f = f_state t) (oauth_flows d) = None"
  shows "ticket_map (d\<lparr>oauth_flows := oauth_flows d @ [t]\<rparr>) = (ticket_map d)(f_state t \<mapsto> t)"
  using assms by (auto simp: ticket_map_def find_append_new fun_eq_iff split: option.split)

lemma flow_inv_step:
  assumes "flow_inv E alike P y" "flow_step E X alike P y z"
  shows "flow_inv E alike P z"
  using assms(2)
proof cases
  case (fs_start st v fid name redirect tok extra u d')
  let ?E = "at_time E (fl_now y) (fl_now y)"
  have eff: "is_allowed_redirect E alike P redirect"
    "d' = (fl_db y)\<lparr>oauth_flows := oauth_flows (fl_db y) @ [ticket ?E st v fid name redirect tok]\<rparr>"
    using start_effect [OF fs_start(2)] by simp_all
  have "find (\<lambda>f. f_state f = e_sha256 E st) (oauth_flows (fl_db y)) = None"
    using fs_start(3) assms(1) by (simp add: flow_inv_def ticket_map_def fun_eq_iff)
  moreover from this have "e_sha256 E st \<notin> f_state ` set (oauth_flows (fl_db y))" by (auto simp: find_None_iff)
  moreover have "f_state (ticket ?E st v fid name redirect tok) = e_sha256 E st" "f_redirect (ticket ?E st v fid name redirect tok) = redirect"
    by (simp_all add: ticket_def)
  ultimately show ?thesis
    using assms(1) eff fs_start(1) by (auto simp: flow_inv_def ticket_append)
next
  case (fs_callback uid n1 n2 raw st code tok r d')
  let ?E = "at_time E (fl_now y) (fl_now y)"
  have inv: "ticket_map (fl_db y) = fl_tickets y" "distinct (map f_state (oauth_flows (fl_db y)))"
    "\<forall>f \<in> set (oauth_flows (fl_db y)). is_allowed_redirect E alike P (f_redirect f)"
    using assms(1) by (simp_all add: flow_inv_def)
  have spent: "redeem (fl_now y) (e_sha256 E st) (session_hash E tok) (fl_tickets y) =
      (find (entitled ?E st tok) (oauth_flows (fl_db y)), ticket_map d')"
    "oauth_flows d' = del_rows (entitled ?E st tok) (oauth_flows (fl_db y))"
    using callback_tickets [OF fs_callback(2) inv(2)] unfolding inv(1) by simp_all
  then show ?thesis
    using inv unfolding fs_callback(1) flow_inv_def by (simp add: distinct_map_del_rows)
next
  case (fs_other d')
  then show ?thesis using assms(1) by (simp add: flow_inv_def ticket_map_def fun_eq_iff)
qed (use assms(1) in \<open>auto simp: flow_inv_def dest: start_refused\<close>)

interpretation flows: invariant_system flow_start "flow_step E X alike P" "flow_inv E alike P" for E X alike P
proof
  show "flow_inv E alike P y" if "flow_start y" for y
    using that by (simp add: flow_start_def flow_inv_def ticket_map_def fun_eq_iff)
qed (rule flow_inv_step)

text \<open>Whose the identity of the claims is afterwards, and how it came to be.\<close>

lemma resolve_identity_map:
  assumes "resolve_identity E uid p c d = (Inr u, d')"
  shows "identity_map d' (p, cl_subject c) = Some u \<and> identity_map d \<subseteq>\<^sub>m identity_map d' \<and>
    (identity_map d (p, cl_subject c) = None \<longrightarrow> cl_verified c \<and>
       (\<exists>x \<in> set (users d'). us_id x = u \<and> has_email E (normalize_email E (cl_email c)) x))"
  using assms
proof (cases rule: resolve_identity_cases)
  case (linked d1)
  let ?email = "normalize_email E (cl_email c)"
  have "identity_map d' = (identity_map d)((p, cl_subject c) \<mapsto> u)"
    using identity_map_insert [OF linked(1), of u] linked(6) by (simp add: identity_map_def)
  moreover have "\<exists>x \<in> set (users d'). us_id x = u \<and> has_email E ?email x"
    using linked(4)
  proof (elim disjE exE conjE)
    fix x assume "find (has_email E ?email) (users d) = Some x" "us_id x = u" "d1 = d"
    then show ?thesis using linked(5) find_SomeD by fastforce
  next
    assume "u = uid" "runs (create_user (tx_of E False unscoped) uid ?email (claims_display c ?email) None) d () d1"
    then show ?thesis using linked(5) by (auto simp: create_user_def runs_write has_email_def split: if_splits)
  qed
  ultimately show ?thesis using linked(1,2) by (auto simp: map_le_def)
qed simp

section \<open>Stored tokens\<close>

text \<open>The scopes of a merged list are those of either list.\<close>

lemma scope_set_join:
  assumes "\<And>x. x \<in> set xs \<Longrightarrow> CHR '','' \<notin> set x \<and> x \<noteq> []"
  shows "scope_set (go_join xs '','') = set xs"
proof (cases xs)
  case Nil
  then show ?thesis by (simp add: scope_set_def go_split_none)
next
  case (Cons y ys)
  then have "go_split (go_join xs '','') CHR '','' = xs" using assms by (intro go_split_join) auto
  then show ?thesis using assms by (auto simp: scope_set_def)
qed

lemma scope_set_merged: "scope_set (merged_scopes a b) = scope_set a \<union> scope_set b"
proof -
  let ?xs = "remdups (sort (filter (\<lambda>s. s \<noteq> []) (go_split a CHR '','' @ go_split b CHR '','')))"
  have "CHR '','' \<notin> set x \<and> x \<noteq> []" if "x \<in> set ?xs" for x
    using that split_at_no_sep [of x "CHR '',''" "[]"] by (auto simp: go_split_def)
  then have "scope_set (go_join ?xs '','') = set ?xs" by (rule scope_set_join)
  then show ?thesis by (auto simp: merged_scopes_def scope_set_def)
qed

lemma store_token_effect:
  assumes "store_oauth_token E X P n1 n2 u name p t d = (Inr x, d')"
  shows "\<exists>k. token_map d' (u, name) = Some k \<and> k_access k = Some (n1 @ x_seal X (oa_key P) n1 (ot_access t)) \<and>
    k_expiry k = ot_expiry t \<and> (case token_map d (u, name) of
        None \<Rightarrow> True
      | Some old \<Rightarrow> (ot_refresh t = [] \<longrightarrow> k_refresh k = k_refresh old) \<and>
          scope_set (k_scopes k) = scope_set (k_scopes old) \<union> scope_set (granted_scopes name t (pv_conf p)))"
proof -
  obtain a r where a: "seal X n1 (oa_key P) (ot_access t) = Inr a" and r: "ot_refresh t = [] \<Longrightarrow> r = None"
    and up: "runs (upsert_oauth_token (tx_of E False unscoped) \<lparr>k_user = u, k_provider = name, k_refresh = r,
      k_access = Some a, k_scopes = granted_scopes name t (pv_conf p), k_expiry = ot_expiry t\<rparr>) d () d'"
    using assms unfolding store_oauth_token_def
    by (auto simp: scoped_rw_runs elim!: and_then_InrE split: if_splits)
  have "a = n1 @ x_seal X (oa_key P) n1 (ot_access t)"
    using a by (auto simp: seal_def split: sum.splits)
  then show ?thesis
    using upsert_token_map [OF up] r by (auto simp: token_update_def scope_set_merged split: option.splits)
qed

lemma run_get_token:
  "scoped E unscoped (\<lambda>q. get_oauth_token_by_user q u name) d =
    (case token_map d (u, name) of None \<Rightarrow> (Inl ErrNoRows, d) | Some k \<Rightarrow> (Inr k, d))"
  by (simp add: scoped_def run_tx_def get_oauth_token_by_user_def and_then_def token_map_def split: option.split)

section \<open>The exporter of tokens\<close>

text \<open>
  What the import service relies on when it takes \<open>GetGoogleToken\<close> as its \<open>GoogleExporter\<close>: whatever it
  answers, it writes the table of tokens only.
\<close>

locale google_exporter =
  fixes exporter :: "uuid \<Rightarrow> bool \<Rightarrow> string act"
  assumes only_tokens: "exporter u drive d = (r, d') \<Longrightarrow> d' = d\<lparr>oauth_tokens := oauth_tokens d'\<rparr>"
begin

lemma keeps_imports: "exporter u drive d = (r, d') \<Longrightarrow> doc_imports d' = doc_imports d"
  by (drule only_tokens) (metis db.select_convs(9) db.update_convs(12) db.surjective)

lemma keeps_posts: "exporter u drive d = (r, d') \<Longrightarrow> posts d' = posts d"
  by (drule only_tokens) (metis db.select_convs(6) db.update_convs(12) db.surjective)

end

interpretation google_tokens: google_exporter "get_google_token E X P n1 n2" for E X P n1 n2
proof
  fix u drive d r d'
  assume run: "get_google_token E X P n1 n2 u drive d = (r, d')"
  have store: "d2 = d1\<lparr>oauth_tokens := oauth_tokens d2\<rparr>" if "store_oauth_token E X P n1 n2 u ''google'' p t d1 = (r2, d2)" for p t d1 r2 d2
    using that by (rule store_token_frame)
  show "d' = d\<lparr>oauth_tokens := oauth_tokens d'\<rparr>"
    using run
    by (auto simp: get_google_token_def and_then_def handle_def run_get_token dest!: store
        split: option.splits sum.splits list.splits if_splits prod.splits)
qed

section \<open>Properties\<close>


text \<open>
  C34. Whoever signs in through a provider is who the provider says: the callback exchanged the code with
  the verifier of its own flow and took the claims of that token; the session it opens is accepted for the
  user that the identity of the claims belongs to afterwards; identities never change hands; and an
  identity not known before is linked only under a verified email, to a user of that email.
\<close>

theorem callback_sound:
  assumes "oauth_callback E X P uid n1 n2 raw st code tok d = (Inr x, d')" "0 < oa_ttl P"
  shows "\<exists>f p t c. f \<in> set (oauth_flows d) \<and> entitled E st tok f \<and> provider_of P (f_provider f) = Some p \<and>
    x_exchange X (pv_conf p) code (f_verifier f) = Some t \<and> pv_claims p (ot_access t) = Inr c \<and>
    identity_map d' (f_provider f, cl_subject c) = Some (cr_user x) \<and> identity_map d \<subseteq>\<^sub>m identity_map d' \<and>
    (identity_map d (f_provider f, cl_subject c) = None \<longrightarrow> cl_verified c \<and>
       (\<exists>u \<in> set (users d'). us_id u = cr_user x \<and> has_email E (normalize_email E (cl_email c)) u)) \<and>
    (\<exists>sc. fst (verify_session E (cr_session x) d') = Inr (cr_user x, sc))"
proof -
  obtain f d0 where f: "find (entitled E st tok) (oauth_flows d) = Some f"
    and rest: "callback_rest E X P uid n1 n2 raw code f d0 = (Inr x, d')"
    and d0: "d0 = d\<lparr>oauth_flows := del_rows (entitled E st tok) (oauth_flows d)\<rparr>"
    using assms(1) by (auto simp: callback_eq split: option.splits)
  obtain p t c u s d1 d2 where ok: "provider_of P (f_provider f) = Some p" "x_exchange X (pv_conf p) code (f_verifier f) = Some t"
    "pv_claims p (ot_access t) = Inr c" and x: "cr_user x = u" "cr_session x = s"
    and steps: "resolve_identity E uid (f_provider f) c d0 = (Inr u, d1)"
      "store_oauth_token E X P n1 n2 u (f_provider f) p t d1 = (Inr (), d2)" "issue E raw u (oa_ttl P) None d2 = (Inr s, d')"
    using rest unfolding callback_rest_def
    by (auto elim!: and_then_InrE split: option.splits if_splits sum.splits)
  have "identities d2 = identities d1" "users d2 = users d1" by (subst store_token_frame [OF steps(2)], simp)+
  moreover have "identities d' = identities d2" "users d' = users d2" by (subst issue_frame [OF steps(3)], simp)+
  ultimately have same: "identity_map d' = identity_map d1" "users d' = users d1" "identity_map d0 = identity_map d"
    by (simp_all add: d0 identity_map_def)
  have "session_map d' (token_hash E s) = Some (u, e_now E + oa_ttl P)"
    using issue_map [OF steps(3)] by simp
  then have "\<exists>sc. fst (verify_session E s d') = Inr (u, sc)"
    using assms(2) by (simp add: verify_map)
  moreover have "f \<in> set (oauth_flows d)" "entitled E st tok f" using find_SomeD [OF f] by simp_all
  ultimately show ?thesis
    using ok resolve_identity_map [OF steps(1)] unfolding x same
    by (intro exI [of _ f] exI [of _ p] exI [of _ t] exI [of _ c] conjI) simp_all
qed

text \<open>
  Signing up claims an address unchecked: the account that anybody opened with a password under an email
  is the account that its verified owner later gets into through a provider, and the password keeps
  working for it.
\<close>

theorem signup_claims_account:
  assumes "signup E A salt uid email pw d = (Inr u, d1)" "good_hasher A"
    and "normalize_email E (cl_email c) = normalize_email E email" "identity_map d1 (p, cl_subject c) = None"
    and "resolve_identity E uid' p c d1 = (Inr v, d2)"
  shows "v = u \<and> check_credentials E A (normalize_email E email) pw d2 = (Inr v, d2)"
proof -
  let ?email = "normalize_email E email"
  obtain r where r: "users d1 = users d @ [r]" "us_id r = u" "has_email E ?email r" "us_password r = Some (hash_password A salt pw)"
    and none: "find (has_email E ?email) (users d) = None"
    using signup_effect [OF assms(1)] by blast
  then have find: "find (has_email E ?email) (users d1) = Some r" by (simp add: find_append_new)
  have "v = u \<and> users d2 = users d1"
    by (rule resolve_identity_cases [OF assms(5)]) (use assms(3,4) find r(2) in auto)
  moreover have "credentials_ok A r pw"
    using r(4) verify_hash_password [OF assms(2)] by (simp add: credentials_ok_def)
  ultimately show ?thesis using find r(2) by (simp add: run_credentials)
qed

text \<open>
  A stored token comes back: after a token of Google was stored, until half a minute before its expiry the
  same access token is returned to whoever asks without needing more scopes; storing a token without a
  refresh token keeps the refresh token that is there; and scopes once granted stay recorded.
\<close>

theorem stored_token_returned:
  assumes "store_oauth_token E X P n1 n2 u ''google'' (oa_google P) t d = (Inr (), d')"
    and "\<forall>key n pt. x_open X key n (x_seal X key n pt) = Some pt" "length (oa_key P) = 32" "length n1 = nonce_size"
    and "ot_expiry t = Some e" "e_now E' + refresh_margin < e"
  shows "get_google_token E' X P m1 m2 u False d' = (Inr (ot_access t), d') \<and>
    (\<forall>old. token_map d (u, ''google'') = Some old \<longrightarrow> (\<exists>k. token_map d' (u, ''google'') = Some k \<and>
       (ot_refresh t = [] \<longrightarrow> k_refresh k = k_refresh old) \<and> scope_set (k_scopes old) \<subseteq> scope_set (k_scopes k)))"
proof -
  obtain k where k: "token_map d' (u, ''google'') = Some k" "k_access k = Some (n1 @ x_seal X (oa_key P) n1 (ot_access t))"
    "k_expiry k = Some e"
    and old: "\<forall>old. token_map d (u, ''google'') = Some old \<longrightarrow> (ot_refresh t = [] \<longrightarrow> k_refresh k = k_refresh old) \<and>
      scope_set (k_scopes old) \<subseteq> scope_set (k_scopes k)"
    using store_token_effect [OF assms(1)] assms(5) by (force split: option.splits)
  have "open_sealed X (oa_key P) (n1 @ x_seal X (oa_key P) n1 (ot_access t)) = Inr (ot_access t)"
    using assms(2-4) by (simp add: open_sealed_def new_gcm_def)
  then have "get_google_token E' X P m1 m2 u False d' = (Inr (ot_access t), d')"
    using k assms(6) by (simp add: get_google_token_def and_then_def handle_def run_get_token)
  then show ?thesis using k(1) old by blast
qed

section \<open>A sign-in\<close>

definition sample_idp :: idp where
  "sample_idp = \<lparr>x_do = (\<lambda>u a h. Inr (200, a)),
     x_google = (\<lambda>b. Some \<lparr>gi_sub = ''s1'', gi_email = ''ann@example.com'', gi_verified = True, gi_name = ''Ann''\<rparr>),
     x_github_user = (\<lambda>b. None), x_github_emails = (\<lambda>b. None),
     x_exchange = (\<lambda>c code v. if code = ''good'' then Some \<lparr>ot_access = ''at'', ot_refresh = ''rt'',
        ot_expiry = Some (3600 * second), ot_scope = None\<rparr> else None),
     x_refresh = (\<lambda>c t. None), x_auth_url = (\<lambda>c st ps. st), x_seal = (\<lambda>k n p. p), x_open = (\<lambda>k n c. Some c)\<rparr>"

definition sample_provider :: provider_config where
  "sample_provider = \<lparr>pc_client = ''id'', pc_secret = ''s'', pc_auth_url = [], pc_token_url = [], pc_redirect = [],
     pc_userinfo = [], pc_scopes = []\<rparr>"

definition sample_oauth :: oauth where
  "sample_oauth = projr (oauth_new sample_idp (replicate 32 CHR ''k'') sample_provider sample_provider
     [\<lparr>u_scheme = ''https'', u_host = ''media.example.com'', u_path = ''/'', u_user = False\<rparr>] 0)"

definition sample_flows :: db where
  "sample_flows = snd (oauth_start (at_time sample_env 0 0) sample_idp (=) sample_oauth ''state'' ''verifier'' 30 ''google''
     ''https://media.example.com/app'' [] [] empty_db)"

abbreviation sample_callback :: "callback_result act" where
  "sample_callback \<equiv> oauth_callback (at_time sample_env 0 0) sample_idp sample_oauth 7 (replicate 12 CHR ''n'')
     (replicate 12 CHR ''m'') ''raw'' ''state'' ''good'' []"

lemma sample_flows_started:
  "oauth_start (at_time sample_env 0 0) sample_idp (=) sample_oauth ''state'' ''verifier'' 30 ''google''
     ''https://media.example.com/app'' [] [] empty_db = (Inr ''state'', sample_flows)"
proof -
  have "fst (oauth_start (at_time sample_env 0 0) sample_idp (=) sample_oauth ''state'' ''verifier'' 30 ''google''
     ''https://media.example.com/app'' [] [] empty_db) = Inr ''state''"
    by code_simp
  then show ?thesis unfolding sample_flows_def by (metis prod.collapse)
qed

lemmas sign_in_run = scoped_rw_def run_tx_def maybe_row_def get_identity_def get_user_by_email_def create_user_def
  link_identity_tx_def insert_identity_def consume_pending_invitation_def upsert_oauth_token_def and_then_def handle_def
  known_provider_def has_user_def

lemma sample_key [simp]: "oa_key sample_oauth = replicate 32 CHR ''k''" "oa_ttl sample_oauth = token_ttl"
  by (simp_all add: sample_oauth_def oauth_new_def)

lemma sample_seal [simp]: "seal sample_idp n (replicate 32 CHR ''k'') pt = Inr (n @ pt)"
  by (simp add: seal_def new_gcm_def sample_idp_def)

lemma sample_google [simp]:
  "provider_of sample_oauth ''google'' = Some (oa_google sample_oauth)"
  "pv_claims (oa_google sample_oauth) a = Inr \<lparr>cl_subject = ''s1'', cl_email = ''ann@example.com'', cl_verified = True, cl_name = ''Ann''\<rparr>"
  by (simp_all add: provider_of_def sample_oauth_def oauth_new_def oidc_userinfo_def get_json_def sample_idp_def)

lemma sample_email_at [simp]: "normalize_email (at_time sample_env a b) ''ann@example.com'' = ''ann@example.com''"
  using sample_email by (simp add: normalize_email_def)

lemma sample_flows_row: "sample_flows = empty_db\<lparr>oauth_flows :=
    [ticket (at_time sample_env 0 0) ''state'' ''verifier'' 30 ''google'' ''https://media.example.com/app'' []]\<rparr>"
  using start_effect [OF sample_flows_started] by (simp add: empty_db_def)

lemma sample_signed_in: "\<exists>x d'. sample_callback sample_flows = (Inr x, d') \<and> cr_user x = 7"
proof -
  have "entitled (at_time sample_env 0 0) ''state'' [] (ticket (at_time sample_env 0 0) ''state'' ''verifier'' 30 ''google'' r [])" for r
    by (simp add: redeemable_def ticket_def flow_ttl_def)
  then show ?thesis
    by (simp add: callback_eq sample_flows_row empty_db_def callback_rest_def ticket_def del_rows_def)
      (simp add: sample_idp_def [THEN arg_cong [where f = x_exchange]] resolve_identity_def Let_def sign_in_run store_oauth_token_def issue_def insert_session_def)
qed


theorem callback_sound_witness:
  "\<exists>x d' p s. sample_callback sample_flows = (Inr x, d') \<and> identity_map d' (p, s) = Some (cr_user x)"
proof -
  obtain x d' where cb: "sample_callback sample_flows = (Inr x, d')" using sample_signed_in by blast
  have "0 < oa_ttl sample_oauth" by (simp add: token_ttl_def)
  with callback_sound [OF cb] cb show ?thesis by blast
qed

definition sample_claims :: claims where
  "sample_claims = \<lparr>cl_subject = ''s1'', cl_email = ''ann@example.com'', cl_verified = True, cl_name = ''Ann''\<rparr>"

theorem signup_claims_account_witness:
  "\<exists>d2. resolve_identity sample_env 9 ''google'' sample_claims sample_signed_up = (Inr 5, d2) \<and>
     check_credentials sample_env sample_hasher (normalize_email sample_env ''ann@example.com'') ''secret'' d2 = (Inr 5, d2)"
proof -
  have "fst (resolve_identity sample_env 9 ''google'' sample_claims sample_signed_up) = Inr 5"
    by (simp add: resolve_identity_def Let_def sign_in_run sample_claims_def sample_signed_up_def empty_db_def)
  then obtain d2 where d2: "resolve_identity sample_env 9 ''google'' sample_claims sample_signed_up = (Inr 5, d2)"
    by (metis prod.collapse)
  have "identity_map sample_signed_up (''google'', cl_subject sample_claims) = None"
    by (simp add: identity_map_def sample_signed_up_def empty_db_def)
  moreover have "normalize_email sample_env (cl_email sample_claims) = normalize_email sample_env ''ann@example.com''"
    by (simp add: sample_claims_def)
  ultimately show ?thesis
    using signup_claims_account [OF sample_signup sample_hasher_good _ _ d2] d2 by (simp add: sample_claims_def)
qed

theorem stored_token_returned_witness:
  "\<exists>d'. get_google_token sample_env sample_idp sample_oauth [] [] 5 False d' = (Inr ''at'', d')"
proof -
  let ?t = "\<lparr>ot_access = ''at'', ot_refresh = ''rt'', ot_expiry = Some (3600 * second), ot_scope = None\<rparr>"
  let ?store = "store_oauth_token sample_env sample_idp sample_oauth (replicate 12 CHR ''n'') (replicate 12 CHR ''m'') 5 ''google''
      (oa_google sample_oauth) ?t sample_signed_up"
  have "fst ?store = Inr ()"
    by (simp add: store_oauth_token_def sign_in_run sample_signed_up_def empty_db_def)
  then obtain d' where d': "?store = (Inr (), d')" by (metis prod.collapse)
  have "length (oa_key sample_oauth) = 32" by simp
  moreover have "\<forall>key n pt. x_open sample_idp key n (x_seal sample_idp key n pt) = Some pt" by (simp add: sample_idp_def)
  ultimately show ?thesis
    using stored_token_returned [OF d', of "3600 * second" sample_env "[]" "[]"]
    by (auto simp: nonce_size_def refresh_margin_def sample_env_def)
qed

end
