(* ===== verification/DocImport.thy ===== *)
theory DocImport
  imports PostTable OAuth
begin

text \<open>
  internal/import: documents become Markdown, and Markdown becomes a draft. The object store, the
  subprocesses pandoc and pdftotext, the Drive export and \<open>mime.ExtensionsByType\<close> are arguments; ids and
  nonces are arguments as everywhere.
\<close>

section \<open>Sources\<close>

datatype source_kind = SourceMultipart | SourceGoogleDocs | SourceOther int

record source =
  so_kind :: source_kind
  so_file :: bytes
  so_filename :: string
  so_mime :: string
  so_doc :: string

definition import_job_kind :: string where
  "import_job_kind = ''import''"

definition known_exts :: "string set" where
  "known_exts = {''.docx'', ''.odt'', ''.rtf'', ''.html'', ''.htm'', ''.pdf'', ''.md'', ''.txt''}"

text \<open>\<open>exts\<close>: the extensions that \<open>mime.ExtensionsByType\<close> lists for a type.\<close>

definition ext_from_mime_or_name :: "env \<Rightarrow> (string \<Rightarrow> string list) \<Rightarrow> string \<Rightarrow> string \<Rightarrow> string" where
  "ext_from_mime_or_name E exts mime filename =
     (case (if mime \<noteq> [] then find (\<lambda>e. e \<in> known_exts) (exts mime) else None) of
        Some e \<Rightarrow> e
      | None \<Rightarrow>
          let ext = lower_of E (path_ext filename)
          in if filename \<noteq> [] \<and> ext \<in> known_exts then ext else [])"

definition parse_source :: "env \<Rightarrow> (string \<Rightarrow> string list) \<Rightarrow> source \<Rightarrow> error + (string \<times> string)" where
  "parse_source E exts src =
     (case so_kind src of
        SourceMultipart \<Rightarrow>
          if so_file src = [] then Inl ErrInvalidSource
          else
            let ext = ext_from_mime_or_name E exts (so_mime src) (so_filename src);
                format = trim_prefix ext ''.''
            in if format = []
               then Inl (ErrText (''import: unsupported file type (mime='' @ so_mime src @ '', name='' @ so_filename src @ '')''))
               else Inr (ext, format)
      | SourceGoogleDocs \<Rightarrow> if so_doc src = [] then Inl ErrInvalidSource else Inr (''.docx'', ''gdoc'')
      | SourceOther n \<Rightarrow> Inl ErrInvalidSource)"

section \<open>Start\<close>

record import_config =
  ic_slug :: string        \<comment> \<open>TenantSlug; empty: the tenant's id is used\<close>
  ic_posts :: posts_config

text \<open>\<open>iid\<close>, \<open>oid\<close>, \<open>jid\<close>: the ids minted for the import, the stored object and the job.\<close>

definition import_start ::
  "env \<Rightarrow> (string \<Rightarrow> string list) \<Rightarrow> (string \<Rightarrow> bytes \<Rightarrow> error option) \<Rightarrow> import_config \<Rightarrow>
     uuid \<Rightarrow> uuid \<Rightarrow> uuid \<Rightarrow> actor \<Rightarrow> source \<Rightarrow> uuid act" where
  "import_start E exts put C iid oid jid a src =
     and_then (require a CapRunImport) (\<lambda>_.
       let sc = scope_from_actor a in
       if sc_tenant sc = nil_uuid then fail ErrInvalidSource
       else and_then (lift_sum (parse_source E exts src)) (\<lambda>(ext, format).
         and_then
           (case so_kind src of
              SourceMultipart \<Rightarrow>
                let slug = (if ic_slug C = [] then uuid_string (sc_tenant sc) else ic_slug C);
                    key = slug @ ''/imports/'' @ uuid_string iid @ ''/'' @ uuid_string oid @ ext
                in (case put key (so_file src) of
                      Some e \<Rightarrow> fail (ErrWrap ''import: upload original'' e)
                    | None \<Rightarrow> ret (key, ImportData iid format key []))
            | SourceGoogleDocs \<Rightarrow>
                ret (''gdoc/'' @ uuid_string (sc_tenant sc) @ ''/'' @ uuid_string iid, ImportData iid ''gdoc'' [] (so_doc src))
            | SourceOther n \<Rightarrow> ret ([], ImportData nil_uuid [] [] []))
           (\<lambda>(key, payload).
              and_then
                (scoped_rw E sc (\<lambda>q.
                   and_then (wrap_error ''import: insert row'' (create_import q iid (sc_tenant sc) (a_user a) None format key)) (\<lambda>_.
                     and_then (wrap_error ''import: enqueue''
                       (enqueue q jid import_job_kind (uuid_string iid) (JobPayload (sc_tenant sc) payload))) (\<lambda>_. ret ()))))
                (\<lambda>_. ret iid))))"

section \<open>Status\<close>

record import_result =
  ir_id :: uuid
  ir_status :: import_status
  ir_markdown :: "string option"
  ir_fidelity :: string
  ir_error :: "string option"

definition fidelity_for_format :: "string \<Rightarrow> string" where
  "fidelity_for_format format = (if format = ''pdf'' then ''medium'' else ''high'')"

definition load_import :: "env \<Rightarrow> actor \<Rightarrow> uuid \<Rightarrow> doc_import act" where
  "load_import E a iid =
     on_error ErrNoRows ErrImportNotFound (scoped E (scope_from_actor a) (\<lambda>q. get_import_by_id q iid))"

definition import_get :: "env \<Rightarrow> actor \<Rightarrow> uuid \<Rightarrow> import_result act" where
  "import_get E a iid =
     and_then (load_import E a iid) (\<lambda>im.
       ret \<lparr>ir_id = im_id im, ir_status = im_status im, ir_markdown = im_markdown im,
            ir_fidelity = fidelity_for_format (im_format im), ir_error = im_error im\<rparr>)"

section \<open>Titles and slugs\<close>

text \<open>The bytes that start a character of UTF-8.\<close>

definition rune_start :: "char \<Rightarrow> bool" where
  "rune_start c = (of_char c div 64 \<noteq> (2 :: nat))"

text \<open>The longest prefix of at most \<open>n\<close> bytes that ends before a character's first byte.\<close>

fun back_to_rune :: "string \<Rightarrow> nat \<Rightarrow> nat" where
  "back_to_rune line 0 = 0"
| "back_to_rune line (Suc n) = (if rune_start (line ! Suc n) then Suc n else back_to_rune line n)"

fun first_title :: "string list \<Rightarrow> string" where
  "first_title [] = []"
| "first_title (l # ls) =
     (let line = trim_space l in
      if line = [] then first_title ls
      else
        let line = trim_prefix line ''# ''
        in if length line > 200 then take (back_to_rune line 200) line else line)"

definition title_from_content :: "string \<Rightarrow> string" where
  "title_from_content content = first_title (go_split content CHR 0x0A)"

text \<open>The characters that \<open>strings.Map\<close> keeps; all of them are single bytes.\<close>

definition slug_rune :: "char \<Rightarrow> char option" where
  "slug_rune c =
     (if is_lower c \<or> is_digit c then Some c
      else if is_upper c then Some (lower_byte c)
      else if c = CHR ''_'' \<or> c = CHR '' '' \<or> c = CHR ''-'' then Some CHR ''-''
      else None)"

definition import_slug :: "string \<Rightarrow> uuid \<Rightarrow> string" where
  "import_slug content iid =
     (let name = ''import-'' @ take 8 (uuid_string iid);
          title = title_from_content content;
          title = (if title = [] then name else title);
          slug = trim (List.map_filter slug_rune title) ''-'';
          slug = (if length slug > 63 then trim_right (take 63 slug) ''-'' else slug)
      in if slug = [] then name else slug)"

section \<open>Converters\<close>

text \<open>A subprocess ends with its output, is killed at the timeout or fails; errors are their texts.\<close>

datatype run_result = Ran bytes | TimedOut | RunFailed string

text \<open>
  \<^item> \<open>to_look\<close>: \<open>exec.LookPath\<close>; \<open>to_run\<close>: a program with arguments and standard input;
  \<^item> \<open>to_request\<close>: why \<open>http.NewRequest\<close> refuses a URL; \<open>to_do\<close>: a GET with a bearer token, as status and
    body, where reading the body may fail.
\<close>

record tools =
  to_look :: "string \<Rightarrow> string + string"
  to_run :: "string \<Rightarrow> string list \<Rightarrow> bytes \<Rightarrow> run_result"
  to_request :: "string \<Rightarrow> string option"
  to_do :: "string \<Rightarrow> string \<Rightarrow> string + (nat \<times> (string + bytes))"

type_synonym conversion = "string + (bytes \<times> string)"   \<comment> \<open>an error's text, or Markdown and fidelity\<close>

definition max_output_bytes :: nat where
  "max_output_bytes = 2 * 2 ^ 20"

definition run_pandoc :: "tools \<Rightarrow> string \<Rightarrow> bytes \<Rightarrow> conversion" where
  "run_pandoc T format src =
     (let format = (if format = ''md'' then ''markdown'' else format) in
      case to_look T ''pandoc'' of
        Inl e \<Rightarrow> Inl (e @ '': pandoc not found; install pandoc or add to PATH'')
      | Inr path \<Rightarrow> (case to_run T path [''--wrap=none'', ''-f'', format, ''-t'', ''markdown''] src of
            TimedOut \<Rightarrow> Inl ''pandoc timed out after 10s''
          | RunFailed e \<Rightarrow> Inl (''pandoc failed: '' @ e)
          | Ran out \<Rightarrow>
              if length out > max_output_bytes then Inl (''pandoc output exceeds '' @ itoa max_output_bytes @ '' bytes'')
              else if out = [] then Inl ''pandoc produced no output''
              else Inr (out, ''high'')))"

text \<open>Text with hardly any words, or with mostly blank and marker lines, counts as scanned.\<close>

definition is_scanned_pdf :: "bytes \<Rightarrow> bool" where
  "is_scanned_pdf txt =
     (let trimmed = trim_space txt; ls = go_split trimmed CHR 0x0A;
          blank = length (filter (\<lambda>l. let l = trim_space l in l = [] \<or> has_prefix l ''%'') ls)
      in length trimmed < 50 \<or> blank > length ls * 3 div 4)"

definition pdftotext :: "tools \<Rightarrow> bytes \<Rightarrow> conversion" where
  "pdftotext T src =
     (case to_look T ''pdftotext'' of
        Inl e \<Rightarrow> Inl (e @ '': pdftotext not found; install poppler-utils or add to PATH'')
      | Inr path \<Rightarrow> (case to_run T path [''-layout'', ''-'', ''-''] src of
            TimedOut \<Rightarrow> Inl ''pdftotext timed out after 10s''
          | RunFailed e \<Rightarrow> Inl (''pdftotext failed: '' @ e)
          | Ran out \<Rightarrow>
              if length out > max_output_bytes then Inl (''pdftotext output exceeds '' @ itoa max_output_bytes @ '' bytes'')
              else if out = [] then Inl ''pdftotext produced no output (scanned PDF?)''
              else if is_scanned_pdf out then Inl ''scanned PDF detected: no text layer found; run OCR before importing''
              else Inr (out, ''medium'')))"

definition dispatch :: "tools \<Rightarrow> string \<Rightarrow> (bytes \<Rightarrow> conversion) option" where
  "dispatch T format =
     (if format \<in> {''docx'', ''odt'', ''rtf'', ''html'', ''md''} then Some (run_pandoc T format)
      else if format = ''pdf'' then Some (pdftotext T)
      else None)"

definition google_reconsent :: string where
  "google_reconsent = ''import: Google re-consent required''"

definition gdoc_export :: "tools \<Rightarrow> string \<Rightarrow> string \<Rightarrow> conversion" where
  "gdoc_export T doc token =
     (let u = ''https://www.googleapis.com/drive/v3/files/'' @ doc @
            ''/export?mimeType=application/vnd.openxmlformats-officedocument.wordprocessingml.document'' in
      case to_request T u of
        Some e \<Rightarrow> Inl (''gdoc: create request: '' @ e)
      | None \<Rightarrow> (case to_do T u token of
            Inl e \<Rightarrow> Inl (''gdoc: export request failed: '' @ e)
          | Inr (status, body) \<Rightarrow>
              if status = 401 \<or> status = 403 then Inl (google_reconsent @ '': Google token expired or drive.readonly not granted'')
              else if status \<noteq> 200 then Inl (''gdoc: export returned HTTP '' @ itoa status)
              else (case body of
                  Inl e \<Rightarrow> Inl (''gdoc: read export: '' @ e)
                | Inr b \<Rightarrow>
                    let b = take (max_output_bytes + 1) b in
                    if length b > max_output_bytes then Inl (''gdoc: exported DOCX exceeds '' @ itoa max_output_bytes @ '' bytes'')
                    else run_pandoc T ''docx'' b)))"

section \<open>The job\<close>

text \<open>\<open>json.Unmarshal\<close> into \<open>importPayload\<close>: id, format, key and document.\<close>

definition import_payload ::
  "(json \<Rightarrow> (uuid \<times> string \<times> string \<times> string) option) \<Rightarrow> job_data \<Rightarrow> (uuid \<times> string \<times> string \<times> string) option" where
  "import_payload other dat =
     (case dat of
        ImportData iid format key doc \<Rightarrow> Some (iid, format, key, doc)
      | PurgeData t p v paths \<Rightarrow> Some (nil_uuid, [], [], [])
      | VariantData t iid key \<Rightarrow> Some (nil_uuid, [], [], [])
      | OtherData j \<Rightarrow> other j)"

text \<open>What is recorded of a conversion: errors and fidelity become one message.\<close>

definition outcome_of :: "conversion \<Rightarrow> import_update" where
  "outcome_of c =
     (case c of
        Inl msg \<Rightarrow> \<lparr>iu_status = Some ImportError, iu_post = None, iu_markdown = None, iu_error = Some msg\<rparr>
      | Inr (md, fidelity) \<Rightarrow> \<lparr>iu_status = Some ImportDone, iu_post = None, iu_markdown = Some md, iu_error = None\<rparr>)"

text \<open>\<open>exporter\<close> is the service's \<open>GoogleExporter\<close>, if it has one; \<open>text\<close> is the text of an error.\<close>

definition convert_source ::
  "tools \<Rightarrow> (error \<Rightarrow> string) \<Rightarrow> (string \<Rightarrow> error + bytes) \<Rightarrow> (uuid \<Rightarrow> bool \<Rightarrow> string act) option \<Rightarrow>
     doc_import \<Rightarrow> string \<Rightarrow> string \<Rightarrow> string \<Rightarrow> conversion act" where
  "convert_source T text get exporter im format key doc =
     (if format = ''gdoc'' then
        (case exporter of
           None \<Rightarrow> ret (Inl ''import: Google token provider not configured'')
         | Some x \<Rightarrow> (\<lambda>d. case x (im_user im) True d of
               (Inl e, d) \<Rightarrow> (Inr (Inl (google_reconsent @ '': '' @ text e)), d)
             | (Inr access, d) \<Rightarrow> (Inr (gdoc_export T doc access), d)))
      else (case get key of
          Inl e \<Rightarrow> fail (ErrWrap ''import: fetch original from R2'' e)
        | Inr orig \<Rightarrow> (case dispatch T format of
              None \<Rightarrow> ret (Inl (''unsupported format '' @ CHR 0x22 # format @ [CHR 0x22]))
            | Some conv \<Rightarrow> ret (conv orig))))"

definition handle_import_job ::
  "env \<Rightarrow> tools \<Rightarrow> (error \<Rightarrow> string) \<Rightarrow> (json \<Rightarrow> (uuid \<times> string \<times> string \<times> string) option) \<Rightarrow> (string \<Rightarrow> error + bytes) \<Rightarrow>
     (uuid \<Rightarrow> bool \<Rightarrow> string act) option \<Rightarrow> uuid \<Rightarrow> job_data \<Rightarrow> unit act" where
  "handle_import_job E T text other get exporter tid dat =
     (case import_payload other dat of
        None \<Rightarrow> fail (ErrWrap ''import: unmarshal payload'' (ErrText ''json''))
      | Some (iid, format, key, doc) \<Rightarrow>
          let sc = \<lparr>sc_tenant = tid, sc_platform = False\<rparr> in
          (\<lambda>d. case scoped E sc (\<lambda>q. get_import_by_id q iid) d of
             (Inl e, d) \<Rightarrow> if errors_is e ErrNoRows then (Inr (), d) else (Inl (ErrWrap ''import: load row'' e), d)
           | (Inr im, d) \<Rightarrow>
               if im_status im \<noteq> ImportConverting then (Inr (), d)
               else and_then (convert_source T text get exporter im format key doc)
                 (\<lambda>c. scoped_rw E sc (\<lambda>q. update_import q (im_id im) (outcome_of c))) d))"

section \<open>Apply\<close>

definition apply_gate :: "doc_import \<Rightarrow> error + unit" where
  "apply_gate im =
     (if im_status im \<noteq> ImportDone then Inl ErrNotConverted
      else if im_post im \<noteq> None then Inl ErrAlreadyApplied
      else case im_markdown im of
        None \<Rightarrow> Inl ErrNotConverted
      | Some md \<Rightarrow> if trim_space md = [] then Inl ErrNotConverted else Inr ())"

definition draft_of :: "doc_import \<Rightarrow> create_input" where
  "draft_of im =
     (let md = (case im_markdown im of None \<Rightarrow> [] | Some md \<Rightarrow> md)
      in \<lparr>ci_title = title_from_content md, ci_markdown = md, ci_slug = import_slug md (im_id im),
          ci_excerpt = [], ci_metadata = None\<rparr>)"

text \<open>The draft, and the link to it: two transactions between which other requests may run.\<close>

definition apply_draft :: "env \<Rightarrow> import_config \<Rightarrow> uuid \<Rightarrow> actor \<Rightarrow> uuid \<Rightarrow> post act" where
  "apply_draft E C pid a iid =
     and_then (require a CapRunImport) (\<lambda>_.
       and_then (load_import E a iid) (\<lambda>im.
         and_then (lift_sum (apply_gate im)) (\<lambda>_.
           svc_create E (ic_posts C) pid a (draft_of im))))"

definition apply_link :: "env \<Rightarrow> actor \<Rightarrow> uuid \<Rightarrow> post \<Rightarrow> post act" where
  "apply_link E a iid p =
     and_then
       (scoped_rw E (scope_from_actor a) (\<lambda>q. handle (set_import_post_id q iid (p_id p)) (\<lambda>e. fail ErrAlreadyApplied)))
       (\<lambda>_. ret p)"

definition import_apply :: "env \<Rightarrow> import_config \<Rightarrow> uuid \<Rightarrow> actor \<Rightarrow> uuid \<Rightarrow> post act" where
  "import_apply E C pid a iid = and_then (apply_draft E C pid a iid) (apply_link E a iid)"

section \<open>Names of drafts\<close>

lemma slug_rune_text: "slug_text (List.map_filter slug_rune s)"
proof -
  have "slug_char c' \<or> c' = CHR ''-''" if "slug_rune c = Some c'" for c c'
    using that by (auto simp: slug_rune_def slug_char_def is_upper_def is_lower_def lower_byte_def split: if_splits)
  then show ?thesis by (induction s) (auto simp: slug_text_def List.map_filter_simps split: option.split)
qed

lemma hex_char_slug: "d < 16 \<Longrightarrow> slug_char (hex_char d)"
  by (auto simp: hex_char_def slug_char_def is_lower_def is_digit_def)

lemma hex_digits_slug: "c \<in> set (hex_digits n v) \<Longrightarrow> slug_char c"
  by (induction n arbitrary: v) (auto simp: hex_char_slug)

lemma default_name: "valid_slug (''import-'' @ take 8 (uuid_string u)) \<and> length (''import-'' @ take 8 (uuid_string u)) \<le> 63"
proof -
  let ?h = "take 8 (hex_digits 32 (unat u))"
  have h: "take 8 (uuid_string u) = ?h" by (simp add: uuid_string_def Let_def)
  have len: "length ?h = 8" by simp
  have slug: "slug_char c" if "c \<in> set ?h" for c using that by (auto dest: in_set_takeD hex_digits_slug)
  have "hex_digits 32 (unat u) \<noteq> []" by (metis length_hex_digits list.size(3) zero_neq_numeral)
  then have last: "last (''import-'' @ ?h) = last ?h" "last ?h \<in> set ?h"
    using last_in_set [of ?h] by (simp_all add: last_append del: last_in_set)
  show ?thesis unfolding h
  proof (intro conjI valid_slugI)
    show "last (''import-'' @ ?h) \<noteq> CHR ''-''" using last slug by fastforce
    show "slug_text (''import-'' @ ?h)"
      using slug by (auto simp: slug_text_def list_all_iff slug_char_def is_lower_def)
  qed (use len in simp_all)
qed

lemma import_slug_shape: "valid_slug (import_slug content iid) \<and> length (import_slug content iid) \<le> 63"
proof -
  define t where "t = List.map_filter slug_rune (let ti = title_from_content content in
      if ti = [] then ''import-'' @ take 8 (uuid_string iid) else ti)"
  define s where "s = trim t ''-''"
  define u where "u = (if length s > 63 then trim_right (take 63 s) ''-'' else s)"
  have slug: "import_slug content iid = (if u = [] then ''import-'' @ take 8 (uuid_string iid) else u)"
    by (simp add: import_slug_def Let_def t_def s_def u_def)
  show ?thesis
  proof (cases "u = []")
    case True
    then show ?thesis unfolding slug using default_name by simp
  next
    case False
    have "slug_text s" using slug_rune_text set_trim [of t "''-''"] unfolding s_def t_def slug_text_def list_all_iff by blast
    then have chars: "slug_text u"
      using set_trim_right [of "take 63 s" "''-''"] unfolding u_def slug_text_def list_all_iff
      by (auto dest: in_set_takeD)
    have s: "s \<noteq> []" using False by (auto simp: u_def trim_right_def)
    then have "hd u = hd s" using False hd_trim_right [of "take 63 s" "''-''"] by (auto simp: u_def)
    then have "hd u \<noteq> CHR ''-''" using hd_trim [of t "''-''"] s by (simp add: s_def)
    moreover have "last u \<noteq> CHR ''-''"
      using False last_trim [of t "''-''"] last_trim_right [of "take 63 s" "''-''"] s by (auto simp: u_def s_def split: if_splits)
    moreover have "length u \<le> 63" using length_trim_right [of "take 63 s" "''-''"] by (auto simp: u_def)
    ultimately show ?thesis unfolding slug using False valid_slugI [OF False chars] by simp
  qed
qed

lemma back_to_rune_le: "back_to_rune l n \<le> n"
  by (induction n) auto

lemma length_first_title: "length (first_title ls) \<le> 200"
proof (induction ls)
  case (Cons l ls)
  then show ?case using back_to_rune_le [of "trim_prefix (trim_space l) ''# ''" 200] by (auto simp: Let_def)
qed simp

section \<open>Conversions\<close>

lemma run_pandoc_bounded: "run_pandoc T f src = Inr (md, fid) \<Longrightarrow> md \<noteq> [] \<and> length md \<le> max_output_bytes"
  by (auto simp: run_pandoc_def Let_def split: sum.splits run_result.splits if_splits)

lemma pdftotext_bounded: "pdftotext T src = Inr (md, fid) \<Longrightarrow> md \<noteq> [] \<and> length md \<le> max_output_bytes"
  by (auto simp: pdftotext_def split: sum.splits run_result.splits if_splits)

lemma gdoc_bounded: "gdoc_export T doc tok = Inr (md, fid) \<Longrightarrow> md \<noteq> [] \<and> length md \<le> max_output_bytes"
  by (auto simp: gdoc_export_def Let_def dest: run_pandoc_bounded split: option.splits sum.splits if_splits)

lemma dispatch_bounded: "dispatch T f = Some conv \<Longrightarrow> conv src = Inr (md, fid) \<Longrightarrow> md \<noteq> [] \<and> length md \<le> max_output_bytes"
  by (auto simp: dispatch_def dest: run_pandoc_bounded pdftotext_bounded split: if_splits)

section \<open>What the job does to the imports\<close>

context google_exporter
begin

lemma convert_keeps:
  assumes "convert_source T text get (Some exporter) im f key doc d = (Inr c, d')"
  shows "doc_imports d' = doc_imports d \<and> posts d' = posts d \<and> (\<forall>md fid. c = Inr (md, fid) \<longrightarrow> md \<noteq> [] \<and> length md \<le> max_output_bytes)"
  using assms
  by (auto simp: convert_source_def dest: keeps_imports keeps_posts gdoc_bounded dispatch_bounded
      split: if_splits sum.splits prod.splits option.splits)

lemma convert_failed:
  "convert_source T text get (Some exporter) im f key doc d = (Inl e, d') \<Longrightarrow> d' = d"
  by (auto simp: convert_source_def split: if_splits sum.splits prod.splits option.splits)

text \<open>A conversion and the transaction that records it.\<close>

lemma conversion_written:
  assumes "and_then (convert_source T text get (Some exporter) im f key doc)
      (\<lambda>c. scoped_rw E sc (\<lambda>q. update_import q iid (outcome_of c))) d = (r, d')"
  shows "posts d' = posts d \<and> (doc_imports d' = doc_imports d \<or>
    (\<exists>c. (\<forall>md fid. c = Inr (md, fid) \<longrightarrow> md \<noteq> [] \<and> length md \<le> max_output_bytes) \<and>
       doc_imports d' = upd_rows (import_at (tx_of E False sc) iid) (import_with (tx_of E False sc) (outcome_of c)) (doc_imports d)))"
proof -
  obtain c d1 where c: "convert_source T text get (Some exporter) im f key doc d = (c, d1)" by fastforce
  show ?thesis
  proof (cases c)
    case (Inl e)
    then have "d1 = d" using c convert_failed by blast
    then show ?thesis using assms c Inl by (auto simp: and_then_def)
  next
    case (Inr k)
    then have w: "scoped_rw E sc (\<lambda>q. update_import q iid (outcome_of k)) d1 = (r, d')"
      using assms c by (simp add: and_then_def)
    have same: "doc_imports d1 = doc_imports d" "posts d1 = posts d"
      and ok: "\<forall>md fid. k = Inr (md, fid) \<longrightarrow> md \<noteq> [] \<and> length md \<le> max_output_bytes"
      using convert_keeps c Inr by blast+
    have "d' = d1 \<or> d' = d1\<lparr>doc_imports := upd_rows (import_at (tx_of E False sc) iid)
        (import_with (tx_of E False sc) (outcome_of k)) (doc_imports d1)\<rparr>"
    proof (cases r)
      case (Inl e)
      then show ?thesis using w by (auto dest: scoped_rw_InlD)
    next
      case (Inr x)
      then show ?thesis using w by (auto simp: scoped_rw_runs update_import_def txn_run split: if_splits)
    qed
    then have "posts d' = posts d" "doc_imports d' = doc_imports d \<or>
        doc_imports d' = upd_rows (import_at (tx_of E False sc) iid) (import_with (tx_of E False sc) (outcome_of k)) (doc_imports d)"
      using same by auto
    then show ?thesis using ok by blast
  qed
qed

lemma job_effect:
  assumes "handle_import_job E T text other get (Some exporter) tid dat d = (r, d')"
  shows "posts d' = posts d \<and> (doc_imports d' = doc_imports d \<or>
    (\<exists>iid im c. find (import_at (tx_of E True \<lparr>sc_tenant = tid, sc_platform = False\<rparr>) iid) (doc_imports d) = Some im \<and>
       im_status im = ImportConverting \<and> (\<forall>md fid. c = Inr (md, fid) \<longrightarrow> md \<noteq> [] \<and> length md \<le> max_output_bytes) \<and>
       doc_imports d' = upd_rows (import_at (tx_of E False \<lparr>sc_tenant = tid, sc_platform = False\<rparr>) iid)
         (import_with (tx_of E False \<lparr>sc_tenant = tid, sc_platform = False\<rparr>) (outcome_of c)) (doc_imports d)))"
proof (cases "import_payload other dat")
  case None
  then show ?thesis using assms by (simp add: handle_import_job_def)
next
  case (Some v)
  obtain iid f key doc where v: "v = (iid, f, key, doc)" by (cases v)
  let ?sc = "\<lparr>sc_tenant = tid, sc_platform = False\<rparr>"
  have load: "scoped E ?sc (\<lambda>q. get_import_by_id q iid) d =
      (case find (import_at (tx_of E True ?sc) iid) (doc_imports d) of None \<Rightarrow> (Inl ErrNoRows, d) | Some im \<Rightarrow> (Inr im, d))"
    by (simp add: scoped_def run_tx_def get_import_by_id_def and_then_def split: option.split)
  show ?thesis
  proof (cases "find (import_at (tx_of E True ?sc) iid) (doc_imports d)")
    case None
    then show ?thesis using assms Some v load by (simp add: handle_import_job_def Let_def)
  next
    case found: (Some im)
    have iid: "im_id im = iid" using find_SomeD [OF found] by (simp add: import_at_def)
    show ?thesis
    proof (cases "im_status im = ImportConverting")
      case False
      then show ?thesis using assms Some v load found by (simp add: handle_import_job_def Let_def)
    next
      case True
      then have "and_then (convert_source T text get (Some exporter) im f key doc)
          (\<lambda>c. scoped_rw E ?sc (\<lambda>q. update_import q iid (outcome_of c))) d = (r, d')"
        using assms Some v load found iid by (simp add: handle_import_job_def Let_def)
      from conversion_written [OF this] show ?thesis using found True by blast
    qed
  qed
qed

end

section \<open>What an application does\<close>

lemma load_import_Inr:
  "load_import E a iid d = (Inr im, d') \<longleftrightarrow>
     find (import_at (tx_of E True (scope_from_actor a)) iid) (doc_imports d) = Some im \<and> d' = d"
  by (auto simp: load_import_def scoped_runs get_import_by_id_def txn_run)

lemma apply_draft_effect:
  assumes "apply_draft E C pid a iid d = (Inr p, d')"
  obtains im md where "find (import_at (tx_of E True (scope_from_actor a)) iid) (doc_imports d) = Some im"
    "im_status im = ImportDone" "im_post im = None" "im_markdown im = Some md" "trim_space md \<noteq> []"
    "svc_create E (ic_posts C) pid a (draft_of im) d = (Inr p, d')"
  using assms
  by (auto simp: apply_draft_def act_require act_lift load_import_Inr apply_gate_def elim!: and_then_InrE
      split: if_splits option.splits)

lemma apply_link_effect:
  assumes "apply_link E a iid p d = (Inr p', d')"
  shows "p' = p \<and> d' = d\<lparr>doc_imports := upd_rows (claimable (rw_tx E a) iid)
      (\<lambda>im. im\<lparr>im_post := Some (p_id p), im_updated := e_pgnow E\<rparr>) (doc_imports d)\<rparr> \<and>
    (\<exists>im \<in> set (doc_imports d). claimable (rw_tx E a) iid im)"
  using assms
  by (auto simp: apply_link_def scoped_rw_runs set_import_post_id_def txn_run filter_empty_conv elim!: and_then_InrE split: if_splits)

text \<open>An import that is linked cannot be claimed.\<close>

lemma apply_link_taken:
  assumes "\<forall>im \<in> set (doc_imports d). \<not> claimable (rw_tx E a) iid im"
  shows "apply_link E a iid p d = (Inl ErrAlreadyApplied, d)"
  using assms
  by (auto simp: apply_link_def and_then_def scoped_rw_def run_tx_def set_import_post_id_def handle_def affected_def)

lemma import_at_scope: "import_at (tx_of E ro sc) iid = import_at (tx_of E' ro' sc) iid"
  by (simp add: import_at_def visible_scope fun_eq_iff)

lemma find_linked:
  assumes "find (import_at q iid) ims = Some im" "im_post im = None"
  shows "find (import_at q iid) (upd_rows (claimable q iid) (\<lambda>im. im\<lparr>im_post := Some p, im_updated := t\<rparr>) ims) =
    Some (im\<lparr>im_post := Some p, im_updated := t\<rparr>)"
  using assms by (induction ims) (auto simp: claimable_def import_at_def split: if_splits)

section \<open>Properties\<close>

text \<open>
  Whatever a converted document contains, the slug asked for its draft is valid, at most 63 bytes long,
  and the title at most 200.
\<close>

theorem import_names_bounded:
  "valid_slug (import_slug content iid) \<and> length (import_slug content iid) \<le> 63 \<and> length (title_from_content content) \<le> 200"
  using import_slug_shape length_first_title by (simp add: title_from_content_def)

text \<open>
  C35. A document is converted once: the job changes no post and at most one import, of its own tenant and still
  converting, which ends done with Markdown of at most 2 MiB and not empty, or failed with a message and no
  other Markdown than before; the link to a draft stays. An import that is done or failed is never touched.
\<close>

theorem import_converted_once:
  assumes "handle_import_job E T msg other get (Some (get_google_token E X P n1 n2)) tid dat d = (r, d')"
    and "distinct (map im_id (doc_imports d))"
  shows "posts d' = posts d \<and> (doc_imports d' = doc_imports d \<or>
    (\<exists>im \<in> set (doc_imports d). \<exists>im'. im_tenant im = tid \<and> im_status im = ImportConverting \<and>
       doc_imports d' = map (\<lambda>x. if x = im then im' else x) (doc_imports d) \<and>
       im_id im' = im_id im \<and> im_tenant im' = tid \<and> im_post im' = im_post im \<and>
       (im_status im' = ImportDone \<and> (\<exists>md. im_markdown im' = Some md \<and> md \<noteq> [] \<and> length md \<le> max_output_bytes) \<or>
        im_status im' = ImportError \<and> im_markdown im' = im_markdown im \<and> im_error im' \<noteq> None)))"
proof -
  let ?sc = "\<lparr>sc_tenant = tid, sc_platform = False\<rparr>"
  let ?q = "tx_of E False ?sc"
  note eff = google_tokens.job_effect [OF assms(1)]
  then have posts: "posts d' = posts d" by blast
  show ?thesis
  proof (cases "doc_imports d' = doc_imports d")
    case False
    then obtain iid im c where im: "find (import_at ?q iid) (doc_imports d) = Some im" "im_status im = ImportConverting"
      and ok: "\<forall>md fid. c = Inr (md, fid) \<longrightarrow> md \<noteq> [] \<and> length md \<le> max_output_bytes"
      and d': "doc_imports d' = upd_rows (import_at ?q iid) (import_with ?q (outcome_of c)) (doc_imports d)"
      using eff import_at_scope [of E True ?sc _ E False] by auto
    have at: "im \<in> set (doc_imports d)" "import_at ?q iid im" using find_SomeD [OF im(1)] by auto
    then have "import_at ?q iid x \<longleftrightarrow> x = im" if "x \<in> set (doc_imports d)" for x
      using key_unique [OF assms(2) that at(1)] by (auto simp: import_at_def)
    moreover define im' where "im' = import_with ?q (outcome_of c) im"
    ultimately have "doc_imports d' = map (\<lambda>x. if x = im then im' else x) (doc_imports d)"
      unfolding d' upd_rows_def by (intro map_cong) auto
    moreover have "im_tenant im = tid" using at(2) by (simp add: import_at_def visible_scope)
    moreover have "im_id im' = im_id im" "im_tenant im' = im_tenant im" "im_post im' = im_post im"
      by (cases c; simp add: im'_def import_with_def outcome_of_def coalesce_def split: prod.split)+
    moreover have "im_status im' = ImportDone \<and> (\<exists>md. im_markdown im' = Some md \<and> md \<noteq> [] \<and> length md \<le> max_output_bytes) \<or>
        im_status im' = ImportError \<and> im_markdown im' = im_markdown im \<and> im_error im' \<noteq> None"
      using ok by (cases c) (auto simp: im'_def import_with_def outcome_of_def coalesce_def)
    ultimately show ?thesis
      using posts at(1) im(2) by blast
  qed (use posts in blast)
qed

text \<open>
  C36. Applying a converted import makes exactly one draft of it: the draft is the actor's, in the actor's tenant,
  with the converted Markdown and its sanitized rendering; the import is linked to it; and applying the
  import again fails and changes nothing.
\<close>

theorem apply_links_draft:
  assumes "import_apply E C pid a iid d = (Inr p, d')"
  shows "\<exists>im im' md. find (import_at (rw_tx E a) iid) (doc_imports d) = Some im \<and> im_status im = ImportDone \<and> im_markdown im = Some md \<and>
    posts d' = posts d @ [p] \<and> p_tenant p = tenant_of_actor a \<and> p_author p = a_user a \<and> p_status p = PostDraft \<and>
    p_markdown p = md \<and> render E (ic_posts C) md None = Inr (p_html p) \<and>
    find (import_at (rw_tx E a) iid) (doc_imports d') = Some im' \<and> im_post im' = Some (p_id p) \<and>
    import_apply E' C' pid' a iid d' = (Inl ErrAlreadyApplied, d')"
proof -
  obtain d1 where draft: "apply_draft E C pid a iid d = (Inr p, d1)" and link: "apply_link E a iid p d1 = (Inr p, d')"
    using assms apply_link_effect unfolding import_apply_def by (fastforce elim!: and_then_InrE)
  obtain im md where im: "find (import_at (rw_tx E a) iid) (doc_imports d) = Some im" "im_status im = ImportDone"
    "im_post im = None" "im_markdown im = Some md"
    and create: "svc_create E (ic_posts C) pid a (draft_of im) d = (Inr p, d1)"
    using draft import_at_scope [of E True "scope_from_actor a" iid E False] by (auto elim!: apply_draft_effect)
  have run: "can a CapRunImport" using draft by (simp add: apply_draft_def act_require)
  have d1: "d1 = d\<lparr>posts := posts d @ [p]\<rparr>" and p: "p_tenant p = tenant_of_actor a" "p_author p = a_user a"
    "p_status p = PostDraft" "p_markdown p = md" "render E (ic_posts C) md None = Inr (p_html p)"
    using create im(4) by (auto elim!: svc_create_effect simp: draft_of_def)
  have d': "d' = d1\<lparr>doc_imports := upd_rows (claimable (rw_tx E a) iid)
      (\<lambda>im. im\<lparr>im_post := Some (p_id p), im_updated := e_pgnow E\<rparr>) (doc_imports d1)\<rparr>"
    using apply_link_effect [OF link] by blast
  let ?im = "im\<lparr>im_post := Some (p_id p), im_updated := e_pgnow E\<rparr>"
  have found: "find (import_at (rw_tx E a) iid) (doc_imports d') = Some ?im"
    using find_linked [OF im(1,3)] by (simp add: d' d1)
  have "load_import E' a iid d' = (Inr ?im, d')"
    using found import_at_scope [of E' True "scope_from_actor a" iid E False] by (simp add: load_import_Inr)
  then have "import_apply E' C' pid' a iid d' = (Inl ErrAlreadyApplied, d')"
    using run im(2) by (simp add: import_apply_def apply_draft_def and_then_def require_def apply_gate_def)
  then show ?thesis using im p found d1 d' by (intro exI conjI) auto
qed

text \<open>
  Of two applications at once one loses, and leaves its draft behind: when both have passed the gate and
  the other links first, this one fails as already applied, and its draft stays among the posts, with no
  import that leads to it.
\<close>

theorem apply_race_orphan:
  assumes "apply_draft E C pid a iid d = (Inr p, d1)" "apply_draft E2 C pid2 a2 iid d1 = (Inr p2, d2)"
    and "apply_link E2 a2 iid p2 d2 = (Inr p2, d3)" "scope_from_actor a2 = scope_from_actor a"
    and "\<forall>im \<in> set (doc_imports d). im_post im \<noteq> Some pid"
  shows "apply_link E a iid p d3 = (Inl ErrAlreadyApplied, d3) \<and> p \<in> set (posts d3) \<and>
    (\<forall>im \<in> set (doc_imports d3). im_post im \<noteq> Some (p_id p))"
proof -
  have 1: "d1 = d\<lparr>posts := posts d @ [p]\<rparr>" "p_id p = pid"
    using assms(1) by (auto elim!: apply_draft_effect svc_create_effect)
  have 2: "d2 = d1\<lparr>posts := posts d1 @ [p2]\<rparr>" "p_id p2 = pid2" "\<forall>x \<in> set (posts d1). p_id x \<noteq> pid2"
    using assms(2) by (auto elim!: apply_draft_effect svc_create_effect)
  have 3: "d3 = d2\<lparr>doc_imports := upd_rows (claimable (rw_tx E2 a2) iid)
      (\<lambda>im. im\<lparr>im_post := Some (p_id p2), im_updated := e_pgnow E2\<rparr>) (doc_imports d2)\<rparr>"
    using apply_link_effect [OF assms(3)] by blast
  have "claimable (rw_tx E a) iid = claimable (rw_tx E2 a2) iid"
    using import_at_scope [of E False "scope_from_actor a" iid E2 False] assms(4) by (simp add: claimable_def fun_eq_iff)
  then have "\<forall>im \<in> set (doc_imports d3). \<not> claimable (rw_tx E a) iid im"
    unfolding 3 by (auto simp: set_upd_rows claimable_def)
  moreover have "pid \<noteq> pid2" using 1 2(3) by auto
  ultimately show ?thesis
    using apply_link_taken assms(5) 1 2 unfolding 3 by (auto simp: set_upd_rows)
qed

section \<open>An import of Markdown\<close>

definition sample_import :: doc_import where
  "sample_import = \<lparr>im_id = 40, im_tenant = 1, im_user = 2, im_post = None, im_format = ''md'', im_key = ''k'',
     im_status = ImportConverting, im_markdown = None, im_error = None, im_created = 0, im_updated = 0\<rparr>"

definition sample_converted :: doc_import where
  "sample_converted = sample_import\<lparr>im_status := ImportDone, im_markdown := Some ''hi'', im_updated := 50\<rparr>"

definition site_importing :: "doc_import \<Rightarrow> db" where
  "site_importing im = sample_site\<lparr>doc_imports := [im]\<rparr>"

definition sample_tools :: tools where
  "sample_tools = \<lparr>to_look = Inr, to_run = (\<lambda>path args src. Ran src), to_request = (\<lambda>u. None), to_do = (\<lambda>u t. Inl [])\<rparr>"

definition sample_import_config :: import_config where
  "sample_import_config = \<lparr>ic_slug = [], ic_posts = sample_cfg\<rparr>"

lemma sample_conversion:
  "handle_import_job sample_env sample_tools (\<lambda>e. []) (\<lambda>j. None) (\<lambda>k. Inr ''hi'') (Some x) 1 (ImportData 40 ''md'' ''k'' [])
     (site_importing sample_import) = (Inr (), site_importing sample_converted)"
proof -
  have "run_pandoc sample_tools ''md'' ''hi'' = Inr (''hi'', ''high'')"
    by (simp add: run_pandoc_def sample_tools_def max_output_bytes_def)
  then show ?thesis
    by (simp add: handle_import_job_def import_payload_def Let_def scoped_def scoped_rw_def run_tx_def get_import_by_id_def
        and_then_def import_at_def visible_def convert_source_def dispatch_def update_import_def outcome_of_def import_with_def
        coalesce_def affected_def site_importing_def sample_import_def sample_converted_def blog_defs)
qed

theorem import_converted_once_witness:
  "\<exists>im \<in> set (doc_imports (site_importing sample_import)). im_status im = ImportConverting \<and> im_tenant im = 1"
proof -
  have "doc_imports (site_importing sample_converted) \<noteq> doc_imports (site_importing sample_import)"
    "distinct (map im_id (doc_imports (site_importing sample_import)))"
    by (simp_all add: site_importing_def sample_converted_def sample_import_def)
  then show ?thesis using import_converted_once [OF sample_conversion] by blast
qed

lemma sample_draft_of [simp]: "ci_markdown (draft_of sample_converted) = ''hi''" "ci_metadata (draft_of sample_converted) = None"
  by (simp_all add: draft_of_def Let_def sample_converted_def)

lemma sample_apply_draft:
  assumes "posts d = ps" "doc_imports d = [sample_converted]" "tenants d = tenants sample_site" "users d = users sample_site"
    and "\<forall>x \<in> set ps. p_id x \<noteq> pid" "length ps < 10000"
  obtains p where "apply_draft sample_env sample_import_config pid sample_editor 40 d = (Inr p, d\<lparr>posts := ps @ [p]\<rparr>)"
    "p_id p = pid" "p_tenant p = 1"
proof -
  have md: "trim_space ''hi'' = ''hi''" by (intro trim_space_visible) (simp add: visible_char_def)
  have "load_import sample_env sample_editor 40 d = (Inr sample_converted, d)"
    using assms(2) by (simp add: load_import_Inr import_at_def visible_def sample_converted_def sample_import_def)
  moreover have "can sample_editor CapRunImport" by (simp add: can_def sample_editor_def)
  moreover have "apply_gate sample_converted = Inr ()"
    by (simp add: apply_gate_def sample_converted_def sample_import_def md)
  moreover have "length (filter (\<lambda>p. p_tenant p = 1) (posts d)) < 10000"
    using assms(1,6) by (meson le_less_trans length_filter_le)
  then obtain p where "svc_create sample_env sample_cfg pid sample_editor (draft_of sample_converted) d = (Inr p, d\<lparr>posts := ps @ [p]\<rparr>)"
    "p_id p = pid" "p_tenant p = 1"
    using create_ok [of sample_editor 1 d sample_env sample_cfg "draft_of sample_converted" "''hi''" pid] sample_site_facts assms
    by (auto simp: has_tenant_def has_user_def)
  ultimately show thesis
    by (intro that) (simp_all add: apply_draft_def and_then_def require_def sample_import_config_def)
qed

lemma sample_apply_link:
  assumes "doc_imports d = [sample_converted]" "p \<in> set (posts d)" "p_tenant p = 1"
  shows "apply_link sample_env sample_editor 40 p d =
    (Inr p, d\<lparr>doc_imports := [sample_converted\<lparr>im_post := Some (p_id p), im_updated := 50\<rparr>]\<rparr>)"
  using assms
  by (auto simp: apply_link_def and_then_def scoped_rw_def run_tx_def set_import_post_id_def handle_def affected_def
      claimable_def import_at_def visible_def has_post_def sample_converted_def sample_import_def)

theorem apply_links_draft_witness:
  "\<exists>p d'. import_apply sample_env sample_import_config 50 sample_editor 40 (site_importing sample_converted) = (Inr p, d') \<and>
     p_markdown p = ''hi'' \<and> import_apply sample_env sample_import_config 51 sample_editor 40 d' = (Inl ErrAlreadyApplied, d')"
proof -
  obtain p where p: "apply_draft sample_env sample_import_config 50 sample_editor 40 (site_importing sample_converted) =
      (Inr p, (site_importing sample_converted)\<lparr>posts := [] @ [p]\<rparr>)" "p_id p = 50" "p_tenant p = 1"
    by (rule sample_apply_draft [of "site_importing sample_converted" "[]" 50])
      (simp_all add: site_importing_def sample_site_facts)
  then obtain d' where "import_apply sample_env sample_import_config 50 sample_editor 40 (site_importing sample_converted) = (Inr p, d')"
    by (simp add: import_apply_def and_then_def sample_apply_link site_importing_def)
  with apply_links_draft [OF this, of sample_env sample_import_config 51] show ?thesis
    by (auto simp: site_importing_def import_at_def sample_converted_def split: if_splits)
qed

theorem apply_race_orphan_witness:
  "\<exists>p d. p \<in> set (posts d) \<and> apply_link sample_env sample_editor 40 p d = (Inl ErrAlreadyApplied, d)"
proof -
  let ?d = "site_importing sample_converted" and ?draft = "apply_draft sample_env sample_import_config"
  obtain p where p: "?draft 50 sample_editor 40 ?d = (Inr p, ?d\<lparr>posts := [] @ [p]\<rparr>)" "p_id p = 50" "p_tenant p = 1"
    by (rule sample_apply_draft [of ?d "[]" 50]) (simp_all add: site_importing_def sample_site_facts)
  obtain p2 where p2: "?draft 51 sample_editor 40 (?d\<lparr>posts := [] @ [p]\<rparr>) = (Inr p2, ?d\<lparr>posts := [] @ [p]\<rparr>\<lparr>posts := [p] @ [p2]\<rparr>)"
      "p_id p2 = 51" "p_tenant p2 = 1"
    by (rule sample_apply_draft [of "?d\<lparr>posts := [] @ [p]\<rparr>" "[p]" 51]) (simp_all add: site_importing_def p(2))
  have "apply_link sample_env sample_editor 40 p2 (?d\<lparr>posts := [] @ [p]\<rparr>\<lparr>posts := [p] @ [p2]\<rparr>) =
      (Inr p2, ?d\<lparr>posts := [] @ [p]\<rparr>\<lparr>posts := [p] @ [p2]\<rparr>\<lparr>doc_imports := [sample_converted\<lparr>im_post := Some 51, im_updated := 50\<rparr>]\<rparr>)"
    using sample_apply_link [of "?d\<lparr>posts := [] @ [p]\<rparr>\<lparr>posts := [p] @ [p2]\<rparr>" p2] p2(2,3) by (simp add: site_importing_def)
  moreover have "\<forall>im \<in> set (doc_imports ?d). im_post im \<noteq> Some 50"
    by (simp add: site_importing_def sample_converted_def sample_import_def)
  ultimately show ?thesis using apply_race_orphan [OF p(1) p2(1) _ refl] by blast
qed

end
