(* ===== verification/Clock.thy ===== *)
theory Clock
  imports GoStrings
begin

text \<open>
  Calendar dates of UTC times, and the two layouts that request signing uses,
  \<open>Format("20060102")\<close> and \<open>Format("20060102T150405Z")\<close>. A date is found by counting in eras of 400
  years that begin on 1 March.
\<close>

section \<open>Civil dates\<close>

definition civil_of_days :: "int \<Rightarrow> int \<times> int \<times> int" where
  "civil_of_days n =
     (let z = n + 719468; era = z div 146097; doe = z mod 146097;
          yoe = (doe - doe div 1460 + doe div 36524 - doe div 146096) div 365;
          doy = doe - (365 * yoe + yoe div 4 - yoe div 100);
          mp = (5 * doy + 2) div 153;
          d = doy - (153 * mp + 2) div 5 + 1;
          m = (if mp < 10 then mp + 3 else mp - 9);
          y = yoe + era * 400
      in (if m \<le> 2 then y + 1 else y, m, d))"

section \<open>Layouts\<close>

text \<open>A number in decimal, filled with zeros to the width.\<close>

definition zero_padded :: "nat \<Rightarrow> int \<Rightarrow> string" where
  "zero_padded w n = (let s = itoa (nat n) in replicate (w - length s) CHR ''0'' @ s)"

definition day_of :: "time \<Rightarrow> int" where
  "day_of t = t div (86400 * second)"

definition second_of_day :: "time \<Rightarrow> int" where
  "second_of_day t = t div second mod 86400"

definition date_stamp :: "time \<Rightarrow> string" where
  "date_stamp t =
     (let (y, m, d) = civil_of_days (day_of t)
      in zero_padded 4 y @ zero_padded 2 m @ zero_padded 2 d)"

definition time_stamp :: "time \<Rightarrow> string" where
  "time_stamp t =
     (let s = second_of_day t
      in date_stamp t @ ''T'' @ zero_padded 2 (s div 3600) @ zero_padded 2 (s div 60 mod 60) @ zero_padded 2 (s mod 60) @ ''Z'')"

section \<open>Lengths and examples\<close>

lemma time_stamp_date: "time_stamp t = date_stamp t @ drop (length (date_stamp t)) (time_stamp t)"
  by (simp add: time_stamp_def Let_def)

lemma length_zero_padded_2: "0 \<le> n \<Longrightarrow> n < 100 \<Longrightarrow> length (zero_padded 2 n) = 2"
  by (cases "nat n < 10") (simp_all add: zero_padded_def Let_def itoa.simps)

text \<open>The time of day takes eight characters, so a time stamp determines its date stamp.\<close>

lemma time_stamp_length: "length (time_stamp t) = length (date_stamp t) + 8"
proof -
  have "0 \<le> second_of_day t" "second_of_day t < 86400" by (simp_all add: second_of_day_def)
  then have "0 \<le> second_of_day t div 3600" "second_of_day t div 3600 < 100"
    "second_of_day t div 60 mod 60 < 100" "second_of_day t mod 60 < 100"
    by (simp_all add: pos_imp_zdiv_nonneg_iff, linarith?)
  then show ?thesis
    by (simp add: time_stamp_def Let_def length_zero_padded_2 pos_mod_sign)
qed

lemma time_stamp_date_inject: "time_stamp t = time_stamp t' \<Longrightarrow> date_stamp t = date_stamp t'"
proof -
  assume eq: "time_stamp t = time_stamp t'"
  then have "length (date_stamp t) = length (date_stamp t')"
    using time_stamp_length [of t] time_stamp_length [of t'] by simp
  then show ?thesis using eq time_stamp_date by (metis append_eq_append_conv)
qed

lemma stamp_examples:
  "time_stamp (1709164800 * second) = ''20240229T000000Z''"
  "time_stamp (1369353600 * second) = ''20130524T000000Z''"
  by code_simp+

end
