(* ===== verification/Signing.thy ===== *)
theory Signing
  imports Clock Env
begin

text \<open>
  internal/media/signing.go: the AWS Signature Version 4 of a presigned upload URL. SHA-256 is the
  parameter of the environment; HMAC is built from it as in crypto/hmac. Rendering the URL record back
  to text is the argument \<open>render\<close>.
\<close>

section \<open>Percent encoding\<close>

definition is_unreserved :: "char \<Rightarrow> bool" where
  "is_unreserved c = (is_upper c \<or> is_lower c \<or> is_digit c \<or> c \<in> {CHR ''-'', CHR ''_'', CHR ''.'', CHR ''~''})"

definition hextab :: string where
  "hextab = ''0123456789ABCDEF''"

definition encode_byte :: "char \<Rightarrow> string" where
  "encode_byte c =
     (if is_unreserved c then [c]
      else [CHR ''%'', hextab ! (of_char c div 16), hextab ! (of_char c mod 16)])"

definition encode_query_value :: "string \<Rightarrow> string" where
  "encode_query_value s = concat (map encode_byte s)"

definition encode_path :: "string \<Rightarrow> string" where
  "encode_path s = go_join (map encode_query_value (go_split s CHR ''/'')) ''/''"

section \<open>HMAC and the signing key\<close>

definition xor_pad :: "nat \<Rightarrow> bytes \<Rightarrow> bytes" where
  "xor_pad p key = map (\<lambda>c. char_of (xor (of_char c) p)) key"

text \<open>Blocks of 64 bytes; a longer key is hashed first.\<close>

definition hmac_sha256 :: "env \<Rightarrow> bytes \<Rightarrow> bytes \<Rightarrow> bytes" where
  "hmac_sha256 E key msg =
     (let k0 = (if length key > 64 then e_sha256 E key else key);
          k = k0 @ replicate (64 - length k0) (CHR 0x00)
      in e_sha256 E (xor_pad 0x5c k @ e_sha256 E (xor_pad 0x36 k @ msg)))"

definition hex_string :: "bytes \<Rightarrow> string" where
  "hex_string s = concat (map (\<lambda>c. hex_digits 2 (of_char c)) s)"

definition hex_sha256 :: "env \<Rightarrow> bytes \<Rightarrow> string" where
  "hex_sha256 E s = hex_string (e_sha256 E s)"

definition derive_signing_key :: "env \<Rightarrow> string \<Rightarrow> string \<Rightarrow> string \<Rightarrow> bytes" where
  "derive_signing_key E secret date region =
     (let kdate = hmac_sha256 E (''AWS4'' @ secret) date;
          kregion = hmac_sha256 E kdate region;
          kservice = hmac_sha256 E kregion ''s3''
      in hmac_sha256 E kservice ''aws4_request'')"

section \<open>The signature\<close>

definition signing_algorithm :: string where
  "signing_algorithm = ''AWS4-HMAC-SHA256''"

definition unsigned_payload :: string where
  "unsigned_payload = ''UNSIGNED-PAYLOAD''"

definition credential_scope :: "time \<Rightarrow> string \<Rightarrow> string" where
  "credential_scope now region = date_stamp now @ ''/'' @ region @ ''/s3/aws4_request''"

definition canonical_query :: "(string \<times> string) list \<Rightarrow> string" where
  "canonical_query ps =
     go_join (map (\<lambda>(k, v). encode_query_value k @ ''='' @ encode_query_value v) (sort_key fst ps)) ''&''"

definition canonical_request :: "string \<Rightarrow> string \<Rightarrow> string \<Rightarrow> string \<Rightarrow> string" where
  "canonical_request meth host uri query =
     go_join [meth, uri, query, ''host:'' @ host @ [CHR 0x0A], ''host'', unsigned_payload] [CHR 0x0A]"

definition presigned_signature ::
  "env \<Rightarrow> string \<Rightarrow> string \<Rightarrow> string \<Rightarrow> time \<Rightarrow> string \<Rightarrow> string \<Rightarrow> string \<Rightarrow> string \<Rightarrow> string" where
  "presigned_signature E access secret region now meth host uri query =
     (let string_to_sign = go_join [signing_algorithm, time_stamp now, credential_scope now region,
            hex_sha256 E (canonical_request meth host uri query)] [CHR 0x0A]
      in hex_string (hmac_sha256 E (derive_signing_key E secret (date_stamp now) region) string_to_sign))"

definition canonical_uri :: "string \<Rightarrow> string \<Rightarrow> string" where
  "canonical_uri bucket key = ''/'' @ encode_path bucket @ ''/'' @ encode_path key"

text \<open>The expiry in whole seconds; the code has it as a duration.\<close>

definition presign_query :: "string \<Rightarrow> string \<Rightarrow> time \<Rightarrow> time \<Rightarrow> string" where
  "presign_query access region now expiry = canonical_query
     [(''X-Amz-Algorithm'', signing_algorithm),
      (''X-Amz-Credential'', access @ ''/'' @ credential_scope now region),
      (''X-Amz-Date'', time_stamp now),
      (''X-Amz-Expires'', int_string (expiry div second)),
      (''X-Amz-SignedHeaders'', ''host'')]"

definition presign_put_url_with_region ::
  "env \<Rightarrow> (url \<Rightarrow> string \<Rightarrow> string \<Rightarrow> string) \<Rightarrow> string \<Rightarrow> string \<Rightarrow> string \<Rightarrow> string \<Rightarrow> string \<Rightarrow> string \<Rightarrow>
     time \<Rightarrow> time \<Rightarrow> error + string" where
  "presign_put_url_with_region E render endpoint bucket key access secret region now expiry =
     (case e_url E endpoint of
        None \<Rightarrow> Inl (ErrText ''media: bad endpoint'')
      | Some ep \<Rightarrow>
          if expiry \<le> 0 then Inl (ErrText ''media: presign expiry must be positive'')
          else if u_host ep = [] then Inl (ErrText ''media: endpoint has no host'')
          else let uri = canonical_uri bucket key;
                   query = presign_query access region now expiry;
                   sig = presigned_signature E access secret region now ''PUT'' (u_host ep) uri query
               in Inr (render ep uri (query @ ''&X-Amz-Signature='' @ encode_query_value sig)))"

definition presign_put_url ::
  "env \<Rightarrow> (url \<Rightarrow> string \<Rightarrow> string \<Rightarrow> string) \<Rightarrow> string \<Rightarrow> string \<Rightarrow> string \<Rightarrow> string \<Rightarrow> string \<Rightarrow> time \<Rightarrow> time \<Rightarrow>
     error + string" where
  "presign_put_url E render endpoint bucket key access secret now expiry =
     presign_put_url_with_region E render endpoint bucket key access secret ''auto'' now expiry"

section \<open>What the encodings keep\<close>

lemma byte_inject: "of_char c div 16 = (of_char d div 16 :: nat) \<Longrightarrow> of_char c mod 16 = (of_char d mod 16 :: nat) \<Longrightarrow> c = d"
  by (metis div_mult_mod_eq of_char_eq_iff)

lemma hextab_inject: "i < 16 \<Longrightarrow> j < 16 \<Longrightarrow> hextab ! i = hextab ! j \<longleftrightarrow> i = j"
  by (rule nth_eq_iff_index_eq) (simp_all add: hextab_def)

text \<open>Encoded bytes form a prefix code.\<close>

lemma encode_byte_cancel: "encode_byte c @ r = encode_byte d @ s \<longleftrightarrow> c = d \<and> r = s"
proof -
  have "of_char c div 16 < (16 :: nat)" "of_char d div 16 < (16 :: nat)" by (simp_all add: less_mult_imp_div_less)
  moreover have "\<not> is_unreserved CHR ''%''" by (simp add: is_unreserved_def is_upper_def is_lower_def is_digit_def)
  ultimately show ?thesis
    by (auto simp: encode_byte_def hextab_inject dest: byte_inject)
qed

lemma encode_query_inject [simp]: "encode_query_value s = encode_query_value r \<longleftrightarrow> s = r"
proof (induction s arbitrary: r)
  case Nil
  then show ?case by (cases r) (auto simp: encode_query_value_def encode_byte_def)
next
  case (Cons c s)
  have "encode_query_value (c # s) = encode_byte c @ encode_query_value s" for c s
    by (simp add: encode_query_value_def)
  moreover have "encode_byte c @ x \<noteq> []" for x by (simp add: encode_byte_def)
  ultimately show ?case using Cons by (cases r) (auto simp: encode_byte_cancel encode_query_value_def)
qed

lemma hextab_unreserved: "i < 16 \<Longrightarrow> is_unreserved (hextab ! i)"
proof -
  have "list_all is_unreserved hextab"
    by (simp add: hextab_def is_unreserved_def is_upper_def is_lower_def is_digit_def)
  then show "i < 16 \<Longrightarrow> is_unreserved (hextab ! i)" by (simp add: list_all_length hextab_def)
qed

lemma encode_query_chars: "c \<in> set (encode_query_value s) \<Longrightarrow> is_unreserved c \<or> c = CHR ''%''"
proof -
  have "is_unreserved c \<or> c = CHR ''%''" if "c \<in> set (encode_byte b)" for b
    using that hextab_unreserved [of "of_char b div 16"] hextab_unreserved [of "of_char b mod 16"]
    by (auto simp: encode_byte_def less_mult_imp_div_less split: if_splits)
  then show "c \<in> set (encode_query_value s) \<Longrightarrow> is_unreserved c \<or> c = CHR ''%''"
    by (auto simp: encode_query_value_def)
qed

lemma encode_no_sep [simp]:
  "CHR ''/'' \<notin> set (encode_query_value s)" "CHR ''&'' \<notin> set (encode_query_value s)"
  "CHR 0x0A \<notin> set (encode_query_value s)" "CHR ''='' \<notin> set (encode_query_value s)"
  using encode_query_chars [of "CHR ''/''" s] encode_query_chars [of "CHR ''&''" s]
    encode_query_chars [of "CHR 0x0A" s] encode_query_chars [of "CHR ''=''" s]
  by (auto simp: is_unreserved_def is_upper_def is_lower_def is_digit_def)

lemma split_encode_path: "go_split (encode_path s) CHR ''/'' = map encode_query_value (go_split s CHR ''/'')"
  unfolding encode_path_def by (rule go_split_join) auto

lemma encode_path_inject [simp]: "encode_path s = encode_path r \<longleftrightarrow> s = r"
proof
  assume "encode_path s = encode_path r"
  then have "map encode_query_value (go_split s CHR ''/'') = map encode_query_value (go_split r CHR ''/'')"
    by (metis split_encode_path)
  moreover have "inj encode_query_value" by (rule injI) simp
  ultimately have "go_split s CHR ''/'' = go_split r CHR ''/''" by (rule map_injective)
  then show "s = r" by (metis join_go_split)
qed simp

lemma join_chars: "c \<in> set (go_join ps sep) \<Longrightarrow> c \<in> set sep \<or> (\<exists>p \<in> set ps. c \<in> set p)"
  by (induction ps sep rule: go_join.induct) auto

lemma encode_path_no_newline: "CHR 0x0A \<notin> set (encode_path s)"
  using join_chars [of "CHR 0x0A" "map encode_query_value (go_split s CHR ''/'')" "''/''"]
  by (auto simp: encode_path_def)

lemma canonical_uri_inject:
  assumes "CHR ''/'' \<notin> set bucket" "CHR ''/'' \<notin> set bucket'"
  shows "canonical_uri bucket key = canonical_uri bucket' key' \<longleftrightarrow> bucket = bucket' \<and> key = key'"
proof -
  have "encode_path b = encode_query_value b" if "CHR ''/'' \<notin> set b" for b
    using that by (simp add: encode_path_def go_split_none)
  then show ?thesis
    using assms by (simp add: canonical_uri_def sep_cancel)
qed

section \<open>What a signature covers\<close>

lemma encode_header_names:
  "encode_query_value ''X-Amz-Algorithm'' = ''X-Amz-Algorithm''" "encode_query_value ''X-Amz-Credential'' = ''X-Amz-Credential''"
  "encode_query_value ''X-Amz-Date'' = ''X-Amz-Date''" "encode_query_value ''X-Amz-Expires'' = ''X-Amz-Expires''"
  "encode_query_value ''X-Amz-SignedHeaders'' = ''X-Amz-SignedHeaders''"
  by (simp_all add: encode_query_value_def encode_byte_def is_unreserved_def is_upper_def is_lower_def is_digit_def)

lemma presign_query_text:
  "presign_query access region now expiry =
     ''X-Amz-Algorithm='' @ encode_query_value signing_algorithm @ CHR ''&'' # ''X-Amz-Credential='' @
     encode_query_value (access @ ''/'' @ credential_scope now region) @ CHR ''&'' # ''X-Amz-Date='' @
     encode_query_value (time_stamp now) @ CHR ''&'' # ''X-Amz-Expires='' @
     encode_query_value (int_string (expiry div second)) @ CHR ''&'' # ''X-Amz-SignedHeaders='' @ encode_query_value ''host''"
proof -
  let ?ps = "[(''X-Amz-Algorithm'', signing_algorithm), (''X-Amz-Credential'', access @ ''/'' @ credential_scope now region),
      (''X-Amz-Date'', time_stamp now), (''X-Amz-Expires'', int_string (expiry div second)), (''X-Amz-SignedHeaders'', ''host'')]"
  have "sort_key fst ?ps = ?ps"
    by (rule sort_key_id_if_sorted) (simp add: less_eq_list_code less_list_code)
  then show ?thesis
    by (simp only: presign_query_def canonical_query_def list.map prod.case encode_header_names go_join.simps) simp
qed

lemma int_string_inject [simp]: "int_string m = int_string n \<longleftrightarrow> m = n"
proof -
  have "itoa k \<noteq> CHR ''-'' # s" for k s using itoa_hd [of k] by auto
  then show ?thesis by (auto simp: int_string_def) (metis)+
qed

lemma presign_query_inject:
  assumes "presign_query access region now expiry = presign_query access' region now' expiry'"
  shows "access = access' \<and> time_stamp now = time_stamp now' \<and> expiry div second = expiry' div second"
proof -
  from assms have cred: "access @ ''/'' @ credential_scope now region = access' @ ''/'' @ credential_scope now' region"
    and time: "time_stamp now = time_stamp now'" and "expiry div second = expiry' div second"
    unfolding presign_query_text by (simp_all add: sep_cancel)
  moreover from time have "date_stamp now = date_stamp now'" by (rule time_stamp_date_inject)
  then have "access = access'" using cred by (simp add: credential_scope_def)
  ultimately show ?thesis by blast
qed

lemma zero_padded_chars: "c \<in> set (zero_padded w n) \<Longrightarrow> is_digit c"
  using itoa_digits by (auto simp: zero_padded_def Let_def is_digit_def)

lemma presign_query_no_newline: "CHR 0x0A \<notin> set (presign_query access region now expiry)"
  unfolding presign_query_text by simp

lemma canonical_request_inject:
  assumes "canonical_request m host uri query = canonical_request m host' uri' query'"
    and "CHR 0x0A \<notin> set m" "CHR 0x0A \<notin> set uri" "CHR 0x0A \<notin> set uri'" "CHR 0x0A \<notin> set query" "CHR 0x0A \<notin> set query'"
    and "CHR 0x0A \<notin> set host" "CHR 0x0A \<notin> set host'"
  shows "host = host' \<and> uri = uri' \<and> query = query'"
proof -
  have "m @ CHR 0x0A # uri @ CHR 0x0A # query @ CHR 0x0A # (''host:'' @ host) @ CHR 0x0A # r =
      m @ CHR 0x0A # uri' @ CHR 0x0A # query' @ CHR 0x0A # (''host:'' @ host') @ CHR 0x0A # r"
    if "r = CHR 0x0A # ''host'' @ CHR 0x0A # unsigned_payload" for r
    using assms(1) that by (simp add: canonical_request_def)
  then show ?thesis using assms(2-) by (simp add: sep_cancel del: append_same_eq append.simps(2))
qed

section \<open>Properties\<close>

text \<open>
  C31. A presigned upload is good for one thing: of two requests presigned with one region the texts that
  are hashed and signed agree only if they name the same host, bucket, object key, access key, lifetime
  and second, so a signature cannot be reused for another object or a longer time.
\<close>

theorem presigned_request_binds:
  assumes "canonical_request ''PUT'' host (canonical_uri bucket key) (presign_query access region now expiry) =
      canonical_request ''PUT'' host' (canonical_uri bucket' key') (presign_query access' region now' expiry')"
    and "CHR 0x0A \<notin> set host" "CHR 0x0A \<notin> set host'" "CHR ''/'' \<notin> set bucket" "CHR ''/'' \<notin> set bucket'"
  shows "host = host' \<and> bucket = bucket' \<and> key = key' \<and> access = access' \<and>
    time_stamp now = time_stamp now' \<and> expiry div second = expiry' div second"
proof -
  have "CHR 0x0A \<notin> set (canonical_uri b k)" for b k
    by (simp add: canonical_uri_def encode_path_no_newline)
  then have "host = host' \<and> canonical_uri bucket key = canonical_uri bucket' key' \<and>
      presign_query access region now expiry = presign_query access' region now' expiry'"
    by (intro canonical_request_inject [OF assms(1)]) (simp_all add: assms presign_query_no_newline)
  then show ?thesis
    using canonical_uri_inject [OF assms(4,5)] presign_query_inject by blast
qed

lemma presigned_request_binds_witness:
  "time_stamp 5 = time_stamp 7 \<and> ''media'' = (''media'' :: string)"
proof -
  have "presign_query ''AK'' ''auto'' 5 second = presign_query ''AK'' ''auto'' 7 second"
    by (simp add: presign_query_def credential_scope_def time_stamp_def date_stamp_def day_of_def second_of_day_def)
  then have "canonical_request ''PUT'' ''r2.example'' (canonical_uri ''media'' ''a/b'') (presign_query ''AK'' ''auto'' 5 second) =
      canonical_request ''PUT'' ''r2.example'' (canonical_uri ''media'' ''a/b'') (presign_query ''AK'' ''auto'' 7 second)"
    by simp
  from presigned_request_binds [OF this] show ?thesis by simp
qed

end
