(* ===== verification/Media.thy ===== *)
theory Media
  imports Jobs Authz Signing "HOL-Library.AList"
begin

text \<open>
  internal/media: presigned uploads, their confirmation, deletion, and the job that derives the
  variants. The object store, the image processor and the decoding of image headers are arguments.
\<close>

section \<open>Configuration and limits\<close>

definition max_image_size :: int where
  "max_image_size = 15 * 2 ^ 20"

definition default_expiry :: time where
  "default_expiry = 15 * 60 * second"

definition kind_variants :: string where
  "kind_variants = ''variants''"

definition allowed_mimes :: "string set" where
  "allowed_mimes = {''image/jpeg'', ''image/png'', ''image/webp'', ''image/gif'', ''image/avif''}"

definition variant_sizes :: "nat list" where
  "variant_sizes = [480, 800, 1200]"

record media_config =
  mc_endpoint :: string
  mc_bucket :: string
  mc_access :: string
  mc_secret :: string
  mc_expiry :: time
  mc_cdn :: string

definition media_new :: "media_config \<Rightarrow> media_config" where
  "media_new c = (if mc_expiry c = 0 then c\<lparr>mc_expiry := default_expiry\<rparr> else c)"

section \<open>Presign\<close>

definition ext_from_name :: "env \<Rightarrow> string \<Rightarrow> string" where
  "ext_from_name E name =
     (let ext = lower_of E (path_ext name)
      in if ext = ''.jpg'' \<or> ext = ''.jpeg'' then ''.jpg''
         else if ext \<in> {''.png'', ''.webp'', ''.gif'', ''.avif''} then ext else [])"

record presigned =
  ps_url :: string
  ps_key :: string
  ps_expires :: time

definition upload_key :: "uuid \<Rightarrow> uuid \<Rightarrow> uuid \<Rightarrow> string \<Rightarrow> string" where
  "upload_key tid pid oid ext =
     uuid_string tid @ ''/posts/'' @ uuid_string pid @ ''/'' @ uuid_string oid @ ext"

definition presign ::
  "env \<Rightarrow> (url \<Rightarrow> string \<Rightarrow> string \<Rightarrow> string) \<Rightarrow> media_config \<Rightarrow> uuid \<Rightarrow> uuid \<Rightarrow> uuid \<Rightarrow> string \<Rightarrow> time \<Rightarrow>
     error + presigned" where
  "presign E render M oid tid pid filename now =
     (let ext = ext_from_name E filename
      in if ext = [] then Inl (ErrText ''media: filename has no allowed extension'')
         else let key = upload_key tid pid oid ext
              in case presign_put_url E render (mc_endpoint M) (mc_bucket M) key (mc_access M) (mc_secret M) now (mc_expiry M) of
                   Inl e \<Rightarrow> Inl (ErrWrap ''media: presign'' e)
                 | Inr u \<Rightarrow> Inr \<lparr>ps_url = u, ps_key = key, ps_expires = now + mc_expiry M\<rparr>)"

section \<open>Confirm and delete\<close>

text \<open>\<open>iid\<close> and \<open>jid\<close>: the ids minted for the image and, by the database, for the job.\<close>

definition confirm ::
  "media_config \<Rightarrow> uuid \<Rightarrow> uuid \<Rightarrow> tx \<Rightarrow> uuid \<Rightarrow> uuid \<Rightarrow> string \<Rightarrow> int \<Rightarrow> string \<Rightarrow> bool txn" where
  "confirm M iid jid q tid pid key sz mime =
     (if mime \<notin> allowed_mimes then fail ErrInvalidMime
      else if sz > max_image_size then fail ErrPayloadTooLarge
      else and_then
        (wrap_error ''media: confirm'' (insert_post_image_on_conflict q iid tid pid key (mc_cdn M @ ''/'' @ key) mime sz))
        (\<lambda>n. if n = 0 then ret False
             else and_then
               (wrap_error ''media: confirm enqueue'' (enqueue q jid kind_variants key (JobPayload tid (VariantData tid iid key))))
               (\<lambda>_. ret True)))"

definition media_delete :: "env \<Rightarrow> actor \<Rightarrow> uuid \<Rightarrow> unit act" where
  "media_delete E a iid = scoped_rw E (scope_from_actor a) (\<lambda>q.
     and_then (on_error ErrNoRows ErrImageNotFound (get_post_image_by_id q iid)) (\<lambda>im.
       and_then
         (if \<not> can a CapEditAnyPost
          then and_then (get_post_by_id q (pi_post im)) (\<lambda>p.
                 if \<not> owns_post a (p_author p) then fail ErrMediaForbidden else ret ())
          else ret ())
         (\<lambda>_. delete_post_image q iid)))"

section \<open>Variants\<close>

record variant_result =
  vr_label :: string
  vr_key :: string
  vr_data :: bytes
  vr_width :: int
  vr_height :: int

record processed =
  pr_width :: int
  pr_height :: int
  pr_variants :: "variant_result list"

text \<open>The processor of builds without libvips: keys and labels, no data.\<close>

definition noop_process :: "env \<Rightarrow> (bytes \<Rightarrow> int \<times> int) \<Rightarrow> string \<Rightarrow> bytes \<Rightarrow> string \<Rightarrow> processed" where
  "noop_process E decode_size ext original key =
     (let (w, h) = decode_size original;
          base = trim_suffix key (ext_from_name E key)
      in \<lparr>pr_width = w, pr_height = h,
          pr_variants = map (\<lambda>wd. \<lparr>vr_label = itoa wd, vr_key = base @ ''-'' @ itoa wd @ ''.webp'', vr_data = [],
            vr_width = w, vr_height = h\<rparr>) variant_sizes\<rparr>)"

definition variant_entry :: "string \<Rightarrow> string \<Rightarrow> variant_result \<Rightarrow> variant" where
  "variant_entry cdn original v =
     (if vr_data v \<noteq> []
      then \<lparr>v_url = cdn @ ''/'' @ vr_key v, v_width = vr_width v, v_height = vr_height v, v_processing = []\<rparr>
      else \<lparr>v_url = cdn @ ''/'' @ original, v_width = vr_width v, v_height = vr_height v, v_processing = ''pending''\<rparr>)"

definition build_variants :: "processed \<Rightarrow> string \<Rightarrow> string \<Rightarrow> (string \<times> variant) list" where
  "build_variants p cdn original =
     foldl (\<lambda>vj v. AList.update (vr_label v) (variant_entry cdn original v) vj) [] (pr_variants p)"

definition write_variants :: "env \<Rightarrow> media_config \<Rightarrow> uuid \<Rightarrow> uuid \<Rightarrow> processed \<Rightarrow> string \<Rightarrow> unit act" where
  "write_variants E M tid iid p original =
     scoped_rw E \<lparr>sc_tenant = tid, sc_platform = False\<rparr> (\<lambda>q.
       update_post_image_variants q iid (pr_width p) (pr_height p) (build_variants p (mc_cdn M) original))"

text \<open>The variants with data are put one after the other; the first failure ends the job.\<close>

fun put_variants :: "(string \<Rightarrow> bytes \<Rightarrow> error option) \<Rightarrow> variant_result list \<Rightarrow> error option" where
  "put_variants put [] = None"
| "put_variants put (v # vs) =
     (if vr_data v = [] then put_variants put vs
      else case put (vr_key v) (vr_data v) of
        Some e \<Rightarrow> Some (ErrWrap (''media: variants put '' @ vr_key v) e)
      | None \<Rightarrow> put_variants put vs)"

text \<open>
  \<open>json.Unmarshal\<close> of a job's data into \<open>VariantPayload\<close>: members it does not know are skipped and
  absent ones are zero. \<open>other\<close> decodes data that no package of the repository writes.
\<close>

definition variant_payload :: "(json \<Rightarrow> (uuid \<times> uuid \<times> string) option) \<Rightarrow> job_data \<Rightarrow> (uuid \<times> uuid \<times> string) option" where
  "variant_payload other dat =
     (case dat of
        VariantData vt iid key \<Rightarrow> Some (vt, iid, key)
      | PurgeData t p v paths \<Rightarrow> Some (t, nil_uuid, [])
      | ImportData iid fmt key gdoc \<Rightarrow> Some (nil_uuid, nil_uuid, [])
      | OtherData j \<Rightarrow> other j)"

text \<open>The handler of the variants job, with what the object store and the processor answer.\<close>

definition variants_job ::
  "env \<Rightarrow> media_config \<Rightarrow> (json \<Rightarrow> (uuid \<times> uuid \<times> string) option) \<Rightarrow> (string \<Rightarrow> error + bytes) \<Rightarrow>
     (string \<Rightarrow> bytes \<Rightarrow> error option) \<Rightarrow> (string \<Rightarrow> bytes \<Rightarrow> string \<Rightarrow> error + processed) \<Rightarrow> uuid \<Rightarrow> job_data \<Rightarrow> unit act" where
  "variants_job E M other get put process tid dat =
     (case variant_payload other dat of
        None \<Rightarrow> fail (ErrWrap ''media: variants payload'' (ErrText ''json''))
      | Some (vt, iid, vkey) \<Rightarrow>
          (\<lambda>d. case scoped E \<lparr>sc_tenant = tid, sc_platform = False\<rparr> (\<lambda>q. get_post_image_by_id q iid) d of
             (Inl e, d) \<Rightarrow> if errors_is e ErrNoRows then (Inr (), d) else (Inl (ErrWrap ''media: variants load row'' e), d)
           | (Inr im, d) \<Rightarrow>
               (case get (pi_key im) of
                  Inl e \<Rightarrow> (Inl (ErrWrap ''media: variants get original'' e), d)
                | Inr orig \<Rightarrow>
                    (case process (ext_from_name E (pi_key im)) orig (pi_key im) of
                       Inl e \<Rightarrow> (Inl (ErrWrap ''media: variants process'' e), d)
                     | Inr p \<Rightarrow>
                         (case put_variants put (pr_variants p) of
                            Some e \<Rightarrow> (Inl e, d)
                          | None \<Rightarrow> write_variants E M tid iid p (pi_key im) d)))))"

text \<open>The transaction of the confirm handler.\<close>

definition confirm_act ::
  "env \<Rightarrow> media_config \<Rightarrow> uuid \<Rightarrow> uuid \<Rightarrow> scope \<Rightarrow> uuid \<Rightarrow> string \<Rightarrow> int \<Rightarrow> string \<Rightarrow> bool act" where
  "confirm_act E M iid jid sc pid key sz mime =
     scoped_rw E sc (\<lambda>q. confirm M iid jid q (sc_tenant sc) pid key sz mime)"

section \<open>What the operations do\<close>

lemma runs_enqueue_new:
  "runs (enqueue q jid kind key payload) d i d' \<longleftrightarrow>
     \<not> tx_ro q \<and> \<not> (\<exists>j \<in> set (jobs d). same_job kind (nullif_empty key) j) \<and> \<not> (\<exists>j \<in> set (jobs d). j_id j = jid) \<and>
     i = jid \<and> d' = d\<lparr>jobs := jobs d @ [new_job q jid kind (nullif_empty key) payload]\<rparr>"
  by (auto simp: enqueue_def txn_run split: if_splits)

lemma runs_confirm:
  "runs (confirm M iid jid q tid pid key sz mime) d b d' \<longleftrightarrow>
     mime \<in> allowed_mimes \<and> sz \<le> max_image_size \<and> \<not> tx_ro q \<and> visible q tid \<and>
     (if \<exists>x \<in> set (post_images d). pi_tenant x = tid \<and> pi_key x = key then \<not> b \<and> d' = d
      else b \<and> (\<forall>x \<in> set (post_images d). pi_id x \<noteq> iid) \<and> has_tenant d tid \<and> has_post d tid pid \<and>
        (\<forall>j \<in> set (jobs d). \<not> same_job kind_variants (nullif_empty key) j \<and> j_id j \<noteq> jid) \<and>
        d' = d\<lparr>post_images := post_images d @ [image_row q iid tid pid key (mc_cdn M @ ''/'' @ key) 0 0 sz mime],
               jobs := jobs d @ [new_job q jid kind_variants (nullif_empty key)
                 (JobPayload tid (VariantData tid iid key))]\<rparr>)"
proof (cases "\<exists>x \<in> set (post_images d). pi_tenant x = tid \<and> pi_key x = key")
  case True
  then show ?thesis
    unfolding confirm_def insert_post_image_on_conflict_def
    by (auto simp: txn_run)
next
  case False
  then show ?thesis
    unfolding confirm_def insert_post_image_on_conflict_def enqueue_def
    by (auto simp: txn_run split: if_splits)
qed

lemma media_delete_effect:
  assumes "media_delete E a iid d = (Inr (), d')"
  obtains im where "find (image_at (tx_of E False (scope_from_actor a)) iid) (post_images d) = Some im"
    "d' = d\<lparr>post_images := del_rows (image_at (tx_of E False (scope_from_actor a)) iid) (post_images d)\<rparr>"
    "can a CapEditAnyPost \<or> (\<exists>p \<in> set (posts d). p_id p = pi_post im \<and> owns_post a (p_author p))"
proof -
  let ?q = "tx_of E False (scope_from_actor a)"
  from assms obtain im where im: "find (image_at ?q iid) (post_images d) = Some im"
    and r: "runs (and_then (if \<not> can a CapEditAnyPost
          then and_then (get_post_by_id ?q (pi_post im)) (\<lambda>p. if \<not> owns_post a (p_author p) then fail ErrMediaForbidden else ret ())
          else ret ()) (\<lambda>_. delete_post_image ?q iid)) d () d'"
    unfolding media_delete_def scoped_rw_runs get_post_image_by_id_def by (auto simp: txn_run)
  have "d' = d\<lparr>post_images := del_rows (image_at ?q iid) (post_images d)\<rparr> \<and>
      (can a CapEditAnyPost \<or> (\<exists>p \<in> set (posts d). p_id p = pi_post im \<and> owns_post a (p_author p)))"
    using r unfolding get_post_by_id_def delete_post_image_def
    by (auto simp: txn_run post_at_def dest!: find_SomeD split: if_splits)
  then show ?thesis using that im by blast
qed

text \<open>The worker changes one image row of the job's tenant, or nothing.\<close>

lemma variants_job_effect:
  assumes "variants_job E M other get put process tid dat d = (r, d')"
  shows "d' = d \<or> (\<exists>vt iid vkey im orig p. variant_payload other dat = Some (vt, iid, vkey) \<and>
    find (image_at (tx_of E True \<lparr>sc_tenant = tid, sc_platform = False\<rparr>) iid) (post_images d) = Some im \<and>
    get (pi_key im) = Inr orig \<and> process (ext_from_name E (pi_key im)) orig (pi_key im) = Inr p \<and>
    put_variants put (pr_variants p) = None \<and> r = Inr () \<and>
    d' = d\<lparr>post_images := upd_rows (image_at (tx_of E False \<lparr>sc_tenant = tid, sc_platform = False\<rparr>) iid)
      (\<lambda>im'. im'\<lparr>pi_width := pr_width p, pi_height := pr_height p,
         pi_variants := build_variants p (mc_cdn M) (pi_key im)\<rparr>) (post_images d)\<rparr>)"
proof (cases "variant_payload other dat")
  case None
  then show ?thesis using assms by (simp add: variants_job_def)
next
  case (Some v)
  obtain vt iid vkey where v: "v = (vt, iid, vkey)" by (cases v)
  let ?q = "tx_of E True \<lparr>sc_tenant = tid, sc_platform = False\<rparr>"
  have "scoped E \<lparr>sc_tenant = tid, sc_platform = False\<rparr> (\<lambda>q. get_post_image_by_id q iid) d =
      (case find (image_at ?q iid) (post_images d) of None \<Rightarrow> (Inl ErrNoRows, d) | Some im \<Rightarrow> (Inr im, d))"
    by (simp add: scoped_def run_tx_def get_post_image_by_id_def and_then_def split: option.split)
  then show ?thesis
    using assms Some v
    by (auto simp: variants_job_def write_variants_def scoped_rw_def run_tx_def update_post_image_variants_def
        split: option.splits sum.splits)
qed

section \<open>Properties\<close>


text \<open>
  An upload whose image is gone cannot be attached again: when a variants job with the key was ever
  enqueued and the tenant has no image of that key, every confirmation of the key fails with an error and
  attaches nothing, because the dedupe key of the job is taken for ever.
\<close>

theorem confirm_after_delete_fails:
  assumes "j \<in> set (jobs d)" "j_kind j = kind_variants" "j_dedupe j = Some key" "key \<noteq> []"
    and "\<forall>x \<in> set (post_images d). \<not> (pi_tenant x = sc_tenant sc \<and> pi_key x = key)"
  shows "\<exists>e. confirm_act E M iid jid sc pid key sz mime d = (Inl e, d)"
proof -
  have "\<not> runs (confirm M iid jid (tx_of E False sc) (sc_tenant sc) pid key sz mime) d b d'" for b d'
    using assms unfolding runs_confirm by (auto simp: same_job_def nullif_empty_def)
  then have no: "confirm_act E M iid jid sc pid key sz mime d \<noteq> (Inr b, d')" for b d'
    by (simp add: confirm_act_def scoped_rw_runs)
  then show ?thesis
    by (cases "confirm_act E M iid jid sc pid key sz mime d"; cases "fst (confirm_act E M iid jid sc pid key sz mime d)")
      (auto simp: confirm_act_def dest: scoped_rw_InlD)
qed

text \<open>
  Images are deleted by right only: a successful delete removes exactly the image with that id, which
  is in the actor's tenant unless the actor is a platform operator outside any, and which a plain author
  can delete only from a post of their own.
\<close>

theorem media_delete_confined:
  assumes "media_delete E a iid d = (Inr (), d')" "distinct (map pi_id (post_images d))"
  shows "\<exists>im \<in> set (post_images d). pi_id im = iid \<and>
    d' = d\<lparr>post_images := filter (\<lambda>x. x \<noteq> im) (post_images d)\<rparr> \<and>
    (a_tenant a \<noteq> None \<or> \<not> a_platform a \<longrightarrow> a_tenant a = Some (pi_tenant im)) \<and>
    (plain_author a \<longrightarrow> (\<exists>p \<in> set (posts d). p_id p = pi_post im \<and> p_author p = a_user a))"
proof -
  let ?q = "tx_of E False (scope_from_actor a)"
  obtain im where im: "find (image_at ?q iid) (post_images d) = Some im"
    "d' = d\<lparr>post_images := del_rows (image_at ?q iid) (post_images d)\<rparr>"
    "can a CapEditAnyPost \<or> (\<exists>p \<in> set (posts d). p_id p = pi_post im \<and> owns_post a (p_author p))"
    using media_delete_effect [OF assms(1)] by blast
  have at: "im \<in> set (post_images d)" "image_at ?q iid im" using find_SomeD [OF im(1)] by auto
  then have "image_at ?q iid x \<longleftrightarrow> x = im" if "x \<in> set (post_images d)" for x
    using key_unique [OF assms(2) that at(1)] by (auto simp: image_at_def)
  then have "del_rows (image_at ?q iid) (post_images d) = filter (\<lambda>x. x \<noteq> im) (post_images d)"
    unfolding del_rows_def by (intro filter_cong) auto
  moreover have "a_tenant a = Some (pi_tenant im)" if "a_tenant a \<noteq> None \<or> \<not> a_platform a"
    using at(2) that by (auto simp: image_at_def visible_scope scope_from_actor_def split: option.splits)
  moreover have "\<exists>p \<in> set (posts d). p_id p = pi_post im \<and> p_author p = a_user a" if "plain_author a"
    using im(3) that plain_author_caps [OF that, of CapEditAnyPost] by (auto simp: owns_post_def)
  ultimately show ?thesis using at im(2) by (auto simp: image_at_def)
qed

section \<open>Uploads to one post\<close>

definition sample_media :: media_config where
  "sample_media = media_new \<lparr>mc_endpoint = ''https://r2.example.com'', mc_bucket = ''b'', mc_access = ''a'',
     mc_secret = ''s'', mc_expiry = 0, mc_cdn = ''https://cdn.example.com''\<rparr>"

definition sample_gallery :: db where
  "sample_gallery = empty_db\<lparr>
     tenants := [\<lparr>t_id = 1, t_slug = ''acme'', t_name = ''Acme'', t_settings = JObj [], t_version = 4, t_created = 0, t_updated = 0\<rparr>],
     posts := [\<lparr>p_id = 3, p_tenant = 1, p_author = 2, p_slug = ''hello'', p_title = ''Hello'', p_excerpt = [],
       p_markdown = ''hi'', p_html = ''hi'', p_status = PostDraft, p_published = None, p_metadata = None,
       p_created = 0, p_updated = 0\<rparr>]\<rparr>"

abbreviation sample_scope_one :: scope where
  "sample_scope_one \<equiv> \<lparr>sc_tenant = 1, sc_platform = False\<rparr>"

definition sample_uploaded :: db where
  "sample_uploaded = snd (confirm_act sample_env sample_media 20 21 sample_scope_one 3 ''k.png'' 1000 ''image/png'' sample_gallery)"

definition sample_removed :: db where
  "sample_removed = sample_uploaded\<lparr>post_images := []\<rparr>"

definition sample_owner :: actor where
  "sample_owner = \<lparr>a_user = 2, a_tenant = Some 1, a_role = RoleAuthor, a_platform = False\<rparr>"

lemma sample_confirm:
  "confirm_act sample_env sample_media 20 21 sample_scope_one 3 ''k.png'' 1000 ''image/png'' sample_gallery
     = (Inr True, sample_uploaded)"
proof -
  have "fst (confirm_act sample_env sample_media 20 21 sample_scope_one 3 ''k.png'' 1000 ''image/png'' sample_gallery)
      = Inr True"
    by code_simp
  then show ?thesis unfolding sample_uploaded_def by (metis prod.collapse)
qed


lemma sample_images: "map pi_id (post_images sample_uploaded) = [20]" "post_images sample_removed = []"
  "map (\<lambda>j. (j_kind j, j_dedupe j)) (jobs sample_removed) = [(kind_variants, Some ''k.png'')]"
  by code_simp+

theorem confirm_after_delete_fails_witness:
  "\<exists>e. confirm_act sample_env sample_media 24 25 sample_scope_one 3 ''k.png'' 1000 ''image/png'' sample_removed
     = (Inl e, sample_removed)"
proof -
  obtain j where "j \<in> set (jobs sample_removed)" "j_kind j = kind_variants" "j_dedupe j = Some ''k.png''"
    using sample_images(3) by (cases "jobs sample_removed") auto
  then show ?thesis
    by (rule confirm_after_delete_fails) (simp_all add: sample_images)
qed

theorem media_delete_confined_witness:
  "\<exists>im \<in> set (post_images sample_uploaded). pi_id im = 20 \<and> pi_tenant im = 1"
proof -
  have "fst (media_delete sample_env sample_owner 20 sample_uploaded) = Inr ()" by code_simp
  then have "media_delete sample_env sample_owner 20 sample_uploaded =
      (Inr (), snd (media_delete sample_env sample_owner 20 sample_uploaded))"
    by (metis prod.collapse)
  moreover have "distinct (map pi_id (post_images sample_uploaded))"
    unfolding sample_images(1) by simp
  ultimately show ?thesis
    using media_delete_confined by (fastforce simp: sample_owner_def)
qed

end
