(* ===== verification/Tenancy.thy ===== *)
theory Tenancy
  imports Accounts
begin

text \<open>
  internal/tenancy/resolve.go: slugs are resolved to tenants through one cache with a time to live.
  The mutex is released during the database read, so lookups interleave; the step relation below
  keeps the reads whose result is not yet stored.
\<close>

section \<open>The resolver\<close>

definition default_ttl :: time where
  "default_ttl = 30 * second"

record cache_entry =
  ce_tenant :: uuid
  ce_version :: int
  ce_expires :: time

record resolver =
  rv_ttl :: time
  rv_cache :: "string \<Rightarrow> cache_entry option"
  rv_swept :: time

text \<open>\<open>time.Time{}\<close>, the first instant of the year 1.\<close>

definition zero_time :: time where
  "zero_time = -62135596800 * second"

definition resolver_new :: "time \<Rightarrow> resolver" where
  "resolver_new ttl =
     \<lparr>rv_ttl = (if ttl \<le> 0 then default_ttl else ttl), rv_cache = (\<lambda>s. None), rv_swept = zero_time\<rparr>"

text \<open>The light sweep on access, under the lock.\<close>

definition sweep_cache :: "time \<Rightarrow> resolver \<Rightarrow> resolver" where
  "sweep_cache now rv =
     (if rv_swept rv + rv_ttl rv < now
      then rv\<lparr>rv_cache := (\<lambda>k. case rv_cache rv k of
                 None \<Rightarrow> None
               | Some v \<Rightarrow> if ce_expires v < now then None else Some v),
              rv_swept := now\<rparr>
      else rv)"

text \<open>The entry read before the sweep, when it is still good.\<close>

definition cached :: "time \<Rightarrow> string \<Rightarrow> resolver \<Rightarrow> (uuid \<times> int) option" where
  "cached now slug rv =
     (case rv_cache rv slug of
        None \<Rightarrow> None
      | Some e \<Rightarrow> if now < ce_expires e then Some (ce_tenant e, ce_version e) else None)"

definition tenant_by_slug :: "tx \<Rightarrow> string \<Rightarrow> (uuid \<times> int) txn" where
  "tenant_by_slug q slug =
     and_then (read_stmt (\<lambda>d. Inr (find (\<lambda>t. t_slug t = slug) (tenants d))))
       (\<lambda>r. scan_row (map_option (\<lambda>t. (t_id t, t_version t)) r))"

definition lookup_slug :: "env \<Rightarrow> string \<Rightarrow> db \<Rightarrow> error + uuid \<times> int" where
  "lookup_slug E slug d =
     (case fst (scoped E unscoped (\<lambda>q. tenant_by_slug q slug) d) of
        Inl e \<Rightarrow> Inl (if errors_is e ErrNoRows then ErrTenantNotFound else e)
      | Inr r \<Rightarrow> Inr r)"

definition store_entry :: "time \<Rightarrow> string \<Rightarrow> uuid \<times> int \<Rightarrow> resolver \<Rightarrow> resolver" where
  "store_entry now slug r rv =
     rv\<lparr>rv_cache := (rv_cache rv)(slug \<mapsto>
       \<lparr>ce_tenant = fst r, ce_version = snd r, ce_expires = now + rv_ttl rv\<rparr>)\<rparr>"

text \<open>
  \<open>ResolveSlug\<close> without interleaving: \<open>now\<close> is the clock under the first lock, \<open>now2\<close> under the
  second.
\<close>

definition resolve_slug ::
  "env \<Rightarrow> time \<Rightarrow> time \<Rightarrow> string \<Rightarrow> db \<Rightarrow> resolver \<Rightarrow> (error + uuid \<times> int) \<times> resolver" where
  "resolve_slug E now now2 slug d rv =
     (if \<not> valid_slug slug then (Inl ErrInvalidSlug, rv)
      else case cached now slug rv of
        Some r \<Rightarrow> (Inr r, sweep_cache now rv)
      | None \<Rightarrow>
          (case lookup_slug E slug d of
             Inl e \<Rightarrow> (Inl e, sweep_cache now rv)
           | Inr r \<Rightarrow> (Inr r, store_entry now2 slug r (sweep_cache now rv))))"

section \<open>Interleaved lookups\<close>

text \<open>
  \<open>y_reads\<close> is a ghost: every database read a lookup has made, with its time and the database it
  saw. \<open>y_pending\<close> are the reads not yet stored. A lookup takes at most \<open>latency\<close> from its read to its store; the database
  changes arbitrarily between the steps.
\<close>

type_synonym slug_read = "time \<times> string \<times> (uuid \<times> int)"

record resolver_sys =
  y_rv :: resolver
  y_db :: db
  y_now :: time
  y_pending :: "slug_read list"
  y_reads :: "(slug_read \<times> db) list"

inductive resolver_step :: "env \<Rightarrow> time \<Rightarrow> resolver_sys \<Rightarrow> resolver_sys \<Rightarrow> bool" for E latency where
  rs_tick: "y_now y \<le> t \<Longrightarrow> (\<And>r. r \<in> set (y_pending y) \<Longrightarrow> t \<le> fst r + latency) \<Longrightarrow>
     resolver_step E latency y (y\<lparr>y_now := t\<rparr>)"
| rs_write: "resolver_step E latency y (y\<lparr>y_db := d\<rparr>)"
| rs_hit: "valid_slug slug \<Longrightarrow> cached (y_now y) slug (y_rv y) = Some r \<Longrightarrow>
     resolver_step E latency y (y\<lparr>y_rv := sweep_cache (y_now y) (y_rv y)\<rparr>)"
| rs_miss: "valid_slug slug \<Longrightarrow> cached (y_now y) slug (y_rv y) = None \<Longrightarrow>
     lookup_slug E slug (y_db y) = Inl e \<Longrightarrow>
     resolver_step E latency y (y\<lparr>y_rv := sweep_cache (y_now y) (y_rv y)\<rparr>)"
| rs_read: "valid_slug slug \<Longrightarrow> cached (y_now y) slug (y_rv y) = None \<Longrightarrow>
     lookup_slug E slug (y_db y) = Inr r \<Longrightarrow>
     resolver_step E latency y (y\<lparr>y_rv := sweep_cache (y_now y) (y_rv y),
       y_pending := (y_now y, slug, r) # y_pending y, y_reads := ((y_now y, slug, r), y_db y) # y_reads y\<rparr>)"
| rs_store: "(t, slug, r) \<in> set (y_pending y) \<Longrightarrow>
     resolver_step E latency y (y\<lparr>y_rv := store_entry (y_now y) slug r (y_rv y),
       y_pending := remove1 (t, slug, r) (y_pending y)\<rparr>)"

definition resolver_start :: "time \<Rightarrow> resolver_sys \<Rightarrow> bool" where
  "resolver_start ttl y \<longleftrightarrow> y_rv y = resolver_new ttl \<and> y_pending y = [] \<and> y_reads y = []"

text \<open>Every entry and every pending result is a read of the database, not older than its bound.\<close>

definition was_read :: "resolver_sys \<Rightarrow> slug_read \<Rightarrow> bool" where
  "was_read y r \<longleftrightarrow> (\<exists>d. (r, d) \<in> set (y_reads y))"

definition entry_ok :: "time \<Rightarrow> resolver_sys \<Rightarrow> string \<Rightarrow> cache_entry \<Rightarrow> bool" where
  "entry_ok latency y slug e \<longleftrightarrow> (\<exists>t. was_read y (t, slug, (ce_tenant e, ce_version e)) \<and>
     ce_expires e \<le> t + latency + rv_ttl (y_rv y))"

definition bounded_staleness :: "env \<Rightarrow> time \<Rightarrow> resolver_sys \<Rightarrow> bool" where
  "bounded_staleness E latency y \<longleftrightarrow>
     (\<forall>slug e. rv_cache (y_rv y) slug = Some e \<longrightarrow> entry_ok latency y slug e) \<and>
     (\<forall>r \<in> set (y_pending y). was_read y r \<and> y_now y \<le> fst r + latency) \<and>
     (\<forall>t slug r d. ((t, slug, r), d) \<in> set (y_reads y) \<longrightarrow> lookup_slug E slug d = Inr r)"

lemma entry_ok_mono:
  "entry_ok latency y slug e \<Longrightarrow> set (y_reads y) \<subseteq> set (y_reads y') \<Longrightarrow>
     rv_ttl (y_rv y') = rv_ttl (y_rv y) \<Longrightarrow> entry_ok latency y' slug e"
  unfolding entry_ok_def was_read_def by fastforce

lemma sweep_cache_sub: "rv_cache (sweep_cache now rv) k = Some e \<Longrightarrow> rv_cache rv k = Some e"
  by (auto simp: sweep_cache_def split: if_splits option.splits)

lemma sweep_cache_ttl [simp]: "rv_ttl (sweep_cache now rv) = rv_ttl rv"
  by (simp add: sweep_cache_def)

lemma resolver_ttl_step: "resolver_step E latency y y' \<Longrightarrow> rv_ttl (y_rv y') = rv_ttl (y_rv y)"
  by (cases rule: resolver_step.cases) (auto simp: store_entry_def)

lemma bounded_staleness_step:
  assumes inv: "bounded_staleness E latency y" and st: "resolver_step E latency y y'" and "0 \<le> latency"
  shows "bounded_staleness E latency y'"
proof -
  have ttl: "rv_ttl (y_rv y') = rv_ttl (y_rv y)" using st by (rule resolver_ttl_step)
  have keep: "bounded_staleness E latency y'"
    if "\<And>k e. rv_cache (y_rv y') k = Some e \<Longrightarrow> rv_cache (y_rv y) k = Some e"
      "y_reads y' = y_reads y" "\<And>r. r \<in> set (y_pending y') \<Longrightarrow> r \<in> set (y_pending y) \<and> y_now y' \<le> fst r + latency"
    using inv that entry_ok_mono [OF _ _ ttl] by (simp add: bounded_staleness_def was_read_def)
  show ?thesis
    using st
  proof cases
    case (rs_store t slug r)
    have "y_now y \<le> t + latency" "was_read y (t, slug, r)"
      using inv rs_store(2) by (auto simp: bounded_staleness_def)
    then have "entry_ok latency y' slug \<lparr>ce_tenant = fst r, ce_version = snd r, ce_expires = y_now y + rv_ttl (y_rv y)\<rparr>"
      using rs_store(1) ttl by (auto simp: entry_ok_def was_read_def)
    moreover have "entry_ok latency y' k e" if "rv_cache (y_rv y) k = Some e" for k e
      using inv that rs_store(1) entry_ok_mono [OF _ _ ttl, of latency k e]
      by (simp add: bounded_staleness_def)
    ultimately show ?thesis
      using inv rs_store(1)
      by (auto simp: bounded_staleness_def store_entry_def was_read_def dest: notin_set_remove1 split: if_splits)
  next
    case (rs_read slug r)
    have "entry_ok latency y' k e" if c: "rv_cache (y_rv y') k = Some e" for k e
    proof (rule entry_ok_mono [OF _ _ ttl])
      have "rv_cache (y_rv y) k = Some e" using c rs_read(1) by (auto dest: sweep_cache_sub)
      then show "entry_ok latency y k e" using inv by (simp add: bounded_staleness_def)
    qed (use rs_read(1) in auto)
    then show ?thesis
      using inv rs_read(1,4) assms(3) by (auto simp: bounded_staleness_def was_read_def)
  next
    case (rs_tick t)
    then show ?thesis by (intro keep) (auto dest: sweep_cache_sub)
  next
    case (rs_write d)
    then show ?thesis using inv by (intro keep) (auto simp: bounded_staleness_def)
  next
    case (rs_hit slug r)
    then show ?thesis using inv by (intro keep) (auto simp: bounded_staleness_def dest: sweep_cache_sub)
  next
    case (rs_miss slug e)
    then show ?thesis using inv by (intro keep) (auto simp: bounded_staleness_def dest: sweep_cache_sub)
  qed
qed

interpretation slug_cache: invariant_system "resolver_start ttl" "resolver_step E latency"
    "\<lambda>y. 0 \<le> latency \<longrightarrow> bounded_staleness E latency y"
proof unfold_locales
  show "0 \<le> latency \<longrightarrow> bounded_staleness E latency y" if "resolver_start ttl y" for y
    using that by (simp add: resolver_start_def resolver_new_def bounded_staleness_def)
  show "0 \<le> latency \<longrightarrow> bounded_staleness E latency y'"
    if "0 \<le> latency \<longrightarrow> bounded_staleness E latency y" "resolver_step E latency y y'" for y y'
    using that bounded_staleness_step by blast
qed

lemma resolver_ttl: "reachable (resolver_start ttl) (resolver_step E latency) y \<Longrightarrow>
    rv_ttl (y_rv y) = (if ttl \<le> 0 then default_ttl else ttl)"
  by (induction rule: reachable.induct) (auto simp: resolver_start_def resolver_new_def resolver_ttl_step)

section \<open>Properties\<close>

text \<open>
  C27. The resolver's staleness is bounded: whatever other lookups are in flight and however the
  database changes meanwhile, a tenant served from the cache was the answer of a database read of
  that slug less than the time to live plus one lookup's latency ago.
\<close>

theorem cached_tenant_fresh:
  assumes "reachable (resolver_start ttl) (resolver_step E latency) y" "0 < ttl" "0 \<le> latency"
    and "cached (y_now y) slug (y_rv y) = Some r"
  shows "\<exists>t d. ((t, slug, r), d) \<in> set (y_reads y) \<and> lookup_slug E slug d = Inr r \<and>
    y_now y < t + latency + ttl"
proof -
  from assms(4) obtain e where e: "rv_cache (y_rv y) slug = Some e" "y_now y < ce_expires e"
    "r = (ce_tenant e, ce_version e)"
    by (auto simp: cached_def split: option.splits if_splits)
  have inv: "bounded_staleness E latency y" using slug_cache.reachable_inv [OF assms(1)] assms(3) by blast
  then obtain t where t: "was_read y (t, slug, r)" "ce_expires e \<le> t + latency + rv_ttl (y_rv y)"
    using e(1,3) unfolding bounded_staleness_def entry_ok_def by blast
  then obtain d where d: "((t, slug, r), d) \<in> set (y_reads y)" by (auto simp: was_read_def)
  moreover have "lookup_slug E slug d = Inr r" using inv d unfolding bounded_staleness_def by blast
  moreover have "rv_ttl (y_rv y) = ttl" using resolver_ttl [OF assms(1)] assms(2) by simp
  then have "y_now y < t + latency + ttl" using t(2) e(2) by simp
  ultimately show ?thesis by blast
qed

definition resolver_before :: resolver_sys where
  "resolver_before = \<lparr>y_rv = resolver_new 10, y_db = empty_db\<lparr>tenants :=
     [\<lparr>t_id = 1, t_slug = ''a'', t_name = [], t_settings = JNull, t_version = 3, t_created = 0, t_updated = 0\<rparr>]\<rparr>,
     y_now = 0, y_pending = [], y_reads = []\<rparr>"

definition resolver_read :: resolver_sys where
  "resolver_read = resolver_before\<lparr>y_rv := sweep_cache 0 (resolver_new 10), y_pending := [(0, ''a'', (1, 3))],
     y_reads := [((0, ''a'', (1, 3)), y_db resolver_before)]\<rparr>"

definition resolver_stored :: resolver_sys where
  "resolver_stored = resolver_read\<lparr>y_rv := store_entry 0 ''a'' (1, 3) (y_rv resolver_read), y_pending := []\<rparr>"

lemma sample_resolver:
  "reachable (resolver_start 10) (resolver_step sample_env 2) resolver_stored"
proof -
  have "resolver_start 10 resolver_before" by (simp add: resolver_start_def resolver_before_def)
  moreover have "resolver_step sample_env 2 resolver_before resolver_read"
  proof -
    have "valid_slug ''a''" by (simp add: slug_char_def is_lower_def)
    moreover have "cached (y_now resolver_before) ''a'' (y_rv resolver_before) = None"
      by (simp add: cached_def resolver_before_def resolver_new_def)
    moreover have "lookup_slug sample_env ''a'' (y_db resolver_before) = Inr (1, 3)"
      by (simp add: lookup_slug_def scoped_def run_tx_def tenant_by_slug_def and_then_def resolver_before_def)
    ultimately have "resolver_step sample_env 2 resolver_before (resolver_before\<lparr>
        y_rv := sweep_cache (y_now resolver_before) (y_rv resolver_before),
        y_pending := (y_now resolver_before, ''a'', (1, 3)) # y_pending resolver_before,
        y_reads := ((y_now resolver_before, ''a'', (1, 3)), y_db resolver_before) # y_reads resolver_before\<rparr>)"
      by (rule rs_read)
    then show ?thesis by (simp add: resolver_read_def) (simp add: resolver_before_def)
  qed
  moreover have "resolver_step sample_env 2 resolver_read resolver_stored"
    using rs_store [of 0 "''a''" "(1, 3)" resolver_read sample_env 2]
    by (simp add: resolver_stored_def) (simp add: resolver_read_def resolver_before_def)
  ultimately show ?thesis by (meson reach_start reach_step)
qed

theorem cached_tenant_fresh_witness:
  "\<exists>t d. ((t, ''a'', (1, 3)), d) \<in> set (y_reads resolver_stored) \<and> lookup_slug sample_env ''a'' d = Inr (1, 3) \<and>
     y_now resolver_stored < t + 2 + 10"
proof -
  have "cached (y_now resolver_stored) ''a'' (y_rv resolver_stored) = Some (1, 3)"
    by (simp add: cached_def resolver_stored_def resolver_read_def resolver_before_def store_entry_def
        resolver_new_def)
  then show ?thesis by (intro cached_tenant_fresh [OF sample_resolver]) simp_all
qed

end
