(* ===== verification/PublicApi.thy ===== *)
theory PublicApi
  imports Tenancy Signing
begin

text \<open>
  internal/publicapi: the public read surface. The handlers are functions of the request, the resolver and the
  database; how a cursor is written and read is the argument \<open>codec\<close>, which theory Cursors gives.
\<close>

section \<open>Configuration, requests and responses\<close>

definition default_page_size :: int where
  "default_page_size = 25"

definition max_page_size :: int where
  "max_page_size = 100"

record api =
  ap_size :: nat
  ap_origin :: string

definition api_new :: "int \<Rightarrow> string \<Rightarrow> api" where
  "api_new n cdn =
     (let s = (if n \<le> 0 then default_page_size else n)
      in \<lparr>ap_size = nat (if s > max_page_size then max_page_size else s), ap_origin = trim_right cdn ''/''\<rparr>)"

type_synonym cursor = "time \<times> uuid"

text \<open>A cursor that is read has nanoseconds, of which the database keeps microseconds.\<close>

record codec =
  cc_encode :: "cursor \<Rightarrow> string"
  cc_decode :: "string \<Rightarrow> (int \<times> uuid) option"

record image_item =
  ii_url :: string
  ii_width :: int
  ii_height :: int
  ii_srcset :: "string list"

record list_post =
  lp_slug :: string
  lp_title :: string
  lp_excerpt :: string
  lp_published :: "time option"
  lp_metadata :: json
  lp_images :: "image_item list"

record post_body =
  pb_slug :: string
  pb_title :: string
  pb_excerpt :: string
  pb_html :: string
  pb_author :: string
  pb_published :: "time option"
  pb_images :: "image_item list"

datatype body =
    ListBody "list_post list" string
  | PostBody post_body
  | SiteBody string json int
  | HtmlBody bytes
  | ErrorBody string
  | NoBody

record response =
  rs_status :: nat
  rs_etag :: "string option"
  rs_body :: body

record list_request =
  rq_tag :: string
  rq_before :: string
  rq_if_none_match :: string

definition error_response :: "nat \<Rightarrow> string \<Rightarrow> response" where
  "error_response st msg = \<lparr>rs_status = st, rs_etag = None, rs_body = ErrorBody msg\<rparr>"

definition quoted :: "string \<Rightarrow> string" where
  "quoted s = [CHR 0x22] @ s @ [CHR 0x22]"

definition ok_response :: "body \<Rightarrow> string \<Rightarrow> response" where
  "ok_response b etag =
     \<lparr>rs_status = 200, rs_etag = (if etag = [] then None else Some (quoted etag)), rs_body = b\<rparr>"

definition not_modified :: "string \<Rightarrow> response" where
  "not_modified etag = \<lparr>rs_status = 304, rs_etag = Some (quoted etag), rs_body = NoBody\<rparr>"

section \<open>Entity tags\<close>

text \<open>\<open>fmt.Fprintf(h, "%v\x00", p)\<close> of every part.\<close>

definition etag_text :: "string list \<Rightarrow> bytes" where
  "etag_text parts = concat (map (\<lambda>p. p @ [CHR 0x00]) parts)"

definition etag :: "env \<Rightarrow> string list \<Rightarrow> string" where
  "etag E parts = hex_string (e_sha256 E (etag_text parts))"

definition etag_candidate :: "string \<Rightarrow> string \<Rightarrow> bool" where
  "etag_candidate current part =
     (let p = trim_space part
      in p = ''*'' \<or> trim (trim_prefix p ''W/'') [CHR 0x22] = current)"

definition etag_matches :: "string \<Rightarrow> string \<Rightarrow> bool" where
  "etag_matches inm current = (inm \<noteq> [] \<and> list_ex (etag_candidate current) (go_split inm CHR '',''))"

definition conditional :: "string \<Rightarrow> string \<Rightarrow> body \<Rightarrow> response" where
  "conditional inm v b = (if etag_matches inm v then not_modified v else ok_response b v)"

definition resolve_tenant :: "error \<Rightarrow> response option" where
  "resolve_tenant e =
     (if errors_is e ErrInvalidSlug then Some (error_response 400 ''invalid tenant slug'')
      else if errors_is e ErrTenantNotFound then Some (error_response 404 ''tenant not found'')
      else None)"

section \<open>Images\<close>

text \<open>\<open>strconv.Atoi\<close>: an optional sign and decimal digits, within 64 bits.\<close>

definition go_atoi :: "string \<Rightarrow> int option" where
  "go_atoi s =
     (let neg = has_prefix s ''-'';
          ds = (if has_prefix s ''-'' \<or> has_prefix s ''+'' then drop 1 s else s);
          v = int (atoi ds);
          n = (if neg then - v else v)
      in if ds = [] \<or> \<not> list_all is_digit ds then None
         else if - (2 ^ 63) \<le> n \<and> n < 2 ^ 63 then Some n else None)"

definition resolve_url :: "string \<Rightarrow> string \<Rightarrow> string" where
  "resolve_url u origin =
     (if (u = [] \<or> has_prefix u ''/'') \<and> origin \<noteq> [] then origin @ ''/'' @ trim_left u ''/'' else u)"

definition variant_pair :: "string \<times> variant \<Rightarrow> (int \<times> variant) option" where
  "variant_pair lv =
     (case go_atoi (fst lv) of
        None \<Rightarrow> None
      | Some w \<Rightarrow> if v_url (snd lv) = [] then None
                 else Some (if v_width (snd lv) > 0 then v_width (snd lv) else w, snd lv))"

text \<open>The keys of a jsonb object are unique, so \<open>vs\<close> is read as it is.\<close>

definition image_from_variants :: "(string \<times> variant) list \<Rightarrow> string \<Rightarrow> image_item option" where
  "image_from_variants vs origin =
     (let pairs = sort_key (\<lambda>(w, v). (w, v_url v)) (List.map_filter variant_pair vs)
      in if pairs = [] then None
         else let (w, v) = last pairs
              in Some \<lparr>ii_url = resolve_url (v_url v) origin, ii_width = w, ii_height = v_height v,
                       ii_srcset = map (\<lambda>(w, v). resolve_url (v_url v) origin @ '' '' @ int_string w @ ''w'') pairs\<rparr>)"

section \<open>The list\<close>

definition decode_cursor :: "codec \<Rightarrow> string \<Rightarrow> error + cursor" where
  "decode_cursor cc s =
     (case cc_decode cc s of
        None \<Rightarrow> Inl ErrMalformedCursor
      | Some (n, i) \<Rightarrow> if i = nil_uuid \<or> n = zero_time * 1000 then Inl ErrMalformedCursor else Inr (n div 1000, i))"

text \<open>\<open>metadata @> '{"tags":[tag]}'\<close>\<close>

definition has_tag :: "string \<Rightarrow> json option \<Rightarrow> bool" where
  "has_tag tag meta =
     (case meta of
        Some (JObj kvs) \<Rightarrow> (case obj_get kvs ''tags'' of Some (JArr xs) \<Rightarrow> JStr tag \<in> set xs | _ \<Rightarrow> False)
      | _ \<Rightarrow> False)"

text \<open>\<open>(published_at, id) < (at, i)\<close>, NULL counting as no.\<close>

definition before_cursor :: "cursor \<Rightarrow> post \<Rightarrow> bool" where
  "before_cursor c p =
     (case p_published p of
        None \<Rightarrow> False
      | Some t \<Rightarrow> (t, p_id p) < c)"

text \<open>\<open>order by published_at desc, id desc\<close>: descending order puts NULL first.\<close>

definition order_key :: "post \<Rightarrow> bool \<times> time \<times> uuid" where
  "order_key p =
     (p_published p = None, (case p_published p of None \<Rightarrow> 0 | Some t \<Rightarrow> t), p_id p)"

definition newest_first :: "post list \<Rightarrow> post list" where
  "newest_first ps = rev (sort_key order_key ps)"

definition listed :: "tx \<Rightarrow> uuid \<Rightarrow> string \<Rightarrow> post \<Rightarrow> bool" where
  "listed q t tag p = (visible q (p_tenant p) \<and> p_tenant p = t \<and> p_status p = PostPublished \<and>
     (tag = [] \<or> has_tag tag (p_metadata p)))"

definition at_cursor :: "cursor option \<Rightarrow> post \<Rightarrow> bool" where
  "at_cursor cur p = (case cur of None \<Rightarrow> True | Some c \<Rightarrow> before_cursor c p)"

text \<open>\<open>listStatement\<close> run: a tag with a NUL has no jsonb text and raises 22P05.\<close>

definition list_statement ::
  "tx \<Rightarrow> uuid \<Rightarrow> nat \<Rightarrow> string \<Rightarrow> cursor option \<Rightarrow> post list txn" where
  "list_statement q t n tag cur = read_stmt (\<lambda>d.
     if CHR 0x00 \<in> set tag then Inl (PgError ''22P05'')
     else Inr (take (n + 1)
       (newest_first (filter (\<lambda>p. listed q t tag p \<and> at_cursor cur p) (posts d)))))"

definition content_version :: "tx \<Rightarrow> uuid \<Rightarrow> int txn" where
  "content_version q t =
     and_then (read_stmt (\<lambda>d. Inr (find (\<lambda>x. t_id x = t) (tenants d))))
       (\<lambda>r. scan_row (map_option t_version r))"

definition tenant_scope :: "uuid \<Rightarrow> scope" where
  "tenant_scope t = \<lparr>sc_tenant = t, sc_platform = False\<rparr>"

definition fetch_page ::
  "env \<Rightarrow> api \<Rightarrow> uuid \<Rightarrow> string \<Rightarrow> cursor option \<Rightarrow> (post list \<times> int) act" where
  "fetch_page E a t tag cur =
     scoped E (tenant_scope t) (\<lambda>q.
       and_then (content_version q t) (\<lambda>v.
         and_then (list_statement q t (ap_size a) tag cur) (\<lambda>rows. ret (rows, v))))"

text \<open>Per post the first image, by position, that has a usable variant.\<close>

definition fetch_first_images :: "env \<Rightarrow> api \<Rightarrow> uuid \<Rightarrow> uuid list \<Rightarrow> (uuid \<Rightarrow> image_item list) act" where
  "fetch_first_images E a t ids =
     (if ids = [] then ret (\<lambda>i. [])
      else scoped E (tenant_scope t) (\<lambda>q. read_stmt (\<lambda>d.
        let rows = sort_key (\<lambda>im. (pi_post im, pi_position im))
              (filter (\<lambda>im. visible q (pi_tenant im) \<and> pi_tenant im = t \<and> pi_post im \<in> set ids) (post_images d))
        in Inr (\<lambda>i. take 1 (List.map_filter (\<lambda>im. image_from_variants (pi_variants im) (ap_origin a))
                    (filter (\<lambda>im. pi_post im = i) rows))))))"

definition list_item :: "(uuid \<Rightarrow> image_item list) \<Rightarrow> post \<Rightarrow> list_post" where
  "list_item imgs p =
     \<lparr>lp_slug = p_slug p, lp_title = p_title p, lp_excerpt = p_excerpt p, lp_published = p_published p,
      lp_metadata = (case p_metadata p of None \<Rightarrow> JObj [] | Some m \<Rightarrow> m), lp_images = imgs (p_id p)\<rparr>"

definition next_cursor :: "codec \<Rightarrow> post list \<Rightarrow> string" where
  "next_cursor cc page =
     (case p_published (last page) of
        None \<Rightarrow> []
      | Some t \<Rightarrow> cc_encode cc (t, p_id (last page)))"

definition list_tenant :: "env \<Rightarrow> api \<Rightarrow> codec \<Rightarrow> list_request \<Rightarrow> uuid \<Rightarrow> response act" where
  "list_tenant E a cc rq t =
     (case (if rq_before rq = [] then Inr None else map_sum id Some (decode_cursor cc (rq_before rq))) of
        Inl e \<Rightarrow> ret (error_response 422 ''malformed cursor'')
      | Inr cur \<Rightarrow>
          and_then (fetch_page E a t (rq_tag rq) cur) (\<lambda>(rows, version).
            let more = length rows > ap_size a;
                page = (if more then take (ap_size a) rows else rows);
                nxt = (if more then next_cursor cc page else [])
            in and_then (fetch_first_images E a t (map p_id page)) (\<lambda>imgs.
                 let v = etag E [int_string version, rq_before rq, rq_tag rq, itoa (ap_size a)]
                 in ret (conditional (rq_if_none_match rq) v (ListBody (map (list_item imgs) page) nxt)))))"

text \<open>
  The handlers resolve the slug first; \<open>now\<close> and \<open>now2\<close> are the resolver's two clock readings.
\<close>

definition with_tenant ::
  "env \<Rightarrow> time \<Rightarrow> time \<Rightarrow> string \<Rightarrow> (uuid \<Rightarrow> response act) \<Rightarrow> db \<Rightarrow> resolver \<Rightarrow> (error + response) \<times> resolver" where
  "with_tenant E now now2 slug k d rv =
     (case resolve_slug E now now2 slug d rv of
        (Inl e, rv') \<Rightarrow> ((case resolve_tenant e of Some r \<Rightarrow> Inr r | None \<Rightarrow> Inl e), rv')
      | (Inr (t, v), rv') \<Rightarrow> (fst (k t d), rv'))"

definition api_list where
  "api_list E now now2 a cc rq slug = with_tenant E now now2 slug (list_tenant E a cc rq)"

section \<open>One post\<close>

definition published_at_slug :: "tx \<Rightarrow> uuid \<Rightarrow> string \<Rightarrow> post \<Rightarrow> bool" where
  "published_at_slug q t slug p =
     (visible q (p_tenant p) \<and> p_tenant p = t \<and> p_slug p = slug \<and> p_status p = PostPublished)"

text \<open>The join with the author and the images of the post, by position.\<close>

definition get_query ::
  "tx \<Rightarrow> uuid \<Rightarrow> string \<Rightarrow> (post \<times> string \<times> (string \<times> variant) list list) txn" where
  "get_query q t slug =
     and_then (read_stmt (\<lambda>d. Inr
        (case find (\<lambda>p. published_at_slug q t slug p \<and> has_user d (p_author p)) (posts d) of
           None \<Rightarrow> None
         | Some p \<Rightarrow>
             map_option (\<lambda>u. (p, us_display u, map pi_variants
                 (sort_key pi_position (filter (\<lambda>im. visible q (pi_tenant im) \<and> pi_post im = p_id p \<and>
                    pi_tenant im = p_tenant p) (post_images d)))))
               (find (\<lambda>u. us_id u = p_author p) (users d)))))
       scan_row"

definition decode_images :: "api \<Rightarrow> (string \<times> variant) list list \<Rightarrow> image_item list" where
  "decode_images a raws = List.map_filter (\<lambda>vs. image_from_variants vs (ap_origin a)) raws"

text \<open>The tag of a post: the length of its HTML and \<open>updated_at\<close> in nanoseconds.\<close>

definition post_etag :: "env \<Rightarrow> post \<Rightarrow> string" where
  "post_etag E p = etag E [itoa (length (p_html p)), int_string (p_updated p * 1000)]"

definition or_not_found :: "string \<Rightarrow> response act \<Rightarrow> response act" where
  "or_not_found msg m = handle m (\<lambda>e. if errors_is e ErrNoRows then ret (error_response 404 msg) else fail e)"

definition get_tenant_post :: "env \<Rightarrow> api \<Rightarrow> string \<Rightarrow> string \<Rightarrow> uuid \<Rightarrow> response act" where
  "get_tenant_post E a inm slug t =
     (if slug = [] then ret (error_response 404 ''post not found'')
      else or_not_found ''post not found''
        (and_then (scoped E (tenant_scope t) (\<lambda>q. get_query q t slug)) (\<lambda>(p, author, raws).
           ret (conditional inm (post_etag E p)
             (PostBody \<lparr>pb_slug = slug, pb_title = p_title p, pb_excerpt = p_excerpt p,
                pb_html = p_html p, pb_author = author, pb_published = p_published p,
                pb_images = decode_images a raws\<rparr>)))))"

definition api_get where
  "api_get E now now2 a inm tslug slug = with_tenant E now now2 tslug (get_tenant_post E a inm slug)"

definition html_query :: "tx \<Rightarrow> uuid \<Rightarrow> string \<Rightarrow> post txn" where
  "html_query q t slug =
     and_then (read_stmt (\<lambda>d. Inr (find (published_at_slug q t slug) (posts d)))) scan_row"

definition get_tenant_html :: "env \<Rightarrow> string \<Rightarrow> string \<Rightarrow> uuid \<Rightarrow> response act" where
  "get_tenant_html E inm slug t =
     (if slug = [] then ret (error_response 404 ''post not found'')
      else or_not_found ''post not found''
        (and_then (scoped E (tenant_scope t) (\<lambda>q. html_query q t slug)) (\<lambda>p.
           ret (conditional inm (post_etag E p) (HtmlBody (p_html p))))))"

definition api_get_html where
  "api_get_html E now now2 inm tslug slug = with_tenant E now now2 tslug (get_tenant_html E inm slug)"

section \<open>The site\<close>

definition site_tenant :: "env \<Rightarrow> string \<Rightarrow> uuid \<Rightarrow> response act" where
  "site_tenant E inm t =
     or_not_found ''tenant not found''
       (and_then (scoped E (tenant_scope t) (\<lambda>q. get_tenant q t)) (\<lambda>b.
          ret (conditional inm (etag E [int_string (t_version b), int_string (t_updated b * 1000)])
            (SiteBody (t_name b) (t_settings b) (t_version b)))))"

definition api_site where
  "api_site E now now2 inm tslug = with_tenant E now now2 tslug (site_tenant E inm)"

section \<open>Paging\<close>

text \<open>A client that follows \<open>next_cursor\<close> from page to page, for at most the given number of pages.\<close>

fun crawl :: "env \<Rightarrow> api \<Rightarrow> codec \<Rightarrow> string \<Rightarrow> uuid \<Rightarrow> db \<Rightarrow> nat \<Rightarrow> string \<Rightarrow> list_post list" where
  "crawl E a cc tag t d 0 before = []"
| "crawl E a cc tag t d (Suc n) before =
     (case fst (list_tenant E a cc \<lparr>rq_tag = tag, rq_before = before, rq_if_none_match = []\<rparr> t d) of
        Inl e \<Rightarrow> []
      | Inr r \<Rightarrow> (case rs_body r of
           ListBody items nxt \<Rightarrow> items @ (if nxt = [] then [] else crawl E a cc tag t d n nxt)
         | _ \<Rightarrow> []))"

abbreviation ro_tx :: "env \<Rightarrow> uuid \<Rightarrow> tx" where
  "ro_tx E t \<equiv> tx_of E True (tenant_scope t)"

definition cursor_of :: "post \<Rightarrow> cursor" where
  "cursor_of p = ((case p_published p of None \<Rightarrow> 0 | Some t \<Rightarrow> t), p_id p)"

definition descending :: "post list \<Rightarrow> bool" where
  "descending ps = sorted_wrt (\<lambda>p r. cursor_of r < cursor_of p) ps"

lemma filter_newest: "filter P (newest_first ps) = newest_first (filter P ps)"
  by (simp add: newest_first_def rev_filter [symmetric] filter_sort)

lemma ascending_keys:
  "sorted (map order_key xs) \<Longrightarrow> distinct (map p_id xs) \<Longrightarrow> (\<And>p. p \<in> set xs \<Longrightarrow> p_published p \<noteq> None) \<Longrightarrow>
     sorted_wrt (\<lambda>p r. cursor_of p < cursor_of r) xs"
proof (induction xs)
  case (Cons x xs)
  have "cursor_of x < cursor_of r" if "r \<in> set xs" for r
  proof -
    have "order_key x \<le> order_key r" using Cons.prems(1) that by simp
    moreover have "p_published x \<noteq> None" "p_published r \<noteq> None" using Cons.prems(3) that by auto
    moreover have "p_id x \<noteq> p_id r" using Cons.prems(2) that by auto
    ultimately show ?thesis by (auto simp: order_key_def cursor_of_def)
  qed
  then show ?case using Cons by simp
qed simp

lemma newest_first_descending:
  assumes "distinct (map p_id ps)" "\<And>p. p \<in> set ps \<Longrightarrow> p_published p \<noteq> None"
  shows "descending (newest_first ps)"
proof -
  have "distinct (map p_id (sort_key order_key ps))"
    using assms(1) by (simp add: distinct_map)
  with assms(2) show ?thesis
    unfolding descending_def newest_first_def sorted_wrt_rev
    by (intro ascending_keys sorted_sort_key) auto
qed

text \<open>Behind the last row of a page come exactly the rows the cursor selects.\<close>

lemma cursor_splits:
  assumes "descending (xs @ y # ys)" "\<And>p. p \<in> set (xs @ y # ys) \<Longrightarrow> p_published p \<noteq> None"
  shows "filter (before_cursor (cursor_of y)) (xs @ y # ys) = ys"
proof -
  have key: "before_cursor c p \<longleftrightarrow> cursor_of p < c" if "p \<in> set (xs @ y # ys)" for c p
    using assms(2) [OF that] by (auto simp: before_cursor_def cursor_of_def)
  have "\<And>p. p \<in> set xs \<Longrightarrow> cursor_of y < cursor_of p" "\<And>p. p \<in> set ys \<Longrightarrow> cursor_of p < cursor_of y"
    using assms(1) by (auto simp: descending_def sorted_wrt_append)
  then have "filter (before_cursor (cursor_of y)) xs = []" "filter (before_cursor (cursor_of y)) ys = ys"
    using key by (auto simp: filter_empty_conv filter_id_conv dest: order_less_asym)
  then show ?thesis using key [of y "cursor_of y"] by simp
qed

lemma run_fetch_page:
  assumes "find (\<lambda>x. t_id x = t) (tenants d) = Some b" "CHR 0x00 \<notin> set tag"
  shows "fetch_page E a t tag cur d =
    (Inr (take (ap_size a + 1) (filter (at_cursor cur) (newest_first (filter (listed (ro_tx E t) t tag) (posts d)))), t_version b), d)"
  using assms
  by (simp add: fetch_page_def scoped_def run_tx_def and_then_def content_version_def list_statement_def
      filter_newest)

lemma run_first_images: "\<exists>f. fetch_first_images E a t ids d = (Inr f, d)"
  by (simp add: fetch_first_images_def scoped_def run_tx_def Let_def)

definition accepted_cursor :: "codec \<Rightarrow> string \<Rightarrow> cursor option \<Rightarrow> bool" where
  "accepted_cursor cc before cur \<longleftrightarrow>
     (if before = [] then cur = None else (\<exists>c. cur = Some c \<and> decode_cursor cc before = Inr c))"

lemma list_tenant_page:
  assumes "find (\<lambda>x. t_id x = t) (tenants d) = Some b" "CHR 0x00 \<notin> set tag"
    and "accepted_cursor cc before cur"
    and "filter (at_cursor cur) (newest_first (filter (listed (ro_tx E t) t tag) (posts d))) = ys"
  shows "\<exists>r items. fst (list_tenant E a cc \<lparr>rq_tag = tag, rq_before = before, rq_if_none_match = []\<rparr> t d) = Inr r \<and>
    rs_body r = ListBody items (if length ys > ap_size a then next_cursor cc (take (ap_size a) ys) else []) \<and>
    map lp_slug items = map p_slug (take (ap_size a) ys)"
proof -
  have cur: "(if before = [] then Inr None else map_sum id Some (decode_cursor cc before)) = (Inr cur :: error + cursor option)"
    using assms(3) by (auto simp: accepted_cursor_def)
  obtain f where f: "fetch_first_images E a t (map p_id (take (ap_size a) ys)) d = (Inr f, d)"
    using run_first_images by blast
  have page: "(if length ys > ap_size a then take (ap_size a) (take (ap_size a + 1) ys) else take (ap_size a + 1) ys) = take (ap_size a) ys"
    by (auto simp: min_def)
  have len: "length (take (ap_size a + 1) ys) > ap_size a \<longleftrightarrow> length ys > ap_size a" by auto
  show ?thesis
    unfolding list_tenant_def list_request.select_convs cur sum.case and_then_def run_fetch_page [OF assms(1,2)] assms(4)
    using f page
    by (auto simp: Let_def len conditional_def etag_matches_def ok_response_def list_item_def comp_def and_then_def)
qed

text \<open>A cursor that has a text and is read back from it.\<close>

definition carries :: "codec \<Rightarrow> cursor \<Rightarrow> bool" where
  "carries cc c \<longleftrightarrow> cc_encode cc c \<noteq> [] \<and> cc_decode cc (cc_encode cc c) = Some (fst c * 1000, snd c)"

definition datable :: "post \<Rightarrow> bool" where
  "datable p \<longleftrightarrow> p_id p \<noteq> nil_uuid \<and> p_published p \<notin> {None, Some zero_time}"

lemma next_cursor_accepted:
  assumes "carries cc (cursor_of (last zs))" "datable (last zs)"
  shows "next_cursor cc zs \<noteq> [] \<and> accepted_cursor cc (next_cursor cc zs) (Some (cursor_of (last zs)))"
  using assms
  by (auto simp: carries_def datable_def next_cursor_def accepted_cursor_def decode_cursor_def cursor_of_def
      split: option.splits)

lemma crawl_suffix:
  assumes t: "find (\<lambda>x. t_id x = t) (tenants d) = Some b" and tag: "CHR 0x00 \<notin> set tag"
    and sz: "0 < ap_size a"
    and all: "all = newest_first (filter (listed (ro_tx E t) t tag) (posts d))" "descending all"
    and dat: "\<And>p. p \<in> set all \<Longrightarrow> datable p \<and> carries cc (cursor_of p)"
  shows "length ys < n \<Longrightarrow> accepted_cursor cc before cur \<Longrightarrow> filter (at_cursor cur) all = ys \<Longrightarrow>
    (\<exists>xs. all = xs @ ys) \<Longrightarrow> map lp_slug (crawl E a cc tag t d n before) = map p_slug ys"
proof (induction n arbitrary: before cur ys)
  case (Suc n)
  let ?k = "ap_size a"
  obtain r items where page: "fst (list_tenant E a cc \<lparr>rq_tag = tag, rq_before = before, rq_if_none_match = []\<rparr> t d) = Inr r"
    "rs_body r = ListBody items (if length ys > ?k then next_cursor cc (take ?k ys) else [])"
    "map lp_slug items = map p_slug (take ?k ys)"
    using list_tenant_page [OF t tag Suc.prems(2), of E ys a] Suc.prems(3) all(1) by blast
  show ?case
  proof (cases "length ys > ?k")
    case False
    then show ?thesis using page by simp
  next
    case True
    let ?zs = "take ?k ys" and ?rest = "drop ?k ys"
    have "?zs \<noteq> []" using sz True by auto
    then obtain ws y where w: "?zs = ws @ [y]" by (metis append_butlast_last_id)
    have ys: "ys = ws @ y # ?rest" using append_take_drop_id [of ?k ys] w by simp
    obtain xs where "all = xs @ ys" using Suc.prems(4) by blast
    then have split: "all = (xs @ ws) @ y # ?rest" using ys by (metis append.assoc)
    have last: "last ?zs = y" using w by simp
    have "datable y" "carries cc (cursor_of y)" using dat split by (metis in_set_conv_decomp)+
    then have nx: "next_cursor cc ?zs \<noteq> []" "accepted_cursor cc (next_cursor cc ?zs) (Some (cursor_of y))"
      using next_cursor_accepted [of cc ?zs] last by auto
    have "filter (before_cursor (cursor_of y)) ((xs @ ws) @ y # ?rest) = ?rest"
      by (rule cursor_splits) (use all(2) dat split in \<open>auto simp: datable_def\<close>)
    then have "filter (at_cursor (Some (cursor_of y))) all = ?rest"
      using split by (simp add: at_cursor_def [abs_def])
    moreover have "\<exists>xs. all = xs @ ?rest" using split by (metis append.assoc append_Cons append_Nil)
    moreover have "length ?rest < n" using Suc.prems(1) sz True by auto
    ultimately have "map lp_slug (crawl E a cc tag t d n (next_cursor cc ?zs)) = map p_slug ?rest"
      using Suc.IH nx(2) by blast
    moreover have "map lp_slug (crawl E a cc tag t d (Suc n) before) =
        map p_slug ?zs @ map lp_slug (crawl E a cc tag t d n (next_cursor cc ?zs))"
      using page True nx(1) by simp
    ultimately show ?thesis by (metis append_take_drop_id map_append)
  qed
qed simp

lemma fetch_page_rows:
  assumes "fetch_page E a t tag cur d = (Inr (rows, v), d')"
  shows "d' = d \<and> set rows \<subseteq> {p \<in> set (posts d). listed (ro_tx E t) t tag p} \<and> version_of t d = Some v"
  using assms unfolding fetch_page_def scoped_runs content_version_def list_statement_def
  by (auto simp: txn_run newest_first_def version_of_def dest!: in_set_takeD split: if_splits)

lemma list_tenant_items:
  assumes "fst (list_tenant E a cc rq t d) = Inr r" "rs_body r = ListBody items nxt"
  shows "\<forall>i \<in> set items. \<exists>p \<in> set (posts d). listed (ro_tx E t) t (rq_tag rq) p \<and> lp_slug i = p_slug p"
proof -
  obtain d' where d': "list_tenant E a cc rq t d = (Inr r, d')" using assms(1) by (metis prod.collapse)
  show ?thesis
  proof (cases "if rq_before rq = [] then Inr None else map_sum id Some (decode_cursor cc (rq_before rq)) :: error + cursor option")
    case (Inl e)
    then have "r = error_response 422 ''malformed cursor''"
      using d' unfolding list_tenant_def Inl by (simp add: ret_def)
    then show ?thesis using assms(2) by (simp add: error_response_def)
  next
    case (Inr cur)
    from d' obtain rows v d1 where f: "fetch_page E a t (rq_tag rq) cur d = (Inr (rows, v), d1)"
      and k: "(let more = length rows > ap_size a;
                page = (if more then take (ap_size a) rows else rows);
                nxt = (if more then next_cursor cc page else [])
            in and_then (fetch_first_images E a t (map p_id page)) (\<lambda>imgs.
                 let v = etag E [int_string v, rq_before rq, rq_tag rq, itoa (ap_size a)]
                 in ret (conditional (rq_if_none_match rq) v (ListBody (map (list_item imgs) page) nxt)))) d1 = (Inr r, d')"
      unfolding list_tenant_def Inr sum.case by (rule and_then_InrE) auto
    let ?page = "if length rows > ap_size a then take (ap_size a) rows else rows"
    from k [unfolded Let_def] have "\<exists>imgs. rs_body r = NoBody \<or>
        (\<exists>nxt. rs_body r = ListBody (map (list_item imgs) ?page) nxt)"
      by (rule and_then_InrE) (auto simp: conditional_def not_modified_def ok_response_def ret_def split: if_splits)
    with assms(2) obtain imgs where "items = map (list_item imgs) ?page" by auto
    then show ?thesis
      using fetch_page_rows [OF f] by (fastforce simp: list_item_def dest: in_set_takeD split: if_splits)
  qed
qed

section \<open>Revalidation\<close>

text \<open>A tag is written in hexadecimal digits, so no separator, quote or wildcard occurs in it.\<close>

lemma hex_string_code: "c \<in> set (hex_string s) \<Longrightarrow> 48 \<le> (of_char c :: nat) \<and> of_char c < (128 :: nat)"
proof -
  have "48 \<le> (of_char (hex_char (v mod 16)) :: nat) \<and> of_char (hex_char (v mod 16)) < (128 :: nat)" for v
    using mod_less_divisor [of 16 v] by (auto simp: hex_char_def less_Suc_eq_le)
  then have "48 \<le> (of_char c :: nat) \<and> of_char c < (128 :: nat)" if "c \<in> set (hex_digits n v)" for c n v
    using that by (induction n arbitrary: v) auto
  then show "c \<in> set (hex_string s) \<Longrightarrow> 48 \<le> (of_char c :: nat) \<and> of_char c < (128 :: nat)"
    by (auto simp: hex_string_def)
qed

lemma etag_matches_quoted: "etag_matches (quoted (etag E ps)) w \<longleftrightarrow> etag E ps = w"
proof -
  let ?v = "etag E ps"
  have code: "48 \<le> (of_char c :: nat) \<and> of_char c < (128 :: nat)" if "c \<in> set ?v" for c
    using that hex_string_code by (simp add: etag_def)
  have no: "CHR '','' \<notin> set ?v" "CHR 0x22 \<notin> set ?v"
    using code [of "CHR '',''"] code [of "CHR 0x22"] by auto
  have "list_all visible_char (quoted ?v)"
    using code by (fastforce simp: list_all_iff quoted_def visible_char_def)
  then have "trim_space (quoted ?v) = quoted ?v" by (rule trim_space_visible)
  moreover have "go_split (quoted ?v) CHR '','' = [quoted ?v]"
    using no by (simp add: go_split_def split_at_none quoted_def)
  moreover have "trim_prefix (quoted ?v) ''W/'' = quoted ?v"
    by (simp add: trim_prefix_def has_prefix_def quoted_def)
  moreover have "trim (quoted ?v) [CHR 0x22] = ?v"
  proof -
    have "trim_left (quoted ?v) [CHR 0x22] = ?v @ [CHR 0x22] \<or> ?v = []"
      using no by (cases ?v) (auto simp: quoted_def trim_left_def)
    moreover have "trim_right (?v @ [CHR 0x22]) [CHR 0x22] = ?v"
    proof -
      have "dropWhile (\<lambda>c. c = CHR 0x22) (rev ?v) = rev ?v"
        using no(2) by (auto simp: dropWhile_eq_self_iff hd_rev dest: last_in_set)
      then show ?thesis by (simp add: trim_right_def)
    qed
    ultimately show ?thesis by (auto simp: trim_def quoted_def trim_left_def trim_right_def)
  qed
  ultimately show ?thesis by (auto simp: etag_matches_def etag_candidate_def quoted_def)
qed

section \<open>One site\<close>

text \<open>
  A codec that writes both components in decimal, and a tenant with two published posts and a draft,
  in pages of one post.
\<close>

definition sample_codec :: codec where
  "sample_codec =
     \<lparr>cc_encode = (\<lambda>(t, i). (if t < 0 then CHR ''-'' else CHR ''+'') # itoa (nat \<bar>t\<bar>) @ ''.'' @ itoa (unat i)),
      cc_decode = (\<lambda>s. case s of
          [] \<Rightarrow> None
        | c # r \<Rightarrow> (let n = int (atoi (takeWhile is_digit r))
                     in Some (1000 * (if c = CHR ''-'' then - n else n), of_nat (atoi (drop 1 (dropWhile is_digit r))))))\<rparr>"

definition sample_entry :: "uuid \<Rightarrow> string \<Rightarrow> post_status \<Rightarrow> time option \<Rightarrow> post" where
  "sample_entry i slug st pub = \<lparr>p_id = i, p_tenant = 1, p_author = 5, p_slug = slug, p_title = slug, p_excerpt = [],
     p_markdown = [], p_html = slug, p_status = st, p_published = pub, p_metadata = Some (JObj []),
     p_created = 0, p_updated = 0\<rparr>"

definition sample_public :: db where
  "sample_public = empty_db\<lparr>
     tenants := [\<lparr>t_id = 1, t_slug = ''acme'', t_name = ''Acme'', t_settings = JObj [], t_version = 1, t_created = 0, t_updated = 0\<rparr>],
     users := [\<lparr>us_id = 5, us_email = ''ann@example.com'', us_password = None, us_display = ''Ann'', us_super = False, us_created = 0\<rparr>],
     posts := [sample_entry 11 ''one'' PostPublished (Some 10), sample_entry 12 ''two'' PostDraft None,
               sample_entry 13 ''three'' PostPublished (Some 20)]\<rparr>"

definition sample_api :: api where
  "sample_api = api_new 1 ''https://media.example.com/''"

lemmas sample_public_defs = sample_public_def sample_entry_def empty_db_def sample_api_def api_new_def default_page_size_def
  max_page_size_def

text \<open>
  A handler's answer depends on the condition of the request in one place only: it is the conditional
  answer of a tag and a body, or one without a tag.
\<close>

definition conditional_answer :: "env \<Rightarrow> (string \<Rightarrow> error + response) \<Rightarrow> bool" where
  "conditional_answer E f \<longleftrightarrow>
     (\<exists>ps b. \<forall>inm. f inm = Inr (conditional inm (etag E ps) b)) \<or>
     (\<exists>x. \<forall>inm. f inm = x \<and> (\<forall>r. x = Inr r \<longrightarrow> rs_etag r = None \<and> 400 \<le> rs_status r))"

lemma conditional_hit:
  "rs_status (conditional [] (etag E ps) b) = 200 \<and>
   conditional (quoted (etag E ps)) (etag E ps) b = not_modified (etag E ps)"
  by (simp add: conditional_def etag_matches_quoted ok_response_def) (simp add: etag_matches_def)

lemma conditional_answer_tag: "(\<And>inm. f inm = Inr (conditional inm (etag E ps) b)) \<Longrightarrow> conditional_answer E f"
  unfolding conditional_answer_def by blast

lemma conditional_answer_const:
  "(\<And>inm. f inm = x) \<Longrightarrow> (\<And>r. x = Inr r \<Longrightarrow> rs_etag r = None \<and> 400 \<le> rs_status r) \<Longrightarrow> conditional_answer E f"
  unfolding conditional_answer_def by blast

lemma conditional_answerI:
  assumes "\<And>inm. h inm d = and_then m (\<lambda>x. ret (conditional inm (etag E (ps x)) (b x))) d"
  shows "conditional_answer E (\<lambda>inm. fst (h inm d))"
proof (cases "fst (m d)")
  case (Inl e)
  then show ?thesis
    by (intro conditional_answer_const [of _ "Inl e"]) (auto simp: assms and_then_def split: prod.splits)
next
  case (Inr x)
  then show ?thesis
    by (intro conditional_answer_tag [of _ E "ps x" "b x"]) (auto simp: assms and_then_def ret_def split: prod.splits)
qed

lemma conditional_error: "400 \<le> n \<Longrightarrow> conditional_answer E (\<lambda>inm. fst (ret (error_response n msg) d))"
  by (rule conditional_answer_const) (auto simp: error_response_def ret_def)

lemma conditional_if:
  "400 \<le> n \<Longrightarrow> conditional_answer E (\<lambda>inm. fst (h inm d)) \<Longrightarrow>
     conditional_answer E (\<lambda>inm. fst ((if c then ret (error_response n msg) else h inm) d))"
  using conditional_error [of n E msg d] by (cases c) simp_all

lemma or_not_found_conditional:
  assumes "conditional_answer E (\<lambda>inm. fst (h inm d))"
  shows "conditional_answer E (\<lambda>inm. fst (or_not_found msg (h inm) d))"
proof -
  have eq: "fst (or_not_found msg (h inm) d) = (case fst (h inm d) of
      Inr r \<Rightarrow> Inr r | Inl e \<Rightarrow> if errors_is e ErrNoRows then Inr (error_response 404 msg) else Inl e)" for inm
    by (auto simp: or_not_found_def handle_def ret_def fail_def split: prod.splits sum.splits)
  from assms consider ps b where "\<forall>inm. fst (h inm d) = Inr (conditional inm (etag E ps) b)"
    | x where "\<forall>inm. fst (h inm d) = x" "\<forall>r. x = Inr r \<longrightarrow> rs_etag r = None \<and> 400 \<le> rs_status r"
    unfolding conditional_answer_def by blast
  then show ?thesis
  proof cases
    case 1
    then show ?thesis by (intro conditional_answer_tag) (simp add: eq)
  next
    case 2
    then show ?thesis
      by (intro conditional_answer_const) (auto simp: eq error_response_def split: sum.splits if_splits)
  qed
qed

lemma handlers_conditional:
  "conditional_answer E (\<lambda>inm. fst (get_tenant_post E a inm slug t d))"
  "conditional_answer E (\<lambda>inm. fst (get_tenant_html E inm slug t d))"
  "conditional_answer E (\<lambda>inm. fst (site_tenant E inm t d))"
  "conditional_answer E (\<lambda>inm. fst (list_tenant E a cc \<lparr>rq_tag = tag, rq_before = before, rq_if_none_match = inm\<rparr> t d))"
proof -
  show "conditional_answer E (\<lambda>inm. fst (get_tenant_post E a inm slug t d))"
    unfolding get_tenant_post_def post_etag_def
    unfolding case_prod_beta
    by (intro conditional_if or_not_found_conditional conditional_answerI, simp) (rule refl)
  show "conditional_answer E (\<lambda>inm. fst (get_tenant_html E inm slug t d))"
    unfolding get_tenant_html_def post_etag_def
    by (intro conditional_if or_not_found_conditional conditional_answerI, simp) (rule refl)
  show "conditional_answer E (\<lambda>inm. fst (site_tenant E inm t d))"
    unfolding site_tenant_def by (intro or_not_found_conditional conditional_answerI) (rule refl)
  show "conditional_answer E (\<lambda>inm. fst (list_tenant E a cc \<lparr>rq_tag = tag, rq_before = before, rq_if_none_match = inm\<rparr> t d))"
  proof (cases "if before = [] then Inr None else map_sum id Some (decode_cursor cc before) :: error + cursor option")
    case (Inl e)
    then show ?thesis by (simp only: list_tenant_def list_request.select_convs sum.case) (rule conditional_error, simp)
  next
    case (Inr cur)
    let ?k = "\<lambda>rows. if length rows > ap_size a then take (ap_size a) rows else rows"
    have "list_tenant E a cc \<lparr>rq_tag = tag, rq_before = before, rq_if_none_match = inm\<rparr> t d =
      and_then (and_then (fetch_page E a t tag cur) (\<lambda>rv. and_then (fetch_first_images E a t (map p_id (?k (fst rv))))
          (\<lambda>imgs. ret (rv, imgs))))
        (\<lambda>x. ret (conditional inm (etag E [int_string (snd (fst x)), before, tag, itoa (ap_size a)])
           (ListBody (map (list_item (snd x)) (?k (fst (fst x))))
              (if length (fst (fst x)) > ap_size a then next_cursor cc (?k (fst (fst x))) else [])))) d" for inm
      unfolding list_tenant_def list_request.select_convs Inr sum.case
      by (auto simp: and_then_def Let_def ret_def split: prod.splits sum.splits)
    then show ?thesis by (rule conditional_answerI)
  qed
qed

lemma conditional_answer_304:
  assumes "conditional_answer E f" "f inm = Inr r" "rs_status r = 304"
  shows "rs_etag r \<noteq> None"
  using assms(1) unfolding conditional_answer_def
proof (elim disjE exE)
  fix ps b
  assume "\<forall>inm. f inm = Inr (conditional inm (etag E ps) b)"
  then have "r = conditional inm (etag E ps) b" using assms(2) by simp
  then show ?thesis using assms(3) by (auto simp: conditional_def not_modified_def ok_response_def split: if_splits)
next
  fix x
  assume *: "\<forall>inm. f inm = x \<and> (\<forall>r. x = Inr r \<longrightarrow> rs_etag r = None \<and> 400 \<le> rs_status r)"
  then have "x = Inr r" using assms(2) by metis
  then show ?thesis using * assms(3) by auto
qed

text \<open>A client that follows the cursors meets every published post once, newest first.\<close>

lemma crawl_complete:
  assumes "has_tenant d t" "CHR 0x00 \<notin> set tag" "0 < ap_size a" "distinct (map p_id (posts d))"
    and "\<forall>p \<in> set (posts d). p_status p = PostPublished \<longrightarrow> datable p \<and> carries cc (cursor_of p)"
  shows "map lp_slug (crawl E a cc tag t d (length (posts d) + 1) []) =
    map p_slug (newest_first (filter (listed (ro_tx E t) t tag) (posts d)))"
proof -
  let ?rows = "filter (listed (ro_tx E t) t tag) (posts d)"
  obtain b where b: "find (\<lambda>x. t_id x = t) (tenants d) = Some b"
    using assms(1) by (cases "find (\<lambda>x. t_id x = t) (tenants d)") (auto simp: has_tenant_def dest: find_NoneD)
  have dat: "datable p \<and> carries cc (cursor_of p)" if "p \<in> set (newest_first ?rows)" for p
    using that assms(5) by (auto simp: newest_first_def listed_def)
  have "descending (newest_first ?rows)"
    by (rule newest_first_descending)
      (use assms(4) dat in \<open>auto simp: distinct_map_filter newest_first_def datable_def\<close>)
  moreover have "length (newest_first ?rows) < length (posts d) + 1"
    by (simp add: newest_first_def le_imp_less_Suc)
  moreover have "accepted_cursor cc [] None" by (simp add: accepted_cursor_def)
  moreover have "filter (at_cursor None) (newest_first ?rows) = newest_first ?rows"
    by (simp add: at_cursor_def [abs_def])
  ultimately show ?thesis
    using crawl_suffix [OF b assms(2,3) refl _ dat] by blast
qed

section \<open>Properties\<close>

text \<open>
  C26. Only published posts are served: a list, a post or its HTML served to the public shows posts of
  the requested tenant that are published, and an unpublished or foreign post is answered like an
  unknown slug, with 404.
\<close>

theorem only_published_served:
  "(fst (get_tenant_post E a inm slug t d) = Inr r \<and> rs_status r \<noteq> 404 \<longrightarrow>
      (\<exists>p \<in> set (posts d). p_tenant p = t \<and> p_slug p = slug \<and> p_status p = PostPublished)) \<and>
    (fst (get_tenant_html E inm slug t d) = Inr r \<and> rs_status r \<noteq> 404 \<longrightarrow>
      (\<exists>p \<in> set (posts d). p_tenant p = t \<and> p_slug p = slug \<and> p_status p = PostPublished)) \<and>
    (fst (list_tenant E a cc rq t d) = Inr r \<and> rs_body r = ListBody items nxt \<longrightarrow>
      (\<forall>i \<in> set items. \<exists>p \<in> set (posts d). p_tenant p = t \<and> p_slug p = lp_slug i \<and> p_status p = PostPublished))"
proof -
  let ?q = "tx_of E True (tenant_scope t)"
  have one: "\<exists>p \<in> set (posts d). p_tenant p = t \<and> p_slug p = slug \<and> p_status p = PostPublished"
    if "find P (posts d) = Some p" "\<And>p. P p \<Longrightarrow> published_at_slug ?q t slug p" for P p
    using find_SomeD [OF that(1)] that(2) by (auto simp: published_at_slug_def)
  have "\<exists>p \<in> set (posts d). p_tenant p = t \<and> p_slug p = slug \<and> p_status p = PostPublished"
    if "fst (get_tenant_post E a inm slug t d) = Inr r" "rs_status r \<noteq> 404"
    using that one
    by (auto simp: get_tenant_post_def or_not_found_def handle_def and_then_def scoped_def run_tx_def get_query_def
        error_response_def split: if_splits prod.splits sum.splits option.splits)
  moreover have "\<exists>p \<in> set (posts d). p_tenant p = t \<and> p_slug p = slug \<and> p_status p = PostPublished"
    if "fst (get_tenant_html E inm slug t d) = Inr r" "rs_status r \<noteq> 404"
    using that one
    by (auto simp: get_tenant_html_def or_not_found_def handle_def and_then_def scoped_def run_tx_def html_query_def
        error_response_def split: if_splits prod.splits sum.splits option.splits)
  moreover have "\<forall>i \<in> set items. \<exists>p \<in> set (posts d). p_tenant p = t \<and> p_slug p = lp_slug i \<and> p_status p = PostPublished"
    if "fst (list_tenant E a cc rq t d) = Inr r" "rs_body r = ListBody items nxt"
    using list_tenant_items [OF that] unfolding listed_def by metis
  ultimately show ?thesis by blast
qed

lemma only_published_served_witness:
  "\<exists>r. fst (get_tenant_post sample_env sample_api [] ''one'' 1 sample_public) = Inr r \<and> rs_status r = 200 \<and>
     (\<exists>p. p \<in> set (posts sample_public) \<and> p_tenant p = 1 \<and> p_slug p = ''one'' \<and> p_status p = PostPublished)"
proof -
  have "\<exists>r. fst (get_tenant_post sample_env sample_api [] ''one'' 1 sample_public) = Inr r \<and> rs_status r = 200"
    by (simp add: get_tenant_post_def or_not_found_def handle_def and_then_def scoped_def run_tx_def get_query_def
        read_stmt_def scan_row_def sample_public_def sample_entry_def empty_db_def tx_of_def tenant_scope_def visible_def
        published_at_slug_def has_user_def conditional_def etag_matches_def ok_response_def sample_env_def ret_def)
  then obtain r where r: "fst (get_tenant_post sample_env sample_api [] ''one'' 1 sample_public) = Inr r" "rs_status r = 200"
    by blast
  then show ?thesis
    using conjunct1 [OF only_published_served [of sample_env sample_api "[]" "''one''" 1 sample_public r]] by auto
qed

text \<open>
  Revalidation hits: as long as the database is as it was, a client that sends the entity tag of a
  200 answer back gets 304 with the same tag, from the list, the post, its HTML and the site.
\<close>

theorem revalidation_hits:
  assumes "h \<in> {\<lambda>inm. list_tenant E a cc \<lparr>rq_tag = tag, rq_before = before, rq_if_none_match = inm\<rparr> t,
      \<lambda>inm. get_tenant_post E a inm slug t, \<lambda>inm. get_tenant_html E inm slug t, \<lambda>inm. site_tenant E inm t}"
    and "fst (h [] d) = Inr r" "rs_etag r = Some v"
  shows "fst (h v d) = Inr \<lparr>rs_status = 304, rs_etag = Some v, rs_body = NoBody\<rparr>"
proof -
  have "conditional_answer E (\<lambda>inm. fst (h inm d))" using assms(1) handlers_conditional by auto
  with assms(2,3) obtain ps b where "\<forall>inm. fst (h inm d) = Inr (conditional inm (etag E ps) b)"
    "r = conditional [] (etag E ps) b"
    unfolding conditional_answer_def by force
  moreover have "v = quoted (etag E ps)"
    using assms(3) calculation(2) by (auto simp: conditional_def etag_matches_def ok_response_def split: if_splits)
  ultimately show ?thesis by (simp add: conditional_def etag_matches_quoted not_modified_def)
qed

lemma revalidation_hits_witness:
  "\<exists>v. fst (site_tenant sample_env v 1 sample_public) = Inr \<lparr>rs_status = 304, rs_etag = Some v, rs_body = NoBody\<rparr>"
proof -
  have "\<exists>r v. fst (site_tenant sample_env [] 1 sample_public) = Inr r \<and> rs_etag r = Some v"
    by (simp add: site_tenant_def or_not_found_def handle_def and_then_def scoped_def run_tx_def get_tenant_def
        read_stmt_def scan_row_def sample_public_def empty_db_def tx_of_def tenant_scope_def conditional_def
        etag_matches_def ok_response_def sample_env_def ret_def etag_def etag_text_def hex_string_def numeral_2_eq_2)
  then obtain r v where "fst (site_tenant sample_env [] 1 sample_public) = Inr r" "rs_etag r = Some v" by blast
  then show ?thesis
    using revalidation_hits [of "\<lambda>inm. site_tenant sample_env inm 1"] by blast
qed

text \<open>
  A published post is served: the post and its HTML are found under their tenant and slug, and the
  answer is the stored post with its author's name and the images that have variants, by position.
\<close>

theorem published_post_served:
  assumes "distinct (map (\<lambda>p. (p_tenant p, p_slug p)) (posts d))" "distinct (map us_id (users d))"
    and "p \<in> set (posts d)" "p_status p = PostPublished" "u \<in> set (users d)" "us_id u = p_author p" "p_slug p \<noteq> []"
    and "p_tenant p \<noteq> nil_uuid"
  shows "fst (get_tenant_post E a [] (p_slug p) (p_tenant p) d) = Inr (ok_response (PostBody
       \<lparr>pb_slug = p_slug p, pb_title = p_title p, pb_excerpt = p_excerpt p, pb_html = p_html p,
        pb_author = us_display u, pb_published = p_published p,
        pb_images = decode_images a (map pi_variants (sort_key pi_position
          (filter (\<lambda>im. pi_post im = p_id p \<and> pi_tenant im = p_tenant p) (post_images d))))\<rparr>) (post_etag E p)) \<and>
    fst (get_tenant_html E [] (p_slug p) (p_tenant p) d) = Inr (ok_response (HtmlBody (p_html p)) (post_etag E p))"
proof -
  let ?q = "ro_tx E (p_tenant p)"
  have "visible ?q t \<longleftrightarrow> t = p_tenant p" for t
    using assms(8) by (auto simp: visible_def tenant_scope_def)
  note vis = this
  have same: "x = p" if "x \<in> set (posts d)" "published_at_slug ?q (p_tenant p) (p_slug p) x" for x
    using that key_unique [OF assms(1) that(1) assms(3)] by (simp add: published_at_slug_def)
  have "has_user d (p_author p)" using assms(5,6) by (auto simp: has_user_def)
  moreover have "published_at_slug ?q (p_tenant p) (p_slug p) p"
    using assms(4) vis by (simp add: published_at_slug_def)
  ultimately have f: "find (published_at_slug ?q (p_tenant p) (p_slug p)) (posts d) = Some p"
    "find (\<lambda>x. published_at_slug ?q (p_tenant p) (p_slug p) x \<and> has_user d (p_author x)) (posts d) = Some p"
    by (intro find_one [OF assms(3)]; use same in blast)+
  have u: "find (\<lambda>x. us_id x = p_author p) (users d) = Some u"
    using assms(5,6) key_unique [OF assms(2)] by (intro find_one) auto
  have im: "filter (\<lambda>im. visible ?q (pi_tenant im) \<and> pi_post im = p_id p \<and> pi_tenant im = p_tenant p) (post_images d) =
      filter (\<lambda>im. pi_post im = p_id p \<and> pi_tenant im = p_tenant p) (post_images d)"
    by (rule filter_cong) (use vis in auto)
  show ?thesis
    using assms(7) f u im
    by (simp add: get_tenant_post_def get_tenant_html_def or_not_found_def handle_def and_then_def scoped_def run_tx_def
        get_query_def html_query_def read_stmt_def scan_row_def conditional_def etag_matches_def ret_def)
qed

lemma published_post_served_witness:
  "fst (get_tenant_html sample_env [] ''one'' 1 sample_public) =
     Inr (ok_response (HtmlBody ''one'') (post_etag sample_env (sample_entry 11 ''one'' PostPublished (Some 10))))"
  using published_post_served [of sample_public "sample_entry 11 ''one'' PostPublished (Some 10)" "hd (users sample_public)"
      sample_env sample_api]
  by (simp add: sample_public_def sample_entry_def empty_db_def)

end
