(* ===== verification/Http.thy ===== *)
theory Http
  imports DocImport Media PublicApi
begin

text \<open>
  What the handlers of internal/api read and write: requests, replies, the error envelope of
  errors.go, the decoding of JSON bodies, the session token and the rate limiter of middleware.go.
\<close>

section \<open>Requests\<close>

text \<open>
  The body as \<open>encoding/json\<close> sees its first 1 MiB: it cannot be read, it is not one JSON value
  (with the decoder's message), or it is. A multipart form has a file with its name and content type.
\<close>

datatype payload = Unreadable string | Garbled string | Parsed json
datatype upload = NoFile | BrokenFile | File bytes string string

text \<open>
  \<open>hr_path\<close>: the decoded segments of a clean path. An absent header is empty; \<open>hr_query\<close> are the
  parameters of the URL in order.
\<close>

record request =
  hr_method :: string
  hr_path :: "string list"
  hr_remote :: string
  hr_authorization :: string
  hr_cookies :: "(string \<times> string) list"
  hr_origin :: string
  hr_if_none_match :: string
  hr_content_type :: string
  hr_query :: "(string \<times> string) list"
  hr_body :: payload
  hr_file :: upload

text \<open>\<open>Query().Get\<close> and \<open>r.Cookie\<close>: the first of the name.\<close>

definition query_value :: "request \<Rightarrow> string \<Rightarrow> string" where
  "query_value r k = (case map_of (hr_query r) k of None \<Rightarrow> [] | Some v \<Rightarrow> v)"

section \<open>Replies\<close>

record post_out =
  po_id :: uuid
  po_tenant :: uuid
  po_author :: uuid
  po_slug :: string
  po_title :: string
  po_excerpt :: string
  po_markdown :: string
  po_html :: string
  po_status :: string
  po_published :: "time option"
  po_metadata :: "json option"
  po_created :: time
  po_updated :: time

datatype out =
    NoOut
  | ErrorOut string string
  | OkOut
  | UserOut uuid
  | TokenOut string
  | UrlOut string
  | SignedInOut callback_result
  | MeOut uuid "uuid option" string bool "(uuid \<times> string \<times> string \<times> string) list"
  | ScopeOut uuid
  | PostsOut "post_out list"
  | PostOut post_out
  | PageOut bytes
  | PresignedOut presigned
  | ConfirmedOut
  | IdOut uuid
  | ImportOut import_result
  | MembersOut "(uuid \<times> string \<times> string \<times> string) list"
  | TenantsOut "tenant list"
  | TenantOut tenant
  | CreatedOut uuid string
  | StatusOut
  | PlainOut string
  | PublicOut response

text \<open>A Set-Cookie of the session: its value, and whether it expires the cookie.\<close>

record reply =
  rp_status :: nat
  rp_out :: out
  rp_cookie :: "(string \<times> bool) option"
  rp_cors :: "string option"

definition reply_of :: "nat \<Rightarrow> out \<Rightarrow> reply" where
  "reply_of st b = \<lparr>rp_status = st, rp_out = b, rp_cookie = None, rp_cors = None\<rparr>"

abbreviation "code_not_found \<equiv> ''not_found''"
abbreviation "code_forbidden \<equiv> ''forbidden''"
abbreviation "code_unauthorized \<equiv> ''unauthorized''"
abbreviation "code_conflict \<equiv> ''conflict''"
abbreviation "code_validation \<equiv> ''validation''"
abbreviation "code_internal \<equiv> ''internal''"
abbreviation "code_rate_limited \<equiv> ''too_many_requests''"

definition write_error :: "nat \<Rightarrow> string \<Rightarrow> string \<Rightarrow> reply" where
  "write_error st code msg = reply_of st (ErrorOut code msg)"

abbreviation invalid :: "string \<Rightarrow> reply" where
  "invalid msg \<equiv> write_error 422 code_validation msg"

definition code_for_status :: "nat \<Rightarrow> string" where
  "code_for_status st =
     (if st = 404 then code_not_found
      else if st = 403 then code_forbidden
      else if st = 401 then code_unauthorized
      else if st = 409 then code_conflict
      else if st = 422 then code_validation
      else if st = 429 then code_rate_limited
      else code_internal)"

definition map_error :: "error \<Rightarrow> nat \<times> string" where
  "map_error e =
     (if list_ex (errors_is e) [ErrPostNotFound, ErrImportNotFound, ErrImageNotFound, ErrNoRows]
        then (404, ''not found'')
      else if list_ex (errors_is e) [ErrForbidden, ErrNoTenant] then (403, ''forbidden'')
      else if list_ex (errors_is e) [ErrSlugTaken, ErrSlugImmutable, ErrAlreadyApplied,
          ErrIdentityTaken, ErrNoInvitation, ErrInvited] then (409, ''conflict'')
      else if list_ex (errors_is e) [ErrEmptyContent, ErrNotConverted, ErrInvalidSource, ErrInvalidMime,
          ErrPayloadTooLarge, ErrUnknownProvider, ErrDisallowedRedirect] then (422, ''validation failed'')
      else if list_ex (errors_is e) [ErrInvalidFlow, ErrProviderDenied, ErrExchangeFailed,
          ErrIdentityClaims, ErrUnverifiedEmail, ErrRefreshFailed, ErrNoToken, ErrScopeMissing]
        then (401, ''unauthorized'')
      else (500, ''internal server error''))"

definition service_error :: "error \<Rightarrow> reply" where
  "service_error e = (case map_error e of (st, msg) \<Rightarrow> write_error st (code_for_status st) msg)"

text \<open>The answer to what a service did.\<close>

type_synonym answer = "db \<Rightarrow> reply \<times> db"

definition say :: "reply \<Rightarrow> answer" where
  "say r = (\<lambda>d. (r, d))"

definition answer_or :: "(error \<Rightarrow> reply) \<Rightarrow> 'a act \<Rightarrow> ('a \<Rightarrow> reply) \<Rightarrow> answer" where
  "answer_or h m k = (\<lambda>d. case m d of (Inl e, d') \<Rightarrow> (h e, d') | (Inr x, d') \<Rightarrow> (k x, d'))"

abbreviation answer :: "'a act \<Rightarrow> ('a \<Rightarrow> reply) \<Rightarrow> answer" where
  "answer \<equiv> answer_or service_error"

section \<open>JSON bodies\<close>

text \<open>
  \<open>decodeJSON\<close>: \<open>Decode\<close> into a struct with unknown fields rejected. A member's name is matched to a
  field's without regard to case; members with the same name are decoded one after the other, where
  null leaves a string or an identifier as it is and sets a pointer to nil. Of the decoder's messages
  only the kind is kept.
\<close>

definition decode_struct :: "(string \<Rightarrow> string \<Rightarrow> bool) \<Rightarrow> string list \<Rightarrow> payload \<Rightarrow> string + (string \<times> json) list" where
  "decode_struct alike names b =
     (case b of
        Unreadable msg \<Rightarrow> Inl msg
      | Garbled msg \<Rightarrow> Inl msg
      | Parsed JNull \<Rightarrow> Inr []
      | Parsed (JObj kvs) \<Rightarrow>
          if list_all (\<lambda>(k, v). list_ex (equal_fold alike k) names) kvs then Inr kvs
          else Inl ''json: unknown field''
      | Parsed j \<Rightarrow> Inl ''json: cannot unmarshal'')"

fun decode_each :: "(json \<Rightarrow> 'a \<Rightarrow> 'a option) \<Rightarrow> json list \<Rightarrow> 'a \<Rightarrow> string + 'a" where
  "decode_each f [] x = Inr x"
| "decode_each f (j # js) x =
     (case f j x of None \<Rightarrow> Inl ''json: cannot unmarshal'' | Some y \<Rightarrow> decode_each f js y)"

definition decode_field ::
  "(string \<Rightarrow> string \<Rightarrow> bool) \<Rightarrow> (string \<times> json) list \<Rightarrow> string \<Rightarrow> (json \<Rightarrow> 'a \<Rightarrow> 'a option) \<Rightarrow> 'a \<Rightarrow> string + 'a" where
  "decode_field alike kvs name f x = decode_each f (map snd (filter (\<lambda>(k, v). equal_fold alike k name) kvs)) x"

fun as_string :: "json \<Rightarrow> string \<Rightarrow> string option" where
  "as_string (JStr s) x = Some s"
| "as_string JNull x = Some x"
| "as_string j x = None"

definition as_uuid :: "(string \<Rightarrow> uuid option) \<Rightarrow> json \<Rightarrow> uuid \<Rightarrow> uuid option" where
  "as_uuid parse j x = (case j of JStr s \<Rightarrow> parse s | JNull \<Rightarrow> Some x | _ \<Rightarrow> None)"

definition as_int64 :: "json \<Rightarrow> int \<Rightarrow> int option" where
  "as_int64 j x = (case j of JNum s \<Rightarrow> go_atoi s | JNull \<Rightarrow> Some x | _ \<Rightarrow> None)"

text \<open>A pointer field, and \<open>json.RawMessage\<close>, which takes any value, null too.\<close>

definition as_pointer :: "(json \<Rightarrow> 'a \<Rightarrow> 'a option) \<Rightarrow> 'a \<Rightarrow> json \<Rightarrow> 'a option \<Rightarrow> 'a option option" where
  "as_pointer f zero j x =
     (if j = JNull then Some None
      else map_option Some (f j (case x of None \<Rightarrow> zero | Some v \<Rightarrow> v)))"

definition as_raw :: "json \<Rightarrow> json option \<Rightarrow> json option option" where
  "as_raw j x = Some (Some j)"

text \<open>The decoders of a struct's fields, one after the other.\<close>

definition field_then :: "string + 'a \<Rightarrow> ('a \<Rightarrow> string + 'b) \<Rightarrow> string + 'b" where
  "field_then r f = (case r of Inl e \<Rightarrow> Inl e | Inr x \<Rightarrow> f x)"

definition with_body :: "string + 'a \<Rightarrow> ('a \<Rightarrow> answer) \<Rightarrow> answer" where
  "with_body r k = (case r of Inl msg \<Rightarrow> say (invalid msg) | Inr x \<Rightarrow> k x)"

section \<open>The session token\<close>

definition session_token :: "string \<Rightarrow> request \<Rightarrow> string" where
  "session_token name r =
     (let h = hr_authorization r
      in if length h > 7 \<and> map lower_byte (take 7 h) = ''bearer '' then trim_space (drop 7 h)
         else case map_of (hr_cookies r) name of Some v \<Rightarrow> v | None \<Rightarrow> [])"

text \<open>
  \<open>auth\<close>: the session's user, resolved to an actor; a user without a tenant in a session without a
  scope gets an actor that can do nothing but choose one.
\<close>

definition session_actor :: "uuid \<Rightarrow> actor" where
  "session_actor uid = \<lparr>a_user = uid, a_tenant = None, a_role = RoleAuthor, a_platform = False\<rparr>"

definition authenticate :: "env \<Rightarrow> string \<Rightarrow> db \<Rightarrow> actor option" where
  "authenticate E tok d =
     (case fst (verify_session E tok d) of
        Inl e \<Rightarrow> None
      | Inr (uid, tid) \<Rightarrow>
          (case fst (resolve_actor uid tid d) of
             Inr a \<Rightarrow> Some a
           | Inl e \<Rightarrow> if errors_is e ErrNotMember \<and> tid = nil_uuid then Some (session_actor uid) else None))"

section \<open>The rate limiter\<close>

text \<open>
  golang.org/x/time/rate as a parameter: a fresh bucket of the server's rate and burst, and what
  taking from a bucket at a time answers and leaves. The map keeps each key's bucket with its last use.
\<close>

record 'b bucket_ops =
  bk_fresh :: 'b
  bk_take :: "time \<Rightarrow> 'b \<Rightarrow> bool \<times> 'b"

type_synonym 'b buckets = "string \<Rightarrow> ('b \<times> time) option"

definition idle_ttl :: time where
  "idle_ttl = 600 * second"

definition allow :: "'b bucket_ops \<Rightarrow> time \<Rightarrow> string \<Rightarrow> 'b buckets \<Rightarrow> bool \<times> 'b buckets" where
  "allow K now key m =
     (let (ok, b) = bk_take K now (case m key of None \<Rightarrow> bk_fresh K | Some (b, used) \<Rightarrow> b)
      in (ok, m(key \<mapsto> (b, now))))"

definition janitor :: "time \<Rightarrow> 'b buckets \<Rightarrow> 'b buckets" where
  "janitor now m =
     (\<lambda>key. case m key of None \<Rightarrow> None | Some (b, used) \<Rightarrow> if now - used > idle_ttl then None else Some (b, used))"

text \<open>\<open>net.SplitHostPort\<close>, the host part.\<close>

fun last_index :: "char \<Rightarrow> string \<Rightarrow> nat option" where
  "last_index c [] = None"
| "last_index c (x # s) =
     (case last_index c s of Some i \<Rightarrow> Some (Suc i) | None \<Rightarrow> if x = c then Some 0 else None)"

definition split_host :: "string \<Rightarrow> string option" where
  "split_host hp =
     (case last_index CHR '':'' hp of
        None \<Rightarrow> None
      | Some i \<Rightarrow>
          if hd hp = CHR ''['' then
            let j = length (takeWhile (\<lambda>c. c \<noteq> CHR '']'') hp) in
            if j = length hp \<or> Suc j \<noteq> i \<or> CHR ''['' \<in> set (drop 1 hp) \<or> CHR '']'' \<in> set (drop (Suc j) hp) then None
            else Some (take (j - 1) (drop 1 hp))
          else
            let host = take i hp in
            if CHR '':'' \<in> set host \<or> CHR ''['' \<in> set hp \<or> CHR '']'' \<in> set hp then None
            else Some host)"

definition client_ip :: "request \<Rightarrow> string" where
  "client_ip r = (case split_host (hr_remote r) of None \<Rightarrow> hr_remote r | Some h \<Rightarrow> h)"

end
