(* ===== verification/Handlers.thy ===== *)
theory Handlers
  imports Http
begin

text \<open>
  The handlers of internal/api/handlers.go for accounts, posts, media and imports: each decodes its
  request, calls one service and answers with the outcome.
\<close>

section \<open>The server and the context of a request\<close>

text \<open>
  The module graph of \<open>Deps\<close> with what the services take from outside: the decoding of the
  providers' answers, \<open>strings.EqualFold\<close> beyond ASCII, \<open>uuid.Parse\<close>, \<open>url.URL.String\<close>,
  \<open>mime.ExtensionsByType\<close>, the object store of imports, and whether the database answers a ping.
\<close>

record server =
  sv_posts :: posts_config
  sv_media :: media_config
  sv_imports :: import_config
  sv_hasher :: hasher
  sv_oauth :: "oauth option"
  sv_idp :: idp
  sv_pub :: api
  sv_codec :: codec
  sv_cookie :: string
  sv_origins :: "string list"
  sv_alike :: "string \<Rightarrow> string \<Rightarrow> bool"
  sv_uuid :: "string \<Rightarrow> uuid option"
  sv_render :: "url \<Rightarrow> string \<Rightarrow> string \<Rightarrow> string"
  sv_exts :: "string \<Rightarrow> string list"
  sv_put :: "string \<Rightarrow> bytes \<Rightarrow> error option"
  sv_ping :: bool

text \<open>What a request draws from random sources: identifiers, and bytes for tokens and nonces.\<close>

record mint =
  mt_id :: uuid
  mt_object :: uuid
  mt_job :: uuid
  mt_raw :: bytes
  mt_salt :: bytes
  mt_state :: bytes
  mt_verifier :: bytes
  mt_nonce1 :: bytes
  mt_nonce2 :: bytes

text \<open>The request, the values of its path, and what \<open>auth\<close> attaches to it.\<close>

record call =
  cx_request :: request
  cx_values :: "string list"
  cx_actor :: actor
  cx_token :: string

type_synonym handler = "server \<Rightarrow> env \<Rightarrow> mint \<Rightarrow> call \<Rightarrow> answer"

abbreviation scope_of :: "call \<Rightarrow> scope" where
  "scope_of c \<equiv> scope_from_actor (cx_actor c)"

definition path_id :: "server \<Rightarrow> call \<Rightarrow> uuid option" where
  "path_id S c = (case cx_values c of [] \<Rightarrow> None | v # _ \<Rightarrow> sv_uuid S v)"

definition with_id :: "server \<Rightarrow> call \<Rightarrow> string \<Rightarrow> (uuid \<Rightarrow> answer) \<Rightarrow> answer" where
  "with_id S c msg k = (case path_id S c of None \<Rightarrow> say (invalid msg) | Some i \<Rightarrow> k i)"

definition with_cap :: "actor \<Rightarrow> capability \<Rightarrow> answer \<Rightarrow> answer" where
  "with_cap a cp k = (if can a cp then k else say (service_error ErrForbidden))"

abbreviation struct_of :: "server \<Rightarrow> call \<Rightarrow> string list \<Rightarrow> string + (string \<times> json) list" where
  "struct_of S c names \<equiv> decode_struct (sv_alike S) names (hr_body (cx_request c))"

abbreviation string_field :: "server \<Rightarrow> (string \<times> json) list \<Rightarrow> string \<Rightarrow> string + string" where
  "string_field S kvs name \<equiv> decode_field (sv_alike S) kvs name as_string []"

abbreviation string_pointer :: "server \<Rightarrow> (string \<times> json) list \<Rightarrow> string \<Rightarrow> string + string option" where
  "string_pointer S kvs name \<equiv> decode_field (sv_alike S) kvs name (as_pointer as_string []) None"

abbreviation uuid_field :: "server \<Rightarrow> (string \<times> json) list \<Rightarrow> string \<Rightarrow> string + uuid" where
  "uuid_field S kvs name \<equiv> decode_field (sv_alike S) kvs name (as_uuid (sv_uuid S)) nil_uuid"

section \<open>Accounts\<close>

definition creds_request :: "server \<Rightarrow> call \<Rightarrow> string + string \<times> string" where
  "creds_request S c =
     field_then (struct_of S c [''email'', ''password'']) (\<lambda>kvs.
       field_then (string_field S kvs ''email'') (\<lambda>email.
         field_then (string_field S kvs ''password'') (\<lambda>pw. Inr (email, pw))))"

definition signup_error :: "error \<Rightarrow> reply" where
  "signup_error e =
     (if errors_is e ErrInvited then write_error 409 code_conflict ''auth: a pending invitation exists for this email''
      else if is_unique_violation e then write_error 409 code_conflict ''email already registered''
      else service_error e)"

definition handle_signup :: handler where
  "handle_signup S E M c =
     with_body (creds_request S c) (\<lambda>(email, pw).
       if email = [] \<or> pw = [] then say (invalid ''email and password are required'')
       else answer_or signup_error (signup E (sv_hasher S) (mt_salt M) (mt_id M) email pw)
         (\<lambda>uid. reply_of 201 (UserOut uid)))"

definition set_session :: "string \<Rightarrow> reply \<Rightarrow> reply" where
  "set_session tok r = r\<lparr>rp_cookie := Some (tok, False)\<rparr>"

definition clear_session :: "reply \<Rightarrow> reply" where
  "clear_session r = r\<lparr>rp_cookie := Some ([], True)\<rparr>"

definition handle_login :: handler where
  "handle_login S E M c =
     with_body (creds_request S c) (\<lambda>(email, pw).
       if email = [] \<or> pw = [] then say (invalid ''email and password are required'')
       else answer_or (\<lambda>e. write_error 401 code_unauthorized ''invalid credentials'')
         (login E (sv_hasher S) (mt_raw M) email pw)
         (\<lambda>tok. set_session tok (reply_of 200 (TokenOut tok))))"

definition handle_oauth_start :: handler where
  "handle_oauth_start S E M c =
     (case sv_oauth S of
        None \<Rightarrow> say (write_error 404 code_not_found ''oauth not configured'')
      | Some P \<Rightarrow>
          with_body
            (field_then (struct_of S c [''provider'', ''redirect'']) (\<lambda>kvs.
               field_then (string_field S kvs ''provider'') (\<lambda>p.
                 field_then (string_field S kvs ''redirect'') (\<lambda>r. Inr (p, r)))))
            (\<lambda>(provider, redirect).
               if provider = [] then say (invalid ''provider is required'')
               else answer
                 (oauth_start E (sv_idp S) (sv_alike S) P (mt_state M) (mt_verifier M) (mt_id M) provider redirect
                    (session_token (sv_cookie S) (cx_request c)) [])
                 (\<lambda>url. reply_of 200 (UrlOut url))))"

definition handle_oauth_callback :: handler where
  "handle_oauth_callback S E M c =
     (case sv_oauth S of
        None \<Rightarrow> say (write_error 404 code_not_found ''oauth not configured'')
      | Some P \<Rightarrow>
          answer
            (oauth_callback E (sv_idp S) P (mt_id M) (mt_nonce1 M) (mt_nonce2 M) (mt_raw M)
               (query_value (cx_request c) ''state'') (query_value (cx_request c) ''code'')
               (session_token (sv_cookie S) (cx_request c)))
            (\<lambda>res. set_session (cr_session res) (reply_of 200 (SignedInOut res))))"

definition handle_logout :: handler where
  "handle_logout S E M c = (\<lambda>d. (clear_session (reply_of 200 OkOut), snd (logout E (cx_token c) d)))"

definition role_name :: "actor \<Rightarrow> string" where
  "role_name a = (if a_tenant a \<noteq> None then role_string (a_role a) else [])"

definition nil_or_uuid :: "uuid \<Rightarrow> uuid option" where
  "nil_or_uuid i = (if i = nil_uuid then None else Some i)"

definition handle_me :: handler where
  "handle_me S E M c =
     (let a = cx_actor c
      in answer (membership_views (a_user a)) (\<lambda>ms.
           reply_of 200 (MeOut (a_user a) (nil_or_uuid (sc_tenant (scope_of c))) (role_name a) (a_platform a) ms)))"

definition handle_set_tenant :: handler where
  "handle_set_tenant S E M c =
     with_body (field_then (struct_of S c [''tenant_id'']) (\<lambda>kvs. uuid_field S kvs ''tenant_id'')) (\<lambda>t.
       if t = nil_uuid then say (invalid ''tenant_id is required'')
       else (\<lambda>d.
         let a = cx_actor c;
             known = (case fst (membership_role (a_user a) t d) of Inl _ \<Rightarrow> False | Inr _ \<Rightarrow> True)
         in if \<not> a_platform a \<and> \<not> known
            then say (write_error 403 code_forbidden ''not a member of this tenant'') d
            else answer
              (scoped_rw E unscoped (\<lambda>q. set_session_scope q (token_hash E (cx_token c)) (Some t)))
              (\<lambda>_. reply_of 200 (ScopeOut t)) d))"

section \<open>Posts\<close>

definition post_out_from :: "post \<Rightarrow> post_out" where
  "post_out_from p =
     \<lparr>po_id = p_id p, po_tenant = p_tenant p, po_author = p_author p, po_slug = p_slug p,
      po_title = p_title p, po_excerpt = p_excerpt p, po_markdown = p_markdown p, po_html = p_html p,
      po_status = post_status_string (p_status p), po_published = p_published p,
      po_metadata = Some (case p_metadata p of None \<Rightarrow> JObj [] | Some m \<Rightarrow> m),
      po_created = p_created p, po_updated = p_updated p\<rparr>"

definition summary_out :: "post_summary \<Rightarrow> post_out" where
  "summary_out s =
     \<lparr>po_id = ps_id s, po_tenant = ps_tenant s, po_author = ps_author s, po_slug = ps_slug s,
      po_title = ps_title s, po_excerpt = ps_excerpt s, po_markdown = [], po_html = [],
      po_status = post_status_string (ps_status s), po_published = ps_published s,
      po_metadata = None, po_created = ps_created s, po_updated = zero_time\<rparr>"

definition handle_posts_list :: handler where
  "handle_posts_list S E M c =
     (let v = query_value (cx_request c) ''status''
      in answer
           (svc_list E (cx_actor c) \<lparr>lf_status = (if v = [] then None else Some v), lf_author = None\<rparr>)
           (\<lambda>sums. reply_of 200 (PostsOut (map summary_out sums))))"

text \<open>The member tenant_id is decoded and not used.\<close>

definition create_request :: "server \<Rightarrow> call \<Rightarrow> string + create_input" where
  "create_request S c =
     field_then (struct_of S c [''title'', ''content_markdown'', ''slug'', ''excerpt'', ''metadata'', ''tenant_id'']) (\<lambda>kvs.
       field_then (string_field S kvs ''title'') (\<lambda>title.
         field_then (string_field S kvs ''content_markdown'') (\<lambda>md.
           field_then (string_field S kvs ''slug'') (\<lambda>slug.
             field_then (string_field S kvs ''excerpt'') (\<lambda>excerpt.
               field_then (decode_field (sv_alike S) kvs ''metadata'' as_raw None) (\<lambda>meta.
                 field_then (decode_field (sv_alike S) kvs ''tenant_id'' (as_pointer (as_uuid (sv_uuid S)) nil_uuid) None) (\<lambda>_.
                   Inr \<lparr>ci_title = title, ci_markdown = md, ci_slug = slug, ci_excerpt = excerpt,
                        ci_metadata = meta\<rparr>)))))))"

definition handle_posts_create :: handler where
  "handle_posts_create S E M c =
     with_body (create_request S c) (\<lambda>inp.
       if ci_title inp = [] then say (invalid ''title is required'')
       else answer (svc_create E (sv_posts S) (mt_id M) (cx_actor c) inp)
         (\<lambda>p. reply_of 201 (PostOut (post_out_from p))))"

definition handle_posts_get :: handler where
  "handle_posts_get S E M c =
     with_id S c ''invalid post id'' (\<lambda>pid.
       answer (svc_get E (cx_actor c) pid) (\<lambda>p. reply_of 200 (PostOut (post_out_from p))))"

definition handle_posts_html :: handler where
  "handle_posts_html S E M c =
     with_id S c ''invalid post id'' (\<lambda>pid.
       answer (svc_get E (cx_actor c) pid) (\<lambda>p. reply_of 200 (PageOut (p_html p))))"

definition update_request :: "server \<Rightarrow> call \<Rightarrow> string + update_input" where
  "update_request S c =
     field_then (struct_of S c [''title'', ''content_markdown'', ''slug'', ''excerpt'', ''metadata'']) (\<lambda>kvs.
       field_then (string_pointer S kvs ''title'') (\<lambda>title.
         field_then (string_pointer S kvs ''content_markdown'') (\<lambda>md.
           field_then (string_pointer S kvs ''slug'') (\<lambda>slug.
             field_then (string_pointer S kvs ''excerpt'') (\<lambda>excerpt.
               field_then (decode_field (sv_alike S) kvs ''metadata'' (as_pointer (\<lambda>j _. Some j) JNull) None) (\<lambda>meta.
                 Inr \<lparr>ui_title = title, ui_markdown = md, ui_slug = slug, ui_excerpt = excerpt,
                      ui_metadata = map_option Some meta\<rparr>))))))"

definition handle_posts_update :: handler where
  "handle_posts_update S E M c =
     with_id S c ''invalid post id'' (\<lambda>pid.
       with_body (update_request S c) (\<lambda>upd.
         answer (svc_update E (sv_posts S) (mt_job M) (cx_actor c) pid upd)
           (\<lambda>p. reply_of 200 (PostOut (post_out_from p)))))"

definition handle_posts_delete :: handler where
  "handle_posts_delete S E M c =
     with_id S c ''invalid post id'' (\<lambda>pid.
       answer (svc_delete E (cx_actor c) pid) (\<lambda>_. reply_of 204 NoOut))"

definition handle_posts_publish :: handler where
  "handle_posts_publish S E M c =
     with_id S c ''invalid post id'' (\<lambda>pid.
       answer (svc_publish E (sv_posts S) (mt_job M) (cx_actor c) pid)
         (\<lambda>p. reply_of 200 (PostOut (post_out_from p))))"

definition handle_posts_unpublish :: handler where
  "handle_posts_unpublish S E M c =
     with_id S c ''invalid post id'' (\<lambda>pid.
       answer (svc_unpublish E (sv_posts S) (mt_job M) (cx_actor c) pid)
         (\<lambda>p. reply_of 200 (PostOut (post_out_from p))))"

section \<open>Media\<close>

definition handle_media_presign :: handler where
  "handle_media_presign S E M c =
     with_cap (cx_actor c) CapUploadMedia
       (if sc_tenant (scope_of c) = nil_uuid then say (write_error 403 code_forbidden ''no tenant in scope'')
        else with_body
          (field_then (struct_of S c [''post_id'', ''filename'']) (\<lambda>kvs.
             field_then (uuid_field S kvs ''post_id'') (\<lambda>pid.
               field_then (string_field S kvs ''filename'') (\<lambda>name. Inr (pid, name)))))
          (\<lambda>(pid, name).
             if pid = nil_uuid \<or> name = [] then say (invalid ''post_id and filename are required'')
             else answer
               (lift_sum (presign E (sv_render S) (sv_media S) (mt_object M) (sc_tenant (scope_of c)) pid name (e_now E)))
               (\<lambda>up. reply_of 200 (PresignedOut up))))"

definition handle_media_confirm :: handler where
  "handle_media_confirm S E M c =
     with_cap (cx_actor c) CapUploadMedia
       (if sc_tenant (scope_of c) = nil_uuid then say (write_error 403 code_forbidden ''no tenant in scope'')
        else with_body
          (field_then (struct_of S c [''post_id'', ''key'', ''size_bytes'', ''mime_type'']) (\<lambda>kvs.
             field_then (uuid_field S kvs ''post_id'') (\<lambda>pid.
               field_then (string_field S kvs ''key'') (\<lambda>key.
                 field_then (decode_field (sv_alike S) kvs ''size_bytes'' as_int64 0) (\<lambda>sz.
                   field_then (string_field S kvs ''mime_type'') (\<lambda>mime. Inr (pid, key, sz, mime)))))))
          (\<lambda>(pid, key, sz, mime).
             if key = [] \<or> pid = nil_uuid then say (invalid ''post_id and key are required'')
             else answer (confirm_act E (sv_media S) (mt_id M) (mt_job M) (scope_of c) pid key sz mime)
               (\<lambda>created. if created then reply_of 201 ConfirmedOut else reply_of 204 NoOut)))"

definition handle_media_delete :: handler where
  "handle_media_delete S E M c =
     with_id S c ''invalid image id'' (\<lambda>iid.
       answer (media_delete E (cx_actor c) iid) (\<lambda>_. reply_of 204 NoOut))"

section \<open>Imports\<close>

text \<open>The file is read up to 32 MiB; what follows is dropped.\<close>

definition max_upload :: nat where
  "max_upload = 33554432"

definition handle_imports_start :: handler where
  "handle_imports_start S E M c =
     with_cap (cx_actor c) CapRunImport
       (let start = (\<lambda>src. answer
              (import_start E (sv_exts S) (sv_put S) (sv_imports S) (mt_id M) (mt_object M) (mt_job M) (cx_actor c) src)
              (\<lambda>i. reply_of 201 (IdOut i)))
        in if has_prefix (hr_content_type (cx_request c)) ''multipart/form-data''
           then (case hr_file (cx_request c) of
               NoFile \<Rightarrow> say (invalid (''multipart field '' @ quoted ''file'' @ '' is required''))
             | BrokenFile \<Rightarrow> say (invalid ''cannot read file'')
             | File bs name mime \<Rightarrow>
                 start \<lparr>so_kind = SourceMultipart, so_file = take max_upload bs, so_filename = name,
                        so_mime = mime, so_doc = []\<rparr>)
           else with_body (field_then (struct_of S c [''doc_id'']) (\<lambda>kvs. string_field S kvs ''doc_id'')) (\<lambda>doc.
             if doc = [] then say (invalid ''doc_id is required'')
             else start \<lparr>so_kind = SourceGoogleDocs, so_file = [], so_filename = [], so_mime = [], so_doc = doc\<rparr>))"

definition handle_imports_status :: handler where
  "handle_imports_status S E M c =
     with_id S c ''invalid import id'' (\<lambda>iid.
       answer (import_get E (cx_actor c) iid) (\<lambda>res. reply_of 200 (ImportOut res)))"

definition handle_imports_apply :: handler where
  "handle_imports_apply S E M c =
     with_id S c ''invalid import id'' (\<lambda>iid.
       answer (import_apply E (sv_imports S) (mt_id M) (cx_actor c) iid)
         (\<lambda>p. reply_of 201 (PostOut (post_out_from p))))"

end
