(* ===== verification/Members.thy ===== *)
theory Members
  imports Handlers
begin

text \<open>
  The handlers of internal/api/handlers.go for the members of a tenant and for tenants, which hold
  their own rules: who may invite, promote, demote and remove, and who manages a tenant.
\<close>

section \<open>Members\<close>

definition with_tenant_scope :: "actor \<Rightarrow> (uuid \<Rightarrow> answer) \<Rightarrow> answer" where
  "with_tenant_scope a k =
     (case a_tenant a of
        None \<Rightarrow> say (invalid ''no tenant in scope'')
      | Some t \<Rightarrow> if a_platform a then say (invalid ''no tenant in scope'') else k t)"

definition handle_members_list :: handler where
  "handle_members_list S E M c =
     with_cap (cx_actor c) CapViewMembers (with_tenant_scope (cx_actor c) (\<lambda>t.
       answer (scoped E unscoped (\<lambda>q. list_tenant_members q t)) (\<lambda>ms. reply_of 200 (MembersOut ms))))"

definition valid_role :: "string \<Rightarrow> bool" where
  "valid_role r = (r \<in> {''author'', ''editor'', ''admin'', ''owner''})"

definition invite_lifetime :: time where
  "invite_lifetime = 7 * 24 * 3600 * second"

definition handle_members_invite :: handler where
  "handle_members_invite S E M c =
     (let a = cx_actor c in
      with_cap a CapInviteMembers (with_tenant_scope a (\<lambda>t.
        with_body
          (field_then (struct_of S c [''email'', ''role'']) (\<lambda>kvs.
             field_then (string_pointer S kvs ''email'') (\<lambda>email.
               field_then (string_field S kvs ''role'') (\<lambda>role. Inr (email, role)))))
          (\<lambda>(email, role). case email of
             None \<Rightarrow> say (invalid ''email is required'')
           | Some addr \<Rightarrow>
               if trim_space addr = [] then say (invalid ''email is required'')
               else if \<not> valid_role role then say (invalid ''invalid role'')
               else if role = ''owner'' \<and> a_role a \<noteq> RoleOwner
                 then say (write_error 403 code_forbidden ''only owners may invite owners'')
               else answer
                 (scoped_rw E unscoped (\<lambda>q.
                    insert_invitation q (mt_id M) t (Some (lower_of E (trim_space addr))) role None
                      (e_now E + invite_lifetime)))
                 (\<lambda>_. reply_of 201 (IdOut (mt_id M)))))))"

definition no_rows_as :: "string \<Rightarrow> error \<Rightarrow> reply" where
  "no_rows_as msg e = (if errors_is e ErrNoRows then write_error 404 code_not_found msg else service_error e)"

definition handle_members_set_role :: handler where
  "handle_members_set_role S E M c =
     (let a = cx_actor c in
      with_cap a CapChangeRoles (with_tenant_scope a (\<lambda>t.
        with_id S c ''invalid user id'' (\<lambda>u.
          with_body (field_then (struct_of S c [''role'']) (\<lambda>kvs. string_field S kvs ''role'')) (\<lambda>role.
            if \<not> valid_role role then say (invalid ''invalid role'')
            else if role = ''owner'' \<and> a_role a \<noteq> RoleOwner
              then say (write_error 403 code_forbidden ''only owners may grant owner'')
            else answer_or (no_rows_as ''member not found'')
              (scoped_rw E unscoped (\<lambda>q. set_membership_role q t u role))
              (\<lambda>_. reply_of 204 NoOut))))))"

definition handle_members_remove :: handler where
  "handle_members_remove S E M c =
     (let a = cx_actor c in
      with_cap a CapRemoveMembers (with_tenant_scope a (\<lambda>t.
        with_id S c ''invalid user id'' (\<lambda>u.
          if u = a_user a then say (invalid ''cannot remove self'')
          else answer_or (no_rows_as ''member not found'')
            (scoped_rw E unscoped (\<lambda>q. remove_membership q t u))
            (\<lambda>_. reply_of 204 NoOut)))))"

section \<open>Tenants\<close>

definition tenant_manageable :: "actor \<Rightarrow> uuid \<Rightarrow> bool" where
  "tenant_manageable a i = (if a_platform a then True else a_tenant a = Some i \<and> a_role a = RoleOwner)"

definition platform_only :: "actor \<Rightarrow> answer \<Rightarrow> answer" where
  "platform_only a k = (if \<not> a_platform a then say (write_error 403 code_forbidden ''platform role required'') else k)"

definition handle_tenants_list :: handler where
  "handle_tenants_list S E M c =
     platform_only (cx_actor c) (answer (scoped E unscoped list_tenants) (\<lambda>ts. reply_of 200 (TenantsOut ts)))"

definition handle_tenants_create :: handler where
  "handle_tenants_create S E M c =
     platform_only (cx_actor c)
       (with_body
          (field_then (struct_of S c [''slug'', ''name'']) (\<lambda>kvs.
             field_then (string_field S kvs ''slug'') (\<lambda>slug.
               field_then (string_field S kvs ''name'') (\<lambda>name. Inr (slug, name)))))
          (\<lambda>(slug, name).
             if slug = [] \<or> name = [] then say (invalid ''slug and name are required'')
             else if \<not> valid_slug slug then say (invalid ''invalid slug'')
             else answer_or
               (\<lambda>e. if is_unique_violation e then write_error 409 code_conflict ''slug already in use'' else service_error e)
               (scoped_rw E unscoped (\<lambda>q. create_tenant q (mt_id M) slug name))
               (\<lambda>_. reply_of 201 (CreatedOut (mt_id M) slug))))"

definition with_manageable :: "server \<Rightarrow> call \<Rightarrow> (uuid \<Rightarrow> answer) \<Rightarrow> answer" where
  "with_manageable S c k =
     with_id S c ''invalid tenant id'' (\<lambda>i.
       if \<not> tenant_manageable (cx_actor c) i then say (write_error 403 code_forbidden ''forbidden'') else k i)"

definition handle_tenants_get :: handler where
  "handle_tenants_get S E M c =
     with_manageable S c (\<lambda>i.
       answer_or (no_rows_as ''tenant not found'') (scoped E unscoped (\<lambda>q. get_tenant q i))
         (\<lambda>t. reply_of 200 (TenantOut t)))"

text \<open>The purge job of a tenant; one that is already there is enough.\<close>

definition purge_site :: "tx \<Rightarrow> uuid \<Rightarrow> uuid \<Rightarrow> int option \<Rightarrow> unit txn" where
  "purge_site q jid i version =
     handle
       (and_then
          (enqueue q jid purge_job_kind (uuid_string i) (JobPayload i (PurgeData i None version [''/''])))
          (\<lambda>_. ret ()))
       (\<lambda>e. if errors_is e ErrDuplicate then ret () else fail e)"

definition tenant_update_act :: "env \<Rightarrow> uuid \<Rightarrow> uuid \<Rightarrow> string \<Rightarrow> json option \<Rightarrow> tenant act" where
  "tenant_update_act E jid i name settings = scoped_rw E unscoped (\<lambda>q.
     and_then (update_tenant q i name settings) (\<lambda>t.
       and_then (purge_site q jid i (Some (t_version t))) (\<lambda>_. ret t)))"

definition handle_tenants_update :: handler where
  "handle_tenants_update S E M c =
     with_manageable S c (\<lambda>i.
       with_body
         (field_then (struct_of S c [''name'', ''settings'']) (\<lambda>kvs.
            field_then (string_pointer S kvs ''name'') (\<lambda>name.
              field_then (decode_field (sv_alike S) kvs ''settings'' (as_pointer (\<lambda>j _. Some j) JNull) None) (\<lambda>settings.
                Inr (name, settings)))))
         (\<lambda>(name, settings).
            answer_or (no_rows_as ''tenant not found'')
              (tenant_update_act E (mt_job M) i (case name of None \<Rightarrow> [] | Some n \<Rightarrow> n) settings)
              (\<lambda>t. reply_of 200 (TenantOut t))))"

definition tenant_delete_act :: "env \<Rightarrow> uuid \<Rightarrow> uuid \<Rightarrow> unit act" where
  "tenant_delete_act E jid i = scoped_rw E unscoped (\<lambda>q.
     and_then (purge_site q jid i None) (\<lambda>_. delete_tenant q i))"

definition handle_tenants_delete :: handler where
  "handle_tenants_delete S E M c =
     with_manageable S c (\<lambda>i.
       answer_or (no_rows_as ''tenant not found'') (tenant_delete_act E (mt_job M) i)
         (\<lambda>_. reply_of 204 NoOut))"

end
