(* ===== verification/Router.thy ===== *)
theory Router
  imports Members
begin

text \<open>
  The routes and the middleware of internal/api/middleware.go: which handler a request reaches, behind
  which limiters and checks, and what the server then answers.
\<close>

section \<open>Endpoints\<close>

datatype endpoint =
    Livez | Readyz | PubSite | PubList | PubGet | PubHtml
  | Signup | Login | OAuthStart | OAuthCallback | Logout | Me | SetTenant
  | PostsList | PostsCreate | PostsGet | PostsHtml | PostsUpdate | PostsDelete | PostsPublish | PostsUnpublish
  | MediaPresign | MediaConfirm | MediaDelete
  | ImportsStart | ImportsStatus | ImportsApply
  | MembersList | MembersInvite | MembersSetRole | MembersRemove
  | TenantsList | TenantsCreate | TenantsGet | TenantsUpdate | TenantsDelete

text \<open>The handlers that answer from the database alone; the public ones keep a cache.\<close>

fun handler_of :: "endpoint \<Rightarrow> handler option" where
  "handler_of Signup = Some handle_signup"
| "handler_of Login = Some handle_login"
| "handler_of OAuthStart = Some handle_oauth_start"
| "handler_of OAuthCallback = Some handle_oauth_callback"
| "handler_of Logout = Some handle_logout"
| "handler_of Me = Some handle_me"
| "handler_of SetTenant = Some handle_set_tenant"
| "handler_of PostsList = Some handle_posts_list"
| "handler_of PostsCreate = Some handle_posts_create"
| "handler_of PostsGet = Some handle_posts_get"
| "handler_of PostsHtml = Some handle_posts_html"
| "handler_of PostsUpdate = Some handle_posts_update"
| "handler_of PostsDelete = Some handle_posts_delete"
| "handler_of PostsPublish = Some handle_posts_publish"
| "handler_of PostsUnpublish = Some handle_posts_unpublish"
| "handler_of MediaPresign = Some handle_media_presign"
| "handler_of MediaConfirm = Some handle_media_confirm"
| "handler_of MediaDelete = Some handle_media_delete"
| "handler_of ImportsStart = Some handle_imports_start"
| "handler_of ImportsStatus = Some handle_imports_status"
| "handler_of ImportsApply = Some handle_imports_apply"
| "handler_of MembersList = Some handle_members_list"
| "handler_of MembersInvite = Some handle_members_invite"
| "handler_of MembersSetRole = Some handle_members_set_role"
| "handler_of MembersRemove = Some handle_members_remove"
| "handler_of TenantsList = Some handle_tenants_list"
| "handler_of TenantsCreate = Some handle_tenants_create"
| "handler_of TenantsGet = Some handle_tenants_get"
| "handler_of TenantsUpdate = Some handle_tenants_update"
| "handler_of TenantsDelete = Some handle_tenants_delete"
| "handler_of ep = None"

section \<open>Routes\<close>

datatype segment = Lit string | Val
datatype wrap = Base | IpRate | AuthRate | CaptureBody | Session

type_synonym route = "string \<times> segment list \<times> wrap list \<times> endpoint"

definition public_routes :: "route list" where
  "public_routes =
    [(''GET'', [Lit ''livez''], [Base], Livez),
     (''GET'', [Lit ''readyz''], [Base], Readyz),
     (''GET'', [Lit ''public'', Val, Lit ''site''], [Base], PubSite),
     (''GET'', [Lit ''public'', Val, Lit ''posts''], [Base], PubList),
     (''GET'', [Lit ''public'', Val, Lit ''posts'', Val], [Base], PubGet),
     (''GET'', [Lit ''public'', Val, Lit ''posts'', Val, Lit ''html''], [Base], PubHtml)]"

definition auth_routes :: "route list" where
  "auth_routes =
    [(''POST'', [Lit ''auth'', Lit ''signup''], [AuthRate, CaptureBody], Signup),
     (''POST'', [Lit ''auth'', Lit ''login''], [AuthRate, CaptureBody], Login),
     (''POST'', [Lit ''auth'', Lit ''oauth'', Lit ''start''], [Base, IpRate], OAuthStart),
     (''GET'', [Lit ''auth'', Lit ''oauth'', Lit ''callback''], [Base, IpRate], OAuthCallback)]"

abbreviation admin_path :: "string \<Rightarrow> segment list \<Rightarrow> segment list" where
  "admin_path what rest \<equiv> Lit ''admin'' # Lit what # rest"

definition session_routes :: "route list" where
  "session_routes =
    [(''POST'', [Lit ''auth'', Lit ''logout''], [Base, Session], Logout),
     (''GET'', [Lit ''auth'', Lit ''me''], [Base, Session], Me),
     (''PUT'', [Lit ''auth'', Lit ''me'', Lit ''active-tenant''], [Base, Session], SetTenant),
     (''GET'', admin_path ''posts'' [], [Base, Session], PostsList),
     (''POST'', admin_path ''posts'' [], [Base, IpRate, Session], PostsCreate),
     (''GET'', admin_path ''posts'' [Val], [Base, Session], PostsGet),
     (''GET'', admin_path ''posts'' [Val, Lit ''html''], [Base, Session], PostsHtml),
     (''PATCH'', admin_path ''posts'' [Val], [Base, IpRate, Session], PostsUpdate),
     (''DELETE'', admin_path ''posts'' [Val], [Base, IpRate, Session], PostsDelete),
     (''POST'', admin_path ''posts'' [Val, Lit ''publish''], [Base, IpRate, Session], PostsPublish),
     (''POST'', admin_path ''posts'' [Val, Lit ''unpublish''], [Base, IpRate, Session], PostsUnpublish),
     (''POST'', admin_path ''media'' [Lit ''presign''], [Base, IpRate, Session], MediaPresign),
     (''POST'', admin_path ''media'' [Lit ''confirm''], [Base, IpRate, Session], MediaConfirm),
     (''DELETE'', admin_path ''media'' [Val], [Base, IpRate, Session], MediaDelete),
     (''POST'', admin_path ''imports'' [], [Base, IpRate, Session], ImportsStart),
     (''GET'', admin_path ''imports'' [Val], [Base, Session], ImportsStatus),
     (''POST'', admin_path ''imports'' [Val, Lit ''apply''], [Base, IpRate, Session], ImportsApply),
     (''GET'', admin_path ''members'' [], [Base, Session], MembersList),
     (''POST'', admin_path ''members'' [], [Base, IpRate, Session], MembersInvite),
     (''PATCH'', admin_path ''members'' [Val], [Base, IpRate, Session], MembersSetRole),
     (''DELETE'', admin_path ''members'' [Val], [Base, IpRate, Session], MembersRemove),
     (''GET'', admin_path ''tenants'' [], [Base, Session], TenantsList),
     (''POST'', admin_path ''tenants'' [], [Base, IpRate, Session], TenantsCreate),
     (''GET'', admin_path ''tenants'' [Val], [Base, Session], TenantsGet),
     (''PATCH'', admin_path ''tenants'' [Val], [Base, IpRate, Session], TenantsUpdate),
     (''DELETE'', admin_path ''tenants'' [Val], [Base, IpRate, Session], TenantsDelete)]"

definition routes :: "route list" where
  "routes = public_routes @ auth_routes @ session_routes"

text \<open>
  \<open>http.ServeMux\<close>: a literal segment matches itself, a wildcard any segment that is not empty; a GET
  pattern serves HEAD. No two of the patterns match the same request.
\<close>

fun match_path :: "segment list \<Rightarrow> string list \<Rightarrow> string list option" where
  "match_path [] [] = Some []"
| "match_path (Lit l # ps) (x # xs) = (if x = l then match_path ps xs else None)"
| "match_path (Val # ps) (x # xs) = (if x = [] then None else map_option (Cons x) (match_path ps xs))"
| "match_path ps xs = None"

definition on_path :: "request \<Rightarrow> route \<Rightarrow> bool" where
  "on_path r = (\<lambda>(m, ps, ws, ep). match_path ps (hr_path r) \<noteq> None)"

definition on_route :: "request \<Rightarrow> route \<Rightarrow> bool" where
  "on_route r = (\<lambda>(m, ps, ws, ep).
     match_path ps (hr_path r) \<noteq> None \<and> (hr_method r = m \<or> (m = ''GET'' \<and> hr_method r = ''HEAD'')))"

definition route_of :: "request \<Rightarrow> route option" where
  "route_of r = find (on_route r) routes"

section \<open>The middleware\<close>

text \<open>The state of the process: the database, the limiter's buckets and the cache of slugs.\<close>

record 'b site =
  st_db :: db
  st_limits :: "'b buckets"
  st_cache :: resolver

definition pub_resp :: "error + response \<Rightarrow> reply" where
  "pub_resp r = (case r of
      Inl e \<Rightarrow> write_error 500 code_internal ''internal server error''
    | Inr resp \<Rightarrow> reply_of (rs_status resp) (PublicOut resp))"

definition run_public :: "((error + response) \<times> resolver) \<Rightarrow> 'b site \<Rightarrow> reply \<times> 'b site" where
  "run_public p s = (case p of (r, rv) \<Rightarrow> (pub_resp r, s\<lparr>st_cache := rv\<rparr>))"

definition run_endpoint :: "server \<Rightarrow> env \<Rightarrow> mint \<Rightarrow> endpoint \<Rightarrow> call \<Rightarrow> 'b site \<Rightarrow> reply \<times> 'b site" where
  "run_endpoint S E M ep c s =
     (let r = cx_request c; inm = hr_if_none_match r; v = (\<lambda>i. cx_values c ! i); now = e_now E
      in case handler_of ep of
        Some h \<Rightarrow> (case h S E M c (st_db s) of (rep, d) \<Rightarrow> (rep, s\<lparr>st_db := d\<rparr>))
      | None \<Rightarrow>
          if ep = Livez then (reply_of 200 StatusOut, s)
          else if ep = Readyz then
            ((if sv_ping S then reply_of 200 StatusOut else write_error 503 code_internal ''database unavailable''), s)
          else if ep = PubSite then
            run_public (api_site E now now inm (v 0) (st_db s) (st_cache s)) s
          else if ep = PubList then
            run_public (api_list E now now (sv_pub S) (sv_codec S)
              \<lparr>rq_tag = query_value r ''tag'', rq_before = query_value r ''before'', rq_if_none_match = inm\<rparr>
              (v 0) (st_db s) (st_cache s)) s
          else if ep = PubGet then
            run_public (api_get E now now (sv_pub S) inm (v 0) (v 1) (st_db s) (st_cache s)) s
          else run_public (api_get_html E now now inm (v 0) (v 1) (st_db s) (st_cache s)) s)"

definition allowed_origin :: "server \<Rightarrow> string \<Rightarrow> bool" where
  "allowed_origin S origin = list_ex (\<lambda>o'. o' = origin) (sv_origins S)"

definition cors :: "server \<Rightarrow> request \<Rightarrow> ('b site \<Rightarrow> reply \<times> 'b site) \<Rightarrow> 'b site \<Rightarrow> reply \<times> 'b site" where
  "cors S r k s =
     (let o' = hr_origin r in
      if o' = [] \<or> \<not> allowed_origin S o' then k s
      else if hr_method r = ''OPTIONS'' then ((reply_of 204 NoOut)\<lparr>rp_cors := Some o'\<rparr>, s)
      else (case k s of (rep, s') \<Rightarrow> (rep\<lparr>rp_cors := Some o'\<rparr>, s')))"

definition limited :: "'b bucket_ops \<Rightarrow> env \<Rightarrow> string \<Rightarrow> ('b site \<Rightarrow> reply \<times> 'b site) \<Rightarrow> 'b site \<Rightarrow> reply \<times> 'b site" where
  "limited K E key k s =
     (case allow K (e_now E) key (st_limits s) of (ok, m) \<Rightarrow>
        if ok then k (s\<lparr>st_limits := m\<rparr>)
        else (write_error 429 code_rate_limited ''too many requests'', s\<lparr>st_limits := m\<rparr>))"

text \<open>The email that the limiter reads from a captured body: \<open>json.Unmarshal\<close>, unknown members allowed.\<close>

definition body_email :: "server \<Rightarrow> env \<Rightarrow> payload option \<Rightarrow> string" where
  "body_email S E b =
     (case b of
        Some (Parsed (JObj kvs)) \<Rightarrow>
          (case string_field S kvs ''email'' of Inl _ \<Rightarrow> [] | Inr v \<Rightarrow> lower_of E (trim_space v))
      | _ \<Rightarrow> [])"

text \<open>
  The wrappers of a route run from the outside in; \<open>seen\<close> is the body that \<open>captureBody\<close> has put into
  the request's context. Of \<open>base\<close> the model keeps \<open>cors\<close>: no handler of the model panics, and the
  request id and the log have no part in the answers.
\<close>

fun through ::
  "'b bucket_ops \<Rightarrow> server \<Rightarrow> env \<Rightarrow> mint \<Rightarrow> endpoint \<Rightarrow> wrap list \<Rightarrow> payload option \<Rightarrow> call \<Rightarrow> 'b site \<Rightarrow> reply \<times> 'b site" where
  "through K S E M ep [] seen c s = run_endpoint S E M ep c s"
| "through K S E M ep (Base # ws) seen c s = cors S (cx_request c) (through K S E M ep ws seen c) s"
| "through K S E M ep (IpRate # ws) seen c s =
     limited K E (''mutation|'' @ client_ip (cx_request c)) (through K S E M ep ws seen c) s"
| "through K S E M ep (AuthRate # ws) seen c s =
     (let ip = client_ip (cx_request c); email = body_email S E seen; rest = through K S E M ep ws seen c in
      limited K E (''auth|'' @ ip)
        (if email \<noteq> [] then limited K E (''auth|'' @ ip @ ''|'' @ email) rest else rest) s)"
| "through K S E M ep (CaptureBody # ws) seen c s =
     (case hr_body (cx_request c) of
        Unreadable msg \<Rightarrow> (write_error 400 code_validation ''cannot read request body'', s)
      | b \<Rightarrow> through K S E M ep ws (Some b) c s)"
| "through K S E M ep (Session # ws) seen c s =
     (let tok = session_token (sv_cookie S) (cx_request c) in
      case authenticate E tok (st_db s) of
        None \<Rightarrow> (write_error 401 code_unauthorized ''unauthorized'', s)
      | Some a \<Rightarrow> through K S E M ep ws seen (c\<lparr>cx_actor := a, cx_token := tok\<rparr>) s)"

text \<open>The call before any wrapper has run: an actor that is nobody.\<close>

definition bare_call :: "request \<Rightarrow> string list \<Rightarrow> call" where
  "bare_call r vs = \<lparr>cx_request = r, cx_values = vs, cx_actor = session_actor nil_uuid, cx_token = []\<rparr>"

definition serve :: "'b bucket_ops \<Rightarrow> server \<Rightarrow> env \<Rightarrow> mint \<Rightarrow> request \<Rightarrow> 'b site \<Rightarrow> reply \<times> 'b site" where
  "serve K S E M r s =
     (case route_of r of
        Some (m, ps, ws, ep) \<Rightarrow>
          through K S E M ep ws None (bare_call r (case match_path ps (hr_path r) of None \<Rightarrow> [] | Some vs \<Rightarrow> vs)) s
      | None \<Rightarrow>
          if list_ex (on_path r) routes then (reply_of 405 (PlainOut ''Method Not Allowed''), s)
          else (reply_of 404 (PlainOut ''404 page not found''), s))"

end
