(* ===== verification/Frames.thy ===== *)
theory Frames
  imports Router
begin

text \<open>
  What requests leave alone. A relation between the database before and after that is reflexive and
  transitive is kept by a service when every statement it can execute keeps it; the rules below
  follow the code's structure from statements through transactions to handlers.
\<close>

section \<open>Relations kept by a computation\<close>

definition keeps :: "('s \<Rightarrow> 's \<Rightarrow> bool) \<Rightarrow> ('s \<Rightarrow> 'x \<times> 's) \<Rightarrow> bool" where
  "keeps R m \<longleftrightarrow> (\<forall>s. R s (snd (m s)))"

definition tx_rel :: "(db \<Rightarrow> db \<Rightarrow> bool) \<Rightarrow> txst \<Rightarrow> txst \<Rightarrow> bool" where
  "tx_rel R s s' \<longleftrightarrow> R (t_db s) (t_db s')"

lemma keeps_mono: "keeps R m \<Longrightarrow> (\<And>s s'. R s s' \<Longrightarrow> Q s s') \<Longrightarrow> keeps Q m"
  by (simp add: keeps_def)

lemma keepsD: "keeps R m \<Longrightarrow> m s = (x, s') \<Longrightarrow> R s s'"
  by (metis keeps_def snd_conv)

locale preserved =
  fixes R :: "'s \<Rightarrow> 's \<Rightarrow> bool"
  assumes R_refl: "R s s"
    and R_trans: "R s t \<Longrightarrow> R t u \<Longrightarrow> R s u"
begin

lemma keeps_ret: "keeps R (ret x)"
  by (simp add: keeps_def R_refl)

lemma keeps_fail: "keeps R (fail e)"
  by (simp add: keeps_def R_refl)

lemma keeps_lift: "keeps R (lift_sum r)"
  by (simp add: keeps_def R_refl)

lemma keeps_require: "keeps R (require a c)"
  by (simp add: require_def keeps_ret keeps_fail)

lemma keeps_then:
  assumes "keeps R m" "\<And>x. keeps R (f x)"
  shows "keeps R (and_then m f)"
  unfolding keeps_def
proof
  fix s
  have "R s (snd (m s))" using assms(1) by (simp add: keeps_def)
  then show "R s (snd (and_then m f s))"
    using assms(2) by (auto simp: and_then_def keeps_def intro: R_trans split: prod.split sum.split)
qed

lemma keeps_handle:
  assumes "keeps R m" "\<And>e. keeps R (h e)"
  shows "keeps R (handle m h)"
  unfolding keeps_def
proof
  fix s
  have "R s (snd (m s))" using assms(1) by (simp add: keeps_def)
  then show "R s (snd (handle m h s))"
    using assms(2) by (auto simp: handle_def keeps_def intro: R_trans split: prod.split sum.split)
qed

lemma keeps_if: "(b \<Longrightarrow> keeps R m) \<Longrightarrow> (\<not> b \<Longrightarrow> keeps R m') \<Longrightarrow> keeps R (if b then m else m')"
  by simp

lemma keeps_option: "keeps R m \<Longrightarrow> (\<And>x. keeps R (f x)) \<Longrightarrow> keeps R (case r of None \<Rightarrow> m | Some x \<Rightarrow> f x)"
  by (cases r) simp_all

lemma keeps_sum: "(\<And>e. keeps R (f e)) \<Longrightarrow> (\<And>x. keeps R (g x)) \<Longrightarrow> keeps R (case r of Inl e \<Rightarrow> f e | Inr x \<Rightarrow> g x)"
  by (cases r) simp_all

text \<open>Computations that name the state they run on.\<close>

lemma keeps_done: "keeps R (\<lambda>s. (x, s))"
  by (simp add: keeps_def R_refl)

lemma keeps_choice:
  "keeps R f \<Longrightarrow> keeps R g \<Longrightarrow> keeps R (\<lambda>s. if b then f s else g s)"
  "(\<And>e. keeps R (h e)) \<Longrightarrow> (\<And>x. keeps R (k x)) \<Longrightarrow> keeps R (\<lambda>s. case r of Inl e \<Rightarrow> h e s | Inr x \<Rightarrow> k x s)"
  "keeps R f \<Longrightarrow> (\<And>x. keeps R (l x)) \<Longrightarrow> keeps R (\<lambda>s. case v of None \<Rightarrow> f s | Some x \<Rightarrow> l x s)"
  by (simp_all add: keeps_def split: sum.split option.split)

lemma keeps_outcome:
  assumes "keeps R m" "\<And>e. keeps R (f e)" "\<And>x. keeps R (g x)"
  shows "keeps R (\<lambda>s. case m s of (Inl e, s) \<Rightarrow> f e s | (Inr x, s) \<Rightarrow> g x s)"
  unfolding keeps_def
proof
  fix s
  have "R s (snd (m s))" using assms(1) by (simp add: keeps_def)
  then show "R s (snd (case m s of (Inl e, s) \<Rightarrow> f e s | (Inr x, s) \<Rightarrow> g x s))"
    using assms(2,3) by (auto simp: keeps_def intro: R_trans split: prod.split sum.split)
qed

lemmas keeps_comp = keeps_ret keeps_fail keeps_lift keeps_require keeps_then keeps_handle keeps_if keeps_option

end

locale db_preserved = preserved R for R :: "db \<Rightarrow> db \<Rightarrow> bool"

sublocale db_preserved \<subseteq> tx: preserved "tx_rel R"
  by unfold_locales (auto simp: tx_rel_def intro: R_refl R_trans)

context db_preserved
begin

lemma keeps_read: "keeps (tx_rel R) (read_stmt f)"
  by (auto simp: keeps_def tx_rel_def read_stmt_def R_refl split: sum.split)

lemma keeps_write:
  assumes "\<And>d x d'. f d = Inr (x, d') \<Longrightarrow> R d d'"
  shows "keeps (tx_rel R) (write_stmt q f)"
  using assms by (auto simp: keeps_def tx_rel_def write_stmt_def R_refl split: sum.split prod.split)

lemma keeps_row: "keeps (tx_rel R) (scan_row r)"
  by (cases r) (simp_all add: tx.keeps_ret tx.keeps_fail)

lemma keeps_affected: "keeps (tx_rel R) (affected n)"
  by (simp add: affected_def tx.keeps_ret tx.keeps_fail)

lemma keeps_run:
  assumes "keeps (tx_rel R) (fn q)"
  shows "keeps R (run_tx q fn)"
  unfolding keeps_def
proof
  fix d
  have "R d (t_db (snd (fn q \<lparr>t_db = d, t_aborted = False\<rparr>)))"
    using assms by (auto simp: keeps_def tx_rel_def dest: spec [of _ "\<lparr>t_db = d, t_aborted = False\<rparr>"])
  then show "R d (snd (run_tx q fn d))" by (auto simp: run_tx_def R_refl split: prod.split sum.split)
qed

lemma keeps_scoped: "keeps (tx_rel R) (fn (tx_of E False sc)) \<Longrightarrow> keeps R (scoped_rw E sc fn)"
  unfolding scoped_rw_def by (rule keeps_run)

text \<open>A read-only transaction cannot change the database.\<close>

lemma keeps_scoped_ro: "keeps (tx_rel R) (fn (tx_of E True sc)) \<Longrightarrow> keeps R (scoped E sc fn)"
  unfolding scoped_def by (rule keeps_run)

lemmas keeps_stmt = keeps_read keeps_row keeps_affected tx.keeps_comp

text \<open>Handlers.\<close>

lemma keeps_say: "keeps R (say r)"
  by (simp add: keeps_def say_def R_refl)

lemma keeps_answer: "keeps R m \<Longrightarrow> keeps R (answer_or h m k)"
  by (auto simp: keeps_def answer_or_def split: prod.split sum.split) (metis snd_conv)+

lemma keeps_body: "(\<And>x. r = Inr x \<Longrightarrow> keeps R (k x)) \<Longrightarrow> keeps R (with_body r k)"
  by (simp add: with_body_def keeps_say split: sum.split)

lemma keeps_id: "(\<And>i. keeps R (k i)) \<Longrightarrow> keeps R (with_id S c msg k)"
  by (simp add: with_id_def keeps_say split: option.split)

lemma keeps_cap: "(can a cp \<Longrightarrow> keeps R k) \<Longrightarrow> keeps R (with_cap a cp k)"
  by (simp add: with_cap_def keeps_say)

lemma keeps_tenant: "(\<And>t. a_tenant a = Some t \<Longrightarrow> \<not> a_platform a \<Longrightarrow> keeps R (k t)) \<Longrightarrow> keeps R (with_tenant_scope a k)"
  by (simp add: with_tenant_scope_def keeps_say split: option.split)

lemma keeps_platform: "(a_platform a \<Longrightarrow> keeps R k) \<Longrightarrow> keeps R (platform_only a k)"
  by (simp add: platform_only_def keeps_say)

lemma keeps_manageable: "(\<And>i. tenant_manageable (cx_actor c) i \<Longrightarrow> keeps R (k i)) \<Longrightarrow> keeps R (with_manageable S c k)"
  unfolding with_manageable_def by (intro keeps_id keeps_if keeps_say) auto

lemmas keeps_handler = keeps_say keeps_answer keeps_body keeps_id keeps_cap keeps_tenant keeps_platform keeps_manageable

end

end
