(* ===== verification/Walls.thy ===== *)
theory Walls
  imports Frames
begin

text \<open>
  Tenants are walled off from each other, and roles come from those who may grant them: what the
  requests of the server do to tenants, memberships, invitations and posts.
\<close>

section \<open>What is kept\<close>

definition same_core :: "db \<Rightarrow> db \<Rightarrow> bool" where
  "same_core d d' \<longleftrightarrow> tenants d' = tenants d \<and> memberships d' = memberships d \<and>
     invitations d' = invitations d \<and> posts d' = posts d"

definition same_members :: "db \<Rightarrow> db \<Rightarrow> bool" where
  "same_members d d' \<longleftrightarrow> memberships d' = memberships d \<and> invitations d' = invitations d"

text \<open>The rows of every tenant but one, or of every tenant.\<close>

definition foreign_rows ::
  "uuid option \<Rightarrow> db \<Rightarrow> tenant list \<times> membership list \<times> invitation list \<times> post list" where
  "foreign_rows t d =
     (filter (\<lambda>x. Some (t_id x) \<noteq> t) (tenants d), filter (\<lambda>x. Some (m_tenant x) \<noteq> t) (memberships d),
      filter (\<lambda>x. Some (i_tenant x) \<noteq> t) (invitations d), filter (\<lambda>x. Some (p_tenant x) \<noteq> t) (posts d))"

definition same_foreign :: "uuid option \<Rightarrow> db \<Rightarrow> db \<Rightarrow> bool" where
  "same_foreign t d d' \<longleftrightarrow> foreign_rows t d' = foreign_rows t d"

text \<open>
  New memberships (a changed role is a new one) and invitations are the work of an admin of the tenant,
  and of an owner where the role is owner; memberships and invitations that are gone were an admin's
  work, or went with the tenant.
\<close>

definition may_grant :: "actor \<Rightarrow> uuid \<Rightarrow> string \<Rightarrow> bool" where
  "may_grant a t role \<longleftrightarrow> \<not> a_platform a \<and> a_tenant a = Some t \<and> RoleAdmin \<le> a_role a \<and>
     (role = ''owner'' \<longrightarrow> a_role a = RoleOwner)"

definition granted_by :: "actor \<Rightarrow> db \<Rightarrow> db \<Rightarrow> bool" where
  "granted_by a d d' \<longleftrightarrow>
     (\<forall>m \<in> set (memberships d') - set (memberships d). may_grant a (m_tenant m) (m_role m)) \<and>
     (\<forall>i \<in> set (invitations d') - set (invitations d). may_grant a (i_tenant i) (i_role i)) \<and>
     (\<forall>m \<in> set (memberships d) - set (memberships d').
        a_platform a \<or> (a_tenant a = Some (m_tenant m) \<and> RoleAdmin \<le> a_role a))"

interpretation core: db_preserved same_core
  by unfold_locales (simp_all add: same_core_def)

interpretation mem: db_preserved same_members
  by unfold_locales (simp_all add: same_members_def)

interpretation walls: db_preserved "same_foreign t" for t
  by unfold_locales (simp_all add: same_foreign_def)

interpretation roles: db_preserved "granted_by a" for a
  by unfold_locales (auto simp: granted_by_def)

lemma core_foreign: "same_core d d' \<Longrightarrow> same_foreign t d d'"
  by (simp add: same_core_def same_foreign_def foreign_rows_def)

lemma core_granted: "same_core d d' \<Longrightarrow> granted_by a d d'"
  by (simp add: same_core_def granted_by_def)

lemma members_granted: "same_members d d' \<Longrightarrow> granted_by a d d'"
  by (simp add: same_members_def granted_by_def)

lemmas core_defs = same_core_def same_members_def Let_def

section \<open>Statements\<close>

lemma core_write:
  assumes "\<And>d x d'. f d = Inr (x, d') \<Longrightarrow> same_core d d'"
  shows "keeps (tx_rel same_core) (write_stmt q f)"
  using assms by (rule core.keeps_write)

lemma core_statements:
  "keeps (tx_rel same_core) (enqueue q jid kind key payload)"
  "keeps (tx_rel same_core) (create_import q iid t u pid fmt key)"
  "keeps (tx_rel same_core) (set_import_post_id q iid p)"
  "keeps (tx_rel same_core) (insert_post_image_on_conflict q iid t p key url mime sz)"
  "keeps (tx_rel same_core) (delete_post_image q iid)"
  "keeps (tx_rel same_core) (set_session_scope q h sc)"
  "keeps (tx_rel same_core) (delete_session_by_token_hash q h)"
  "keeps (tx_rel same_core) (get_import_by_id q iid)"
  "keeps (tx_rel same_core) (get_post_image_by_id q iid)"
  "keeps (tx_rel same_core) (get_post_by_id q p)"
  "keeps (tx_rel same_core) (get_tenant q t)"
  "keeps (tx_rel same_core) (list_tenants q)"
  "keeps (tx_rel same_core) (list_tenant_members q t)"
  "keeps (tx_rel same_core) (list_post_summaries q st au)"
  unfolding enqueue_def create_import_def set_import_post_id_def insert_post_image_on_conflict_def
    delete_post_image_def set_session_scope_def delete_session_by_token_hash_def get_import_by_id_def
    get_post_image_by_id_def get_post_by_id_def get_tenant_def list_tenants_def list_tenant_members_def
    list_post_summaries_def
  by (intro core.keeps_stmt core_write; auto simp: core_defs split: if_splits)+


text \<open>Slugs are probed by reads, whatever their number.\<close>

lemma members_probe: "keeps (tx_rel same_members) (probe_slug q t base slug n)"
proof (induction q t base slug n rule: probe_slug.induct)
  case (1 q t base slug n)
  show ?case
    unfolding probe_slug.simps [of q t base slug n] slug_exists_def
    by (intro mem.keeps_stmt) (use 1 in auto)
qed

lemma members_statements:
  "keeps (tx_rel same_members) (unique_slug E q t base)"
  "keeps (tx_rel same_members) (create_post q p)"
  "keeps (tx_rel same_members) (update_post q p)"
  "keeps (tx_rel same_members) (set_post_status q i st at html)"
  "keeps (tx_rel same_members) (delete_post q i)"
  "keeps (tx_rel same_members) (get_post_by_id q i)"
  "keeps (tx_rel same_members) (bump_content_version q t)"
  "keeps (tx_rel same_members) (enqueue q jid kind key payload)"
  unfolding unique_slug_def create_post_def update_post_def set_post_status_def delete_post_def
    get_post_by_id_def bump_content_version_def enqueue_def Let_def
  by (intro mem.keeps_stmt members_probe mem.keeps_write; auto simp: core_defs split: if_splits option.splits)+

lemma members_purge: "keeps (tx_rel same_members) (purge q jid t p)"
  unfolding purge_def by (intro mem.keeps_stmt members_statements)

lemma members_posts:
  "keeps same_members (svc_create E cfg pid a inp)"
  "keeps same_members (svc_update E cfg jid a pid upd)"
  "keeps same_members (transition E cfg jid a pid st publishing)"
  "keeps same_members (svc_delete E a pid)"
  unfolding svc_create_def svc_update_def transition_def svc_delete_def Let_def
  by (intro mem.keeps_comp mem.keeps_scoped mem.keeps_scoped_ro mem.keeps_stmt members_statements members_purge)+


section \<open>Handlers\<close>

lemma keeps_void [simp]: "keeps R (void m) = keeps R m"
proof -
  have "snd (void m s) = snd (m s)" for s
    by (cases "m s"; cases "fst (m s)") (auto simp: void_def and_then_def)
  then show ?thesis by (simp add: keeps_def)
qed

text \<open>Handlers that write no tenant, membership, invitation or post.\<close>

lemma core_services:
  "keeps same_core (svc_get E a pid)"
  "keeps same_core (svc_list E a f)"
  "keeps same_core (media_delete E a iid)"
  "keeps same_core (confirm_act E C iid jid sc pid key sz mime)"
  "keeps same_core (import_start E exts put I iid oid jid a src)"
  "keeps same_core (import_get E a iid)"
  "keeps same_core (apply_link E a iid p)"
  unfolding svc_get_def svc_list_def media_delete_def confirm_act_def confirm_def import_start_def
    import_get_def load_import_def apply_link_def Let_def case_prod_beta
  by ((intro core.keeps_comp core.keeps_scoped core.keeps_scoped_ro core.keeps_stmt core_statements
      | simp split: source_kind.split option.split | intro conjI allI impI)+)

lemma core_reads:
  "keeps same_core (handle_posts_list S E M c)"
  "keeps same_core (handle_posts_get S E M c)"
  "keeps same_core (handle_posts_html S E M c)"
  "keeps same_core (handle_media_presign S E M c)"
  "keeps same_core (handle_media_delete S E M c)"
  "keeps same_core (handle_imports_status S E M c)"
  "keeps same_core (handle_members_list S E M c)"
  "keeps same_core (handle_tenants_list S E M c)"
  "keeps same_core (handle_tenants_get S E M c)"
  unfolding handle_posts_list_def handle_posts_get_def handle_posts_html_def handle_media_presign_def
    handle_media_delete_def handle_imports_status_def handle_members_list_def handle_tenants_list_def
    handle_tenants_get_def Let_def case_prod_beta
  by (intro core.keeps_handler core.keeps_if core.keeps_lift core_services core.keeps_scoped_ro core_statements)+

lemma core_account:
  "keeps same_core (handle_logout S E M c)"
  "keeps same_core (handle_me S E M c)"
proof -
  have "keeps same_core (logout E tok)" for tok
    unfolding logout_def by (intro core.keeps_scoped core_statements)
  then show "keeps same_core (handle_logout S E M c)" by (simp add: handle_logout_def keeps_def)
  have "keeps same_core (membership_views u)" for u by (simp add: membership_views_def keeps_def same_core_def)
  then show "keeps same_core (handle_me S E M c)"
    unfolding handle_me_def Let_def by (intro core.keeps_answer)
qed

lemma core_writes:
  "keeps same_core (handle_media_confirm S E M c)"
  "keeps same_core (handle_imports_start S E M c)"
  "keeps same_core (handle_set_tenant S E M c)"
proof -
  show "keeps same_core (handle_media_confirm S E M c)"
    unfolding handle_media_confirm_def case_prod_beta
    by (intro core.keeps_handler core.keeps_if core_services)
  show "keeps same_core (handle_imports_start S E M c)"
    unfolding handle_imports_start_def Let_def
    by (intro core.keeps_handler core.keeps_if)
      (auto split: upload.split intro!: core.keeps_handler core.keeps_if core_services)
  have "keeps same_core (\<lambda>d. (if p d then say r else answer (scoped_rw E unscoped (\<lambda>q. set_session_scope q h sc)) k) d)"
    for p r h sc k
    using core.keeps_say core.keeps_answer [OF core.keeps_scoped [OF core_statements(6)]]
    by (simp add: keeps_def)
  then show "keeps same_core (handle_set_tenant S E M c)"
    unfolding handle_set_tenant_def Let_def if_distribR [symmetric]
    by (intro core.keeps_body core.keeps_if core.keeps_say) (simp add: if_distribR)
qed


text \<open>A request on posts reaches rows of the actor's tenant only, and none without a tenant.\<close>

lemma no_tenant_no_cap: "\<not> a_platform a \<Longrightarrow> a_tenant a = None \<Longrightarrow> \<not> can a cp"
  by (simp add: can_def)

lemma op_foreign:
  assumes "\<not> a_platform a"
  shows "keeps (same_foreign (a_tenant a)) (exec_op E cfg jid a op)"
  unfolding keeps_def
proof
  fix d
  obtain r d' where x: "exec_op E cfg jid a op d = (r, d')" by fastforce
  note eff = exec_op_effect [OF x]
  have "keeps same_members (exec_op E cfg jid a op)"
    by (cases op) (simp_all add: members_posts svc_publish_def svc_unpublish_def svc_archive_def)
  then have m: "same_members d d'" using x by (rule keepsD)
  have "same_foreign (a_tenant a) d d'"
  proof (cases "a_tenant a")
    case None
    then have "d' = d"
      using eff no_tenant_no_cap [OF assms None] by (auto simp: may_edit_def elim!: op_effectE)
    then show ?thesis by (simp add: same_foreign_def)
  next
    case (Some t)
    then have "tenant_of_actor a = t" by (simp add: scope_tenant_actor)
    with effect_isolated [OF eff] assms Some m show ?thesis
      by (simp add: same_foreign_def foreign_rows_def same_members_def)
  qed
  then show "same_foreign (a_tenant a) d (snd (exec_op E cfg jid a op d))" using x by simp
qed

lemma posts_foreign:
  assumes "\<not> a_platform a"
  shows "keeps (same_foreign (a_tenant a)) (svc_create E cfg pid a inp)"
    "keeps (same_foreign (a_tenant a)) (svc_update E cfg jid a pid upd)"
    "keeps (same_foreign (a_tenant a)) (svc_publish E cfg jid a pid)"
    "keeps (same_foreign (a_tenant a)) (svc_unpublish E cfg jid a pid)"
    "keeps (same_foreign (a_tenant a)) (svc_delete E a pid)"
  using op_foreign [OF assms, of E cfg jid "OpCreate pid inp"] op_foreign [OF assms, of E cfg jid "OpUpdate pid upd"]
    op_foreign [OF assms, of E cfg jid "OpPublish pid"] op_foreign [OF assms, of E cfg jid "OpUnpublish pid"]
    op_foreign [OF assms, of E cfg jid "OpDelete pid"] by simp_all

lemma apply_foreign:
  assumes "\<not> a_platform a"
  shows "keeps (same_foreign (a_tenant a)) (import_apply E I pid a iid)"
proof -
  have "keeps (same_foreign (a_tenant a)) (load_import E a iid)" "keeps (same_foreign (a_tenant a)) (apply_link E a iid p)" for p
    unfolding load_import_def
    by (rule keeps_mono [of same_core], intro core.keeps_comp core.keeps_scoped_ro core_statements core_services, erule core_foreign)+
  then show ?thesis
    unfolding import_apply_def apply_draft_def
    by (intro walls.keeps_comp posts_foreign assms)
qed

lemma apply_members: "keeps same_members (import_apply E I pid a iid)"
proof -
  have "keeps same_members (load_import E a iid)" "keeps same_members (apply_link E a iid p)" for p
    unfolding load_import_def
    by (rule keeps_mono [of same_core], intro core.keeps_comp core.keeps_scoped_ro core_statements core_services,
        simp add: core_defs)+
  then show ?thesis
    unfolding import_apply_def apply_draft_def
    by (intro mem.keeps_comp members_posts)
qed

lemmas posts_handlers = handle_posts_create_def handle_posts_update_def handle_posts_delete_def
  handle_posts_publish_def handle_posts_unpublish_def handle_imports_apply_def

lemma walls_posts:
  assumes "\<not> a_platform (cx_actor c)"
  shows "keeps (same_foreign (a_tenant (cx_actor c))) (handle_posts_create S E M c)"
    "keeps (same_foreign (a_tenant (cx_actor c))) (handle_posts_update S E M c)"
    "keeps (same_foreign (a_tenant (cx_actor c))) (handle_posts_delete S E M c)"
    "keeps (same_foreign (a_tenant (cx_actor c))) (handle_posts_publish S E M c)"
    "keeps (same_foreign (a_tenant (cx_actor c))) (handle_posts_unpublish S E M c)"
    "keeps (same_foreign (a_tenant (cx_actor c))) (handle_imports_apply S E M c)"
  unfolding posts_handlers
  by (intro walls.keeps_handler walls.keeps_if posts_foreign apply_foreign assms)+

lemma members_handlers:
  "keeps same_members (handle_posts_create S E M c)"
  "keeps same_members (handle_posts_update S E M c)"
  "keeps same_members (handle_posts_delete S E M c)"
  "keeps same_members (handle_posts_publish S E M c)"
  "keeps same_members (handle_posts_unpublish S E M c)"
  "keeps same_members (handle_imports_apply S E M c)"
  unfolding posts_handlers svc_publish_def svc_unpublish_def
  by (intro mem.keeps_handler mem.keeps_if members_posts apply_members)+

section \<open>Members and tenants\<close>

lemma walls_members:
  "keeps (same_foreign (a_tenant (cx_actor c))) (handle_members_invite S E M c)"
  "keeps (same_foreign (a_tenant (cx_actor c))) (handle_members_set_role S E M c)"
  "keeps (same_foreign (a_tenant (cx_actor c))) (handle_members_remove S E M c)"
  unfolding handle_members_invite_def handle_members_set_role_def handle_members_remove_def Let_def case_prod_beta
    insert_invitation_def set_membership_role_def remove_membership_def
  by (intro walls.keeps_handler walls.keeps_if walls.keeps_option walls.keeps_scoped walls.keeps_stmt walls.keeps_write;
      auto simp: same_foreign_def foreign_rows_def of_member_def Let_def intro!: filter_upd_rows filter_del_rows split: if_splits)+

lemma roles_members:
  "keeps (granted_by (cx_actor c)) (handle_members_invite S E M c)"
  "keeps (granted_by (cx_actor c)) (handle_members_set_role S E M c)"
  "keeps (granted_by (cx_actor c)) (handle_members_remove S E M c)"
  unfolding handle_members_invite_def handle_members_set_role_def handle_members_remove_def Let_def case_prod_beta
    insert_invitation_def set_membership_role_def remove_membership_def
  by (intro roles.keeps_handler roles.keeps_if roles.keeps_option roles.keeps_scoped roles.keeps_stmt roles.keeps_write;
      auto simp: granted_by_def may_grant_def of_member_def Let_def can_def set_upd_rows split: if_splits)+


lemma core_purge_site: "keeps (tx_rel same_core) (purge_site q jid i v)"
  unfolding purge_site_def by (intro core.keeps_stmt core_statements)

lemma tenant_acts:
  "keeps (same_foreign (Some i)) (tenant_update_act E jid i name settings)"
  "keeps (same_foreign (Some i)) (tenant_delete_act E jid i)"
  "keeps same_members (tenant_update_act E jid i name settings)"
  "keeps same_members (scoped_rw E unscoped (\<lambda>q. create_tenant q i slug nm))"
proof -
  have p: "keeps (tx_rel (same_foreign t)) (purge_site q jid i v)" "keeps (tx_rel same_members) (purge_site q jid i v)" for t q v
    by (rule keeps_mono [OF core_purge_site], auto simp: tx_rel_def core_defs same_foreign_def foreign_rows_def)+
  show "keeps (same_foreign (Some i)) (tenant_update_act E jid i name settings)"
    unfolding tenant_update_act_def update_tenant_def
    by (intro walls.keeps_scoped walls.keeps_stmt p walls.keeps_write)
      (auto simp: same_foreign_def foreign_rows_def tenant_with_def intro!: filter_upd_rows split: option.splits if_splits)
  show "keeps (same_foreign (Some i)) (tenant_delete_act E jid i)"
    unfolding tenant_delete_act_def delete_tenant_def Let_def
    by (intro walls.keeps_scoped walls.keeps_stmt p walls.keeps_write)
      (auto simp: same_foreign_def foreign_rows_def del_rows_def split: if_splits)
  show "keeps same_members (tenant_update_act E jid i name settings)"
    unfolding tenant_update_act_def update_tenant_def
    by (intro mem.keeps_scoped mem.keeps_stmt p mem.keeps_write)
      (auto simp: core_defs split: option.splits if_splits)
  show "keeps same_members (scoped_rw E unscoped (\<lambda>q. create_tenant q i slug nm))"
    unfolding create_tenant_def
    by (intro mem.keeps_scoped mem.keeps_write) (auto simp: core_defs split: if_splits)
qed

lemma granted_delete:
  assumes "a_platform a \<or> (a_tenant a = Some i \<and> RoleAdmin \<le> a_role a)"
  shows "keeps (granted_by a) (tenant_delete_act E jid i)"
proof -
  have p: "keeps (tx_rel (granted_by a)) (purge_site q jid i v)" for q v
    by (rule keeps_mono [OF core_purge_site]) (simp add: tx_rel_def core_granted)
  show ?thesis
    unfolding tenant_delete_act_def delete_tenant_def Let_def
    by (intro roles.keeps_scoped roles.keeps_stmt p roles.keeps_write)
      (use assms in \<open>auto simp: granted_by_def split: if_splits\<close>)
qed

lemma walls_tenants:
  assumes "\<not> a_platform (cx_actor c)"
  shows "keeps (same_foreign (a_tenant (cx_actor c))) (handle_tenants_create S E M c)"
    "keeps (same_foreign (a_tenant (cx_actor c))) (handle_tenants_update S E M c)"
    "keeps (same_foreign (a_tenant (cx_actor c))) (handle_tenants_delete S E M c)"
  using assms tenant_acts(1,2)
  unfolding handle_tenants_create_def handle_tenants_update_def handle_tenants_delete_def case_prod_beta
  by ((intro walls.keeps_handler; auto simp: tenant_manageable_def split: if_splits)+)

lemma roles_tenants:
  "keeps (granted_by (cx_actor c)) (handle_tenants_create S E M c)"
  "keeps (granted_by (cx_actor c)) (handle_tenants_update S E M c)"
  "keeps (granted_by (cx_actor c)) (handle_tenants_delete S E M c)"
proof -
  show "keeps (granted_by (cx_actor c)) (handle_tenants_create S E M c)"
    unfolding handle_tenants_create_def case_prod_beta
    by (intro roles.keeps_handler roles.keeps_if keeps_mono [OF tenant_acts(4)] members_granted)
  show "keeps (granted_by (cx_actor c)) (handle_tenants_update S E M c)"
    unfolding handle_tenants_update_def case_prod_beta
    by (intro roles.keeps_handler keeps_mono [OF tenant_acts(3)] members_granted)
  show "keeps (granted_by (cx_actor c)) (handle_tenants_delete S E M c)"
    unfolding handle_tenants_delete_def
    by (intro roles.keeps_handler granted_delete)
      (auto simp: tenant_manageable_def less_eq_role_def split: if_splits)
qed

section \<open>Endpoints\<close>

definition open_endpoint :: "endpoint \<Rightarrow> bool" where
  "open_endpoint ep =
     (ep \<in> {Livez, Readyz, PubSite, PubList, PubGet, PubHtml, Signup, Login, OAuthStart, OAuthCallback})"

lemma core_keeps: "keeps same_core h \<Longrightarrow> keeps (same_foreign t) h" "keeps same_core h \<Longrightarrow> keeps (granted_by a) h"
  by (erule keeps_mono, erule core_foreign) (erule keeps_mono, erule core_granted)

lemma members_keeps: "keeps same_members h \<Longrightarrow> keeps (granted_by a) h"
  by (erule keeps_mono) (erule members_granted)

lemma handler_walls:
  assumes "handler_of ep = Some h" "\<not> open_endpoint ep"
  shows "\<not> a_platform (cx_actor c) \<Longrightarrow> keeps (same_foreign (a_tenant (cx_actor c))) (h S E M c)"
    and "keeps (granted_by (cx_actor c)) (h S E M c)"
proof -
  show "keeps (same_foreign (a_tenant (cx_actor c))) (h S E M c)" if "\<not> a_platform (cx_actor c)"
    using assms that walls_members walls_posts walls_tenants core_reads core_account core_writes
    by (cases ep) (auto simp: open_endpoint_def intro!: core_keeps(1))
  show "keeps (granted_by (cx_actor c)) (h S E M c)"
    using assms roles_members roles_tenants members_handlers [THEN members_keeps] core_reads core_account core_writes
    by (cases ep) (auto simp: open_endpoint_def intro!: core_keeps(2))
qed

text \<open>Every route that is not open is behind \<open>auth\<close>, and every route under /admin is such a route.\<close>

lemma routes_guarded:
  assumes "(m, ps, ws, ep) \<in> set routes" "\<not> open_endpoint ep"
  shows "ws \<in> {[Base, Session], [Base, IpRate, Session]} \<and> handler_of ep \<noteq> None"
  using assms by (auto simp: routes_def public_routes_def auth_routes_def session_routes_def open_endpoint_def)

lemma admin_routes:
  assumes "(m, ps, ws, ep) \<in> set routes" "match_path ps (''admin'' # rest) \<noteq> None"
  shows "\<not> open_endpoint ep"
  using assms by (auto simp: routes_def public_routes_def auth_routes_def session_routes_def open_endpoint_def)

lemma routes_methods: "(m, ps, ws, ep) \<in> set routes \<Longrightarrow> m \<noteq> ''OPTIONS''"
  by (auto simp: routes_def public_routes_def auth_routes_def session_routes_def)

end
