(* ===== verification/Server.thy ===== *)
theory Server
  imports Walls
begin

text \<open>
  The server as a whole: what a request can do to the database, by who sends it.
\<close>

section \<open>Requests behind a session\<close>

lemma run_handler:
  "handler_of ep = Some h \<Longrightarrow> run_endpoint S E M ep c s =
     (fst (h S E M c (st_db s)), s\<lparr>st_db := snd (h S E M c (st_db s))\<rparr>)"
  by (simp add: run_endpoint_def case_prod_beta)

text \<open>
  What the session wrapper makes of a state: the answer to nobody, or what the handler does for the
  token's actor.
\<close>

definition session_outcome ::
  "server \<Rightarrow> env \<Rightarrow> mint \<Rightarrow> endpoint \<Rightarrow> call \<Rightarrow> db \<Rightarrow> reply \<Rightarrow> db \<Rightarrow> bool" where
  "session_outcome S E M ep c d rep d' \<longleftrightarrow>
     (case authenticate E (session_token (sv_cookie S) (cx_request c)) d of
        None \<Rightarrow> d' = d \<and> rp_status rep = 401
      | Some a \<Rightarrow> (\<exists>h c'. handler_of ep = Some h \<and> cx_actor c' = a \<and> d' = snd (h S E M c' d)))"

lemma through_session:
  assumes "through K S E M ep [Session] seen c s = (rep, s')" "handler_of ep = Some h"
  shows "session_outcome S E M ep c (st_db s) rep (st_db s')"
proof (cases "authenticate E (session_token (sv_cookie S) (cx_request c)) (st_db s)")
  case None
  with assms(1) show ?thesis by (auto simp: session_outcome_def Let_def write_error_def reply_of_def)
next
  case (Some a)
  let ?c = "c\<lparr>cx_actor := a, cx_token := session_token (sv_cookie S) (cx_request c)\<rparr>"
  have "st_db s' = snd (h S E M ?c (st_db s))" "cx_actor ?c = a"
    using assms Some by (auto simp: Let_def run_handler)
  with Some assms(2) show ?thesis unfolding session_outcome_def by (simp add: exI [of _ ?c])
qed

lemma through_limited:
  "through K S E M ep (IpRate # ws) seen c =
     limited K E (''mutation|'' @ client_ip (cx_request c)) (through K S E M ep ws seen c)"
  by (rule ext) simp

lemma limited_outcome:
  assumes "limited K E key k s = (rep, s')"
  obtains (ok) m where "k (s\<lparr>st_limits := m\<rparr>) = (rep, s')"
    | (refused) "st_db s' = st_db s" "rp_status rep = 429"
  using assms by (auto simp: limited_def write_error_def reply_of_def split: prod.splits if_splits)

lemma cors_outcome:
  assumes "cors S r k s = (rep, s')" "hr_method r \<noteq> ''OPTIONS''"
  obtains rep' where "k s = (rep', s')" "rp_status rep' = rp_status rep"
  using assms by (auto simp: cors_def Let_def split: if_splits prod.splits)

lemma route_ofD: "route_of r = Some rt \<Longrightarrow> rt \<in> set routes" "route_of r = Some rt \<Longrightarrow> on_route r rt"
  unfolding route_of_def by (blast dest: find_SomeD)+

text \<open>A guarded route does what the session wrapper does, or refuses under the limit.\<close>

lemma serve_session:
  assumes "serve K S E M r s = (rep, s')" "route_of r = Some (m, ps, ws, ep)" "\<not> open_endpoint ep"
  shows "(\<exists>c rep'. cx_request c = r \<and> rp_status rep' = rp_status rep \<and>
      session_outcome S E M ep c (st_db s) rep' (st_db s')) \<or> (st_db s' = st_db s \<and> rp_status rep = 429)"
proof -
  note rt = route_ofD [OF assms(2)]
  note ws = routes_guarded [OF rt(1) assms(3), THEN conjunct1]
  have get: "hr_method r \<noteq> ''OPTIONS''" using rt(2) routes_methods [OF rt(1)] by (auto simp: on_route_def)
  from routes_guarded [OF rt(1) assms(3)] obtain h where h: "handler_of ep = Some h" by auto
  define c where "c = bare_call r (case match_path ps (hr_path r) of None \<Rightarrow> [] | Some vs \<Rightarrow> vs)"
  have c: "cx_request c = r" by (simp add: c_def bare_call_def)
  have run: "through K S E M ep ws None c s = (rep, s')" using assms(1,2) by (simp add: serve_def c_def)
  from ws consider "ws = [Base, Session]" | "ws = [Base, IpRate, Session]" by blast
  then show ?thesis
  proof cases
    assume "ws = [Base, Session]"
    with run c have "cors S r (through K S E M ep [Session] None c) s = (rep, s')" by simp
    then obtain rep' where "through K S E M ep [Session] None c s = (rep', s')" "rp_status rep' = rp_status rep"
      using get by (rule cors_outcome)
    with through_session [OF _ h] c show ?thesis by blast
  next
    assume "ws = [Base, IpRate, Session]"
    with run c have "cors S r (limited K E (''mutation|'' @ client_ip r) (through K S E M ep [Session] None c)) s = (rep, s')"
      by (simp only: through.simps through_limited)
    then obtain rep' where l: "limited K E (''mutation|'' @ client_ip r) (through K S E M ep [Session] None c) s = (rep', s')"
        "rp_status rep' = rp_status rep"
      using get by (rule cors_outcome)
    from l(1) show ?thesis
    proof (cases rule: limited_outcome)
      case (ok m)
      with through_session [OF ok h] c l(2) show ?thesis by auto
    qed (use l(2) in simp)
  qed
qed

lemma serve_keeps:
  assumes "serve K S E M r s = (rep, s')" "route_of r = Some (m, ps, ws, ep)" "\<not> open_endpoint ep"
    and "authenticate E (session_token (sv_cookie S) r) (st_db s) = Some a" "R (st_db s) (st_db s)"
    and "\<And>h c. handler_of ep = Some h \<Longrightarrow> cx_actor c = a \<Longrightarrow> keeps R (h S E M c)"
  shows "R (st_db s) (st_db s')"
  using serve_session [OF assms(1-3)]
proof (elim disjE exE conjE)
  fix c rep'
  assume "cx_request c = r" "session_outcome S E M ep c (st_db s) rep' (st_db s')"
  then show ?thesis using assms(4,6) by (auto simp: session_outcome_def keeps_def)
qed (use assms(5) in simp)

section \<open>Properties\<close>

text \<open>
  C1. Tenants are walled off: whatever request an actor without the platform role sends to a route that
  needs a session, the tenants, memberships, invitations and posts of every tenant other than the
  actor's stay the same; for an actor without a tenant all of them do.
\<close>

theorem tenant_walls:
  assumes "serve K S E M r s = (rep, s')" "route_of r = Some (m, ps, ws, ep)" "\<not> open_endpoint ep"
    and "authenticate E (session_token (sv_cookie S) r) (st_db s) = Some a" "\<not> a_platform a"
  shows "foreign_rows (a_tenant a) (st_db s') = foreign_rows (a_tenant a) (st_db s)"
proof -
  have "same_foreign (a_tenant a) (st_db s) (st_db s')"
    using handler_walls(1) [OF _ assms(3)] assms(5)
    by (intro serve_keeps [OF assms(1-4), of "same_foreign (a_tenant a)"] walls.R_refl) blast
  then show ?thesis by (simp add: same_foreign_def)
qed


text \<open>
  C3. Without a valid session nothing under /admin happens: the request is answered with 401, with 404
  or 405 when no route has the path or method, or with 429, and the database stays as it is.
\<close>

theorem anonymous_refused:
  assumes "serve K S E M r s = (rep, s')" "hr_path r = ''admin'' # rest"
    and "authenticate E (session_token (sv_cookie S) r) (st_db s) = None"
  shows "st_db s' = st_db s \<and> rp_status rep \<in> {401, 404, 405, 429}"
proof (cases "route_of r")
  case None
  then show ?thesis using assms(1) by (auto simp: serve_def reply_of_def split: if_splits)
next
  case (Some rt)
  obtain m ps ws ep where rt: "rt = (m, ps, ws, ep)" by (cases rt)
  note r = route_ofD [OF Some]
  have "match_path ps (''admin'' # rest) \<noteq> None" using r(2) rt assms(2) by (simp add: on_route_def)
  then have "\<not> open_endpoint ep" using admin_routes r(1) rt by blast
  from serve_session [OF assms(1) Some [unfolded rt] this] show ?thesis
    by (elim disjE exE conjE) (use assms(3) in \<open>simp_all add: session_outcome_def\<close>)
qed


section \<open>Examples\<close>

definition open_limits :: "unit bucket_ops" where
  "open_limits = \<lparr>bk_fresh = (), bk_take = (\<lambda>now b. (True, b))\<rparr>"

definition sample_server :: server where
  "sample_server = \<lparr>sv_posts = sample_cfg, sv_media = sample_media, sv_imports = sample_import_config,
     sv_hasher = sample_hasher, sv_oauth = None, sv_idp = sample_idp, sv_pub = sample_api, sv_codec = sample_codec,
     sv_cookie = ''sid'', sv_origins = [''https://editor.example.com''], sv_alike = (=),
     sv_uuid = (\<lambda>s. if s = ''five'' then Some 5 else None), sv_render = (\<lambda>u h q. h), sv_exts = (\<lambda>m. []),
     sv_put = (\<lambda>k b. None), sv_ping = True\<rparr>"

definition sample_mint :: mint where
  "sample_mint = \<lparr>mt_id = 50, mt_object = 51, mt_job = 52, mt_raw = ''raw'', mt_salt = ''salt'', mt_state = ''state'',
     mt_verifier = ''verifier'', mt_nonce1 = ''n1'', mt_nonce2 = ''n2''\<rparr>"

text \<open>A tenant with an admin, who is logged in, and an author; and the admin's request to promote the author.\<close>

definition sample_office :: "string \<Rightarrow> unit site" where
  "sample_office role = \<lparr>st_db = empty_db\<lparr>tenants := [sample_tenant],
       users := [sample_user, sample_user\<lparr>us_id := 5, us_email := ''b@example.com''\<rparr>],
       memberships := [\<lparr>m_tenant = 1, m_user = 2, m_role = ''admin''\<rparr>, \<lparr>m_tenant = 1, m_user = 5, m_role = role\<rparr>],
       sessions := [\<lparr>s_hash = ''tok'', s_user = 2, s_scope = Some 1, s_expires = 1000, s_created = 0\<rparr>]\<rparr>,
     st_limits = (\<lambda>k. None), st_cache = resolver_new 10\<rparr>"

definition sample_promotion :: request where
  "sample_promotion = \<lparr>hr_method = ''PATCH'', hr_path = [''admin'', ''members'', ''five''], hr_remote = ''10.0.0.1:80'',
     hr_authorization = ''Bearer tok'', hr_cookies = [], hr_origin = [], hr_if_none_match = [], hr_content_type = [],
     hr_query = [], hr_body = Parsed (JObj [(''role'', JStr ''editor'')]), hr_file = NoFile\<rparr>"

lemma sample_route:
  "route_of sample_promotion = Some (''PATCH'', admin_path ''members'' [Val], [Base, IpRate, Session], MembersSetRole)"
  by (simp add: route_of_def routes_def public_routes_def auth_routes_def session_routes_def on_route_def sample_promotion_def)

lemma sample_token: "session_token ''sid'' sample_promotion = ''tok''"
proof -
  have "map lower_byte ''Bearer '' = ''bearer ''" by code_simp
  then show ?thesis
    by (simp add: session_token_def sample_promotion_def Let_def trim_space_visible visible_char_def)
qed

lemma sample_promotion_sel:
  "hr_method sample_promotion = ''PATCH''" "hr_path sample_promotion = [''admin'', ''members'', ''five'']"
  "hr_origin sample_promotion = []" "hr_body sample_promotion = Parsed (JObj [(''role'', JStr ''editor'')])"
  by (simp_all add: sample_promotion_def)

definition sample_admin :: actor where
  "sample_admin = \<lparr>a_user = 2, a_tenant = Some 1, a_role = RoleAdmin, a_platform = False\<rparr>"

lemmas office_defs = sample_office_def sample_tenant_def sample_user_def empty_db_def sample_env_def

lemma sample_auth: "authenticate sample_env ''tok'' (st_db (sample_office role)) = Some sample_admin"
  by (simp add: authenticate_def verify_session_def scoped_def run_tx_def get_session_by_token_hash_def token_hash_def
      and_then_def handle_def resolve_actor_def is_super_admin_def membership_role_def of_member_def parse_role_def
      office_defs sample_admin_def)

lemma sample_promoted:
  "\<exists>rep s'. serve open_limits sample_server sample_env sample_mint sample_promotion (sample_office ''author'') = (rep, s') \<and>
     rp_status rep = 204 \<and> memberships (st_db s') =
       [\<lparr>m_tenant = 1, m_user = 2, m_role = ''admin''\<rparr>, \<lparr>m_tenant = 1, m_user = 5, m_role = ''editor''\<rparr>]"
proof -
  have name: "sv_cookie sample_server = ''sid''" by (simp add: sample_server_def)
  let ?c = "\<lparr>cx_request = sample_promotion, cx_values = [''five''], cx_actor = sample_admin, cx_token = ''tok''\<rparr>"
  have h: "handle_members_set_role sample_server sample_env sample_mint ?c (st_db (sample_office ''author'')) =
      (reply_of 204 NoOut, (st_db (sample_office ''author''))\<lparr>memberships :=
         [\<lparr>m_tenant = 1, m_user = 2, m_role = ''admin''\<rparr>, \<lparr>m_tenant = 1, m_user = 5, m_role = ''editor''\<rparr>]\<rparr>)"
    by (simp add: handle_members_set_role_def with_cap_def with_tenant_scope_def with_id_def path_id_def with_body_def
        field_then_def decode_struct_def decode_field_def equal_fold_def valid_role_def answer_or_def scoped_rw_def
        run_tx_def set_membership_role_def and_then_def affected_def known_role_def of_member_def can_def
        less_eq_role_def sample_admin_def sample_server_def sample_promotion_sel sample_office_def is_ascii_def lower_byte_def is_upper_def)
  show ?thesis
    using sample_route sample_token sample_auth h
    by (simp add: serve_def name sample_promotion_sel cors_def limited_def allow_def open_limits_def Let_def bare_call_def run_handler reply_of_def)
qed


lemma sample_server_cookie: "sv_cookie sample_server = ''sid''"
  by (simp add: sample_server_def)

lemma tenant_walls_witness:
  "\<exists>rep s'. serve open_limits sample_server sample_env sample_mint sample_promotion (sample_office ''author'') = (rep, s') \<and>
     rp_status rep = 204 \<and> foreign_rows (Some 1) (st_db s') = foreign_rows (Some 1) (st_db (sample_office ''author''))"
proof -
  obtain rep s' where run: "serve open_limits sample_server sample_env sample_mint sample_promotion (sample_office ''author'') = (rep, s')"
    "rp_status rep = 204" using sample_promoted by blast
  have "\<not> open_endpoint MembersSetRole" by (simp add: open_endpoint_def)
  from tenant_walls [OF run(1) sample_route this, unfolded sample_server_cookie sample_token, OF sample_auth]
  show ?thesis using run by (simp add: sample_admin_def)
qed


lemma anonymous_refused_witness:
  "\<exists>rep s'. serve open_limits sample_server sample_env sample_mint (sample_promotion\<lparr>hr_authorization := []\<rparr>)
       (sample_office ''author'') = (rep, s') \<and> st_db s' = st_db (sample_office ''author'') \<and> rp_status rep \<in> {401, 404, 405, 429}"
proof -
  let ?r = "sample_promotion\<lparr>hr_authorization := []\<rparr>"
  obtain rep s' where run: "serve open_limits sample_server sample_env sample_mint ?r (sample_office ''author'') = (rep, s')"
    by fastforce
  have "session_token (sv_cookie sample_server) ?r = []"
    by (simp add: session_token_def sample_promotion_def Let_def)
  moreover have "authenticate sample_env [] (st_db (sample_office ''author'')) = None"
    by (simp add: authenticate_def verify_session_def scoped_def run_tx_def get_session_by_token_hash_def token_hash_def
        and_then_def handle_def office_defs)
  moreover have "hr_path ?r = ''admin'' # [''members'', ''five'']" by (simp add: sample_promotion_def)
  ultimately have "st_db s' = st_db (sample_office ''author'') \<and> rp_status rep \<in> {401, 404, 405, 429}"
    using anonymous_refused [OF run] by simp
  with run show ?thesis by blast
qed

section \<open>What the composition leaves open\<close>

text \<open>
  The email of a sign-up or login is never limited: the limiter runs before the body is captured, so it
  looks at the address of the client only.
\<close>

lemma email_limit_dead:
  "through K S E M ep [AuthRate, CaptureBody] None c =
     limited K E (''auth|'' @ client_ip (cx_request c)) (through K S E M ep [CaptureBody] None c)"
  by (rule ext) (simp add: body_email_def Let_def)

text \<open>
  A preflight request is never answered: no pattern has the method OPTIONS, so the multiplexer refuses it
  before \<open>cors\<close> runs.
\<close>

lemma preflight_refused:
  assumes "hr_method r = ''OPTIONS''" "serve K S E M r s = (rep, s')"
  shows "rp_cors rep = None \<and> rp_status rep \<in> {404, 405} \<and> s' = s"
proof -
  have "route_of r = None"
  proof (rule ccontr)
    assume "route_of r \<noteq> None"
    then obtain m ps ws ep where "route_of r = Some (m, ps, ws, ep)" by (metis option.exhaust prod_cases4)
    then show False
      using routes_methods route_ofD assms(1) by (fastforce simp: on_route_def)
  qed
  then show ?thesis using assms(2) by (auto simp: serve_def reply_of_def split: if_splits)
qed

text \<open>An image that the actor may not delete is answered as a fault of the server.\<close>

lemma media_forbidden_is_internal:
  "service_error ErrMediaForbidden = write_error 500 code_internal ''internal server error''"
  by (simp add: service_error_def map_error_def code_for_status_def)

text \<open>
  A session whose scope is a tenant that its user has left is locked: every request is refused, the one
  that would choose another tenant and the logout too.
\<close>

lemma stale_scope_locked:
  assumes "fst (verify_session E tok d) = Inr (u, t)" "t \<noteq> nil_uuid"
    and "find (\<lambda>x. us_id x = u) (users d) = Some x" "\<not> us_super x" "find (of_member t u) (memberships d) = None"
  shows "authenticate E tok d = None"
  using assms
  by (simp add: authenticate_def resolve_actor_def is_super_admin_def membership_role_def and_then_def handle_def)

text \<open>An admin demotes an owner.\<close>

lemma admin_demotes_owner:
  assumes "a_tenant (cx_actor c) = Some t" "a_role (cx_actor c) = RoleAdmin" "\<not> a_platform (cx_actor c)"
    and "path_id S c = Some u" "hr_body (cx_request c) = Parsed (JObj [(''role'', JStr ''author'')])"
    and "\<lparr>m_tenant = t, m_user = u, m_role = ''owner''\<rparr> \<in> set (memberships d)"
  shows "handle_members_set_role S E M c d =
     (reply_of 204 NoOut, d\<lparr>memberships := upd_rows (of_member t u) (\<lambda>m. m\<lparr>m_role := ''author''\<rparr>) (memberships d)\<rparr>)"
proof -
  have "filter (of_member t u) (memberships d) \<noteq> []"
    using assms(6) by (force simp: filter_empty_conv of_member_def)
  then show ?thesis
    using assms(1-5)
    by (simp add: handle_members_set_role_def with_cap_def with_tenant_scope_def with_id_def with_body_def
        field_then_def decode_struct_def decode_field_def equal_fold_def valid_role_def answer_or_def scoped_rw_def
        run_tx_def set_membership_role_def and_then_def affected_def known_role_def can_def less_eq_role_def
        is_ascii_def lower_byte_def is_upper_def)
qed

text \<open>A tenant that does not exist is deleted with success, and leaves a purge job behind.\<close>

lemma absent_tenant_deleted:
  assumes "\<not> has_tenant d i" "\<forall>j \<in> set (jobs d). \<not> same_job purge_job_kind (Some (uuid_string i)) j \<and> j_id j \<noteq> jid"
  shows "\<exists>j. tenant_delete_act E jid i d = (Inr (), d\<lparr>jobs := jobs d @ [j]\<rparr>)"
proof -
  have "runs (and_then (purge_site (tx_of E False unscoped) jid i None) (\<lambda>_. delete_tenant (tx_of E False unscoped) i)) d ()
      (d\<lparr>jobs := jobs d @ [new_job (tx_of E False unscoped) jid purge_job_kind (Some (uuid_string i))
        (JobPayload i (PurgeData i None None [''/'']))]\<rparr>)"
    using assms
    by (auto simp: runs_def purge_site_def enqueue_def delete_tenant_def has_tenant_def and_then_def handle_def
        nullif_empty_def Let_def)
  then show ?thesis unfolding tenant_delete_act_def scoped_rw_runs by blast
qed

text \<open>A platform operator's session is scoped to any identifier, whether a tenant has it or not.\<close>

lemma platform_scope_unchecked:
  assumes "a_platform (cx_actor c)" "t \<noteq> nil_uuid"
    and "field_then (struct_of S c [''tenant_id'']) (\<lambda>kvs. uuid_field S kvs ''tenant_id'') = Inr t"
    and "s \<in> set (sessions d)" "s_hash s = token_hash E (cx_token c)"
  shows "fst (handle_set_tenant S E M c d) = reply_of 200 (ScopeOut t)"
proof -
  have "filter (\<lambda>s. s_hash s = token_hash E (cx_token c)) (sessions d) \<noteq> []"
    using assms(4,5) by (auto simp: filter_empty_conv)
  then show ?thesis
    using assms(1-3)
    by (simp add: handle_set_tenant_def with_body_def answer_or_def scoped_rw_def run_tx_def set_session_scope_def
        and_then_def affected_def Let_def)
qed

end
