(* ===== verification/Limiter.thy ===== *)
theory Limiter
  imports Http
begin

text \<open>
  The limiter of internal/api/middleware.go over time: its janitor drops the buckets of idle keys, which
  no client can tell from a limiter that keeps them.
\<close>

section \<open>Events\<close>

datatype limiter_event = Take time string | Tick time

fun event_time :: "limiter_event \<Rightarrow> time" where
  "event_time (Take now key) = now"
| "event_time (Tick now) = now"

fun is_take :: "limiter_event \<Rightarrow> bool" where
  "is_take (Take now key) = True"
| "is_take (Tick now) = False"

text \<open>What the limiter answers to the requests of a history.\<close>

fun answers :: "'b bucket_ops \<Rightarrow> limiter_event list \<Rightarrow> 'b buckets \<Rightarrow> bool list" where
  "answers K [] m = []"
| "answers K (Take now key # es) m = (case allow K now key m of (ok, m') \<Rightarrow> ok # answers K es m')"
| "answers K (Tick now # es) m = answers K es (janitor now m)"

section \<open>Buckets\<close>

text \<open>The buckets that can be in the map with a last use.\<close>

inductive bucket_at :: "'b bucket_ops \<Rightarrow> time \<Rightarrow> 'b \<Rightarrow> bool" for K where
  at_first: "bk_take K now (bk_fresh K) = (ok, b) \<Longrightarrow> bucket_at K now b"
| at_next: "bucket_at K used b \<Longrightarrow> used \<le> now \<Longrightarrow> bk_take K now b = (ok, b') \<Longrightarrow> bucket_at K now b'"

text \<open>
  What the documentation of golang.org/x/time/rate gives for a bucket of 40 tokens, initially full and
  refilled with 10 a second: one that has not been used for longer than the idle time to live is full.
\<close>

definition refills :: "'b bucket_ops \<Rightarrow> bool" where
  "refills K \<longleftrightarrow> (\<forall>used b now. bucket_at K used b \<longrightarrow> used + idle_ttl < now \<longrightarrow> bk_take K now b = bk_take K now (bk_fresh K))"

text \<open>A map after sweeps, and the map that would be there without them.\<close>

definition swept :: "'b bucket_ops \<Rightarrow> time \<Rightarrow> 'b buckets \<Rightarrow> 'b buckets \<Rightarrow> bool" where
  "swept K now m m' \<longleftrightarrow>
     (\<forall>key b used. m' key = Some (b, used) \<longrightarrow> bucket_at K used b \<and> used \<le> now) \<and>
     (\<forall>key. m key = m' key \<or> (m key = None \<and> (\<exists>b used. m' key = Some (b, used) \<and> used + idle_ttl < now)))"

lemma swept_later: "swept K now m m' \<Longrightarrow> now \<le> t \<Longrightarrow> swept K t m m'"
  unfolding swept_def by (metis order_trans order_less_le_trans)

lemma swept_janitor: "swept K now m m' \<Longrightarrow> swept K now (janitor now m) m'"
  by (auto simp: swept_def janitor_def split: option.splits prod.splits)
    (metis add.commute diff_less_eq less_diff_eq option.distinct(1))+

lemma swept_take:
  assumes "swept K now m m'" "bucket_at K now b"
  shows "swept K now (m(key \<mapsto> (b, now))) (m'(key \<mapsto> (b, now)))"
  using assms unfolding swept_def by (simp only: fun_upd_apply) (simp split: if_split)

lemma allow_swept:
  assumes "refills K" "swept K now m m'" "allow K now key m = (ok, n)" "allow K now key m' = (ok', n')"
  shows "ok = ok' \<and> swept K now n n'"
proof -
  have same: "bk_take K now (case m key of None \<Rightarrow> bk_fresh K | Some (b, used) \<Rightarrow> b) =
      bk_take K now (case m' key of None \<Rightarrow> bk_fresh K | Some (b, used) \<Rightarrow> b)"
  proof (cases "m key = m' key")
    case False
    then obtain b used where "m key = None" "m' key = Some (b, used)" "used + idle_ttl < now" "bucket_at K used b"
      using assms(2) unfolding swept_def by metis
    with assms(1) show ?thesis by (simp add: refills_def)
  qed simp
  obtain k b where t: "bk_take K now (case m' key of None \<Rightarrow> bk_fresh K | Some (b, used) \<Rightarrow> b) = (k, b)" by fastforce
  have "bucket_at K now b"
  proof (cases "m' key")
    case None
    with t show ?thesis by (auto intro: at_first)
  next
    case (Some x)
    then obtain c used where "m' key = Some (c, used)" by (cases x) simp
    with t assms(2) show ?thesis by (auto simp: swept_def intro: at_next)
  qed
  moreover have "ok = k" "n = m(key \<mapsto> (b, now))" "ok' = k" "n' = m'(key \<mapsto> (b, now))"
    using assms(3,4) t same by (auto simp: allow_def)
  ultimately show ?thesis using swept_take [OF assms(2)] by blast
qed

lemma answers_swept:
  assumes "refills K" "swept K now m m'" "sorted (map event_time es)" "\<forall>e \<in> set es. now \<le> event_time e"
  shows "answers K es m = answers K (filter is_take es) m'"
  using assms(2-)
proof (induction es arbitrary: now m m')
  case (Cons e es)
  have later: "swept K (event_time e) m m'" using swept_later [OF Cons.prems(1)] Cons.prems(3) by simp
  show ?case
  proof (cases e)
    case (Take t key)
    obtain ok n ok' n' where a: "allow K t key m = (ok, n)" "allow K t key m' = (ok', n')" by fastforce
    have "ok = ok'" "swept K t n n'" using allow_swept [OF assms(1) _ a] later Take by simp_all
    with Cons.IH [of t n n'] Cons.prems(2) Take a show ?thesis by simp
  next
    case (Tick t)
    with swept_janitor [OF later] Cons.IH [of t "janitor t m" m'] Cons.prems(2) show ?thesis by simp
  qed
qed simp

section \<open>Properties\<close>

text \<open>
  C38. Eviction is unobservable: whatever requests arrive, and whenever the janitor runs between them, the
  limiter answers each as one that never drops a bucket would.
\<close>

theorem eviction_unobservable:
  assumes "refills K" "sorted (map event_time es)"
  shows "answers K es (\<lambda>key. None) = answers K (filter is_take es) (\<lambda>key. None)"
proof (cases es)
  case (Cons e rest)
  have "swept K (event_time e) (\<lambda>key. None) (\<lambda>key. None)" by (simp add: swept_def)
  then show ?thesis
    using assms Cons by (intro answers_swept [where now = "event_time e"]) auto
qed simp

text \<open>A bucket of 40 tokens, counted in millionths, refilled with 10 a second.\<close>

definition token_bucket :: "(int \<times> time) bucket_ops" where
  "token_bucket = \<lparr>bk_fresh = (40000000, 0), bk_take = (\<lambda>now (tokens, used).
     let n = min 40000000 (tokens + 10 * max 0 (now - used))
     in if n \<ge> 1000000 then (True, (n - 1000000, now)) else (False, (n, now)))\<rparr>"

lemma token_bucket_at: "bucket_at token_bucket used b \<Longrightarrow> 0 \<le> fst b \<and> snd b = used"
  by (induction rule: bucket_at.induct) (auto simp: token_bucket_def Let_def split: if_splits prod.splits)

lemma token_bucket_refills: "refills token_bucket"
  unfolding refills_def
proof (intro allI impI)
  fix used b now
  assume "bucket_at token_bucket used b" "used + idle_ttl < now"
  then obtain n where "b = (n, used)" "0 \<le> n" "used + idle_ttl < now"
    using token_bucket_at by (metis prod.collapse)
  then show "bk_take token_bucket now b = bk_take token_bucket now (bk_fresh token_bucket)"
    by (simp add: token_bucket_def Let_def idle_ttl_def)
qed

theorem eviction_unobservable_witness:
  "answers token_bucket [Take 0 ''a'', Tick 700000000, Take 700000001 ''a''] (\<lambda>key. None) =
     answers token_bucket [Take 0 ''a'', Take 700000001 ''a''] (\<lambda>key. None)"
  using eviction_unobservable [OF token_bucket_refills, of "[Take 0 ''a'', Tick 700000000, Take 700000001 ''a'']"]
  by simp

end
