(* ===== verification/Replies.thy ===== *)
theory Replies
  imports Server Limiter
begin

text \<open>
  The shape of replies: one error envelope across the API, whose code goes with the status and which
  tells nothing about a fault of the server.
\<close>

section \<open>Well-formed replies\<close>

definition well_formed :: "reply \<Rightarrow> bool" where
  "well_formed r \<longleftrightarrow>
     (case rp_out r of
        ErrorOut code msg \<Rightarrow> 400 \<le> rp_status r \<and> code = code_for_status (rp_status r) \<and>
          (rp_status r = 500 \<longrightarrow> msg = ''internal server error'')
      | _ \<Rightarrow> rp_status r \<in> {200, 201, 204})"

definition replies :: "answer \<Rightarrow> bool" where
  "replies k \<longleftrightarrow> (\<forall>d. well_formed (fst (k d)))"

named_theorems reply_rule \<open>how the parts of a handler make well-formed replies\<close>

lemma wf_error [simp]:
  "well_formed (write_error st code msg) \<longleftrightarrow>
     400 \<le> st \<and> code = code_for_status st \<and> (st = 500 \<longrightarrow> msg = ''internal server error'')"
  by (simp add: well_formed_def write_error_def reply_of_def)

lemma wf_reply [simp]:
  "(\<And>code msg. b \<noteq> ErrorOut code msg) \<Longrightarrow> well_formed (reply_of st b) \<longleftrightarrow> st \<in> {200, 201, 204}"
  by (simp add: well_formed_def reply_of_def split: out.split)

lemma wf_updates [simp]:
  "well_formed (set_session tok r) = well_formed r"
  "well_formed (clear_session r) = well_formed r"
  "well_formed (r\<lparr>rp_cors := o'\<rparr>) = well_formed r"
  by (simp_all add: well_formed_def set_session_def clear_session_def split: out.split)

lemma wf_service [simp]: "well_formed (service_error e)"
  by (auto simp: service_error_def map_error_def code_for_status_def)

lemma replies_say [reply_rule]: "well_formed r \<Longrightarrow> replies (say r)"
  by (simp add: replies_def say_def)

lemma replies_answer [reply_rule]:
  "(\<And>e. well_formed (h e)) \<Longrightarrow> (\<And>x. well_formed (k x)) \<Longrightarrow> replies (answer_or h m k)"
  by (simp add: replies_def answer_or_def split: prod.split sum.split)

lemma replies_body [reply_rule]: "(\<And>x. replies (k x)) \<Longrightarrow> replies (with_body r k)"
  by (simp add: with_body_def replies_say code_for_status_def split: sum.split)

lemma replies_id [reply_rule]: "(\<And>i. replies (k i)) \<Longrightarrow> replies (with_id S c msg k)"
  by (simp add: with_id_def replies_say code_for_status_def split: option.split)

lemma replies_cap [reply_rule]: "replies k \<Longrightarrow> replies (with_cap a cp k)"
  by (simp add: with_cap_def replies_say)

lemma replies_tenant [reply_rule]: "(\<And>t. replies (k t)) \<Longrightarrow> replies (with_tenant_scope a k)"
  by (simp add: with_tenant_scope_def replies_say code_for_status_def split: option.split)

lemma replies_platform [reply_rule]: "replies k \<Longrightarrow> replies (platform_only a k)"
  by (simp add: platform_only_def replies_say code_for_status_def)

lemma replies_if [reply_rule]: "replies k \<Longrightarrow> replies k' \<Longrightarrow> replies (if b then k else k')"
  by simp

lemma replies_option [reply_rule]: "replies k \<Longrightarrow> (\<And>x. replies (f x)) \<Longrightarrow> replies (case r of None \<Rightarrow> k | Some x \<Rightarrow> f x)"
  by (cases r) simp_all

lemma replies_manageable [reply_rule]: "(\<And>i. replies (k i)) \<Longrightarrow> replies (with_manageable S c k)"
  unfolding with_manageable_def by (intro reply_rule) (simp add: code_for_status_def)

section \<open>Handlers\<close>

lemma replies_accounts:
  "replies (handle_signup S E M c)" "replies (handle_login S E M c)" "replies (handle_oauth_start S E M c)"
  "replies (handle_oauth_callback S E M c)" "replies (handle_logout S E M c)" "replies (handle_me S E M c)"
  "replies (handle_set_tenant S E M c)"
proof -
  have "well_formed (signup_error e)" for e by (simp add: signup_error_def code_for_status_def)
  then show "replies (handle_signup S E M c)"
    unfolding handle_signup_def case_prod_beta by (intro reply_rule) (simp_all add: code_for_status_def)
  show "replies (handle_logout S E M c)" by (simp add: handle_logout_def replies_def)
  show "replies (handle_set_tenant S E M c)"
    unfolding handle_set_tenant_def Let_def
    by (intro replies_body replies_if replies_say)
      (simp_all add: replies_def say_def answer_or_def code_for_status_def split: prod.split sum.split)
qed (unfold handle_login_def handle_oauth_start_def handle_oauth_callback_def handle_me_def case_prod_beta Let_def,
    (intro reply_rule; simp add: code_for_status_def)+)

lemma replies_content:
  "replies (handle_posts_list S E M c)" "replies (handle_posts_create S E M c)" "replies (handle_posts_get S E M c)"
  "replies (handle_posts_html S E M c)" "replies (handle_posts_update S E M c)" "replies (handle_posts_delete S E M c)"
  "replies (handle_posts_publish S E M c)" "replies (handle_posts_unpublish S E M c)"
  "replies (handle_media_presign S E M c)" "replies (handle_media_confirm S E M c)" "replies (handle_media_delete S E M c)"
  "replies (handle_imports_status S E M c)" "replies (handle_imports_apply S E M c)"
  unfolding handle_posts_list_def handle_media_presign_def handle_media_confirm_def handle_media_delete_def
    handle_imports_status_def handle_posts_get_def handle_posts_html_def posts_handlers case_prod_beta Let_def
  by (intro reply_rule; simp add: code_for_status_def)+

lemma replies_imports: "replies (handle_imports_start S E M c)"
  unfolding handle_imports_start_def Let_def
  by (intro reply_rule) (auto simp: code_for_status_def split: upload.split intro!: reply_rule)

lemma replies_members:
  "replies (handle_members_list S E M c)" "replies (handle_members_invite S E M c)"
  "replies (handle_members_set_role S E M c)" "replies (handle_members_remove S E M c)"
  "replies (handle_tenants_list S E M c)" "replies (handle_tenants_create S E M c)"
  "replies (handle_tenants_get S E M c)" "replies (handle_tenants_update S E M c)"
  "replies (handle_tenants_delete S E M c)"
  unfolding handle_members_list_def handle_members_invite_def handle_members_set_role_def handle_members_remove_def
    handle_tenants_list_def handle_tenants_create_def handle_tenants_get_def handle_tenants_update_def
    handle_tenants_delete_def no_rows_as_def case_prod_beta Let_def
  by (intro reply_rule; simp add: code_for_status_def)+

lemma handler_replies: "handler_of ep = Some h \<Longrightarrow> replies (h S E M c)"
  by (cases ep) (auto simp: replies_accounts replies_content replies_imports replies_members)


lemma limited_wf:
  assumes "limited K E key k s = (rep, s')" "\<And>x x' rep'. k x = (rep', x') \<Longrightarrow> well_formed rep'"
  shows "well_formed rep"
  using assms by (auto simp: limited_def code_for_status_def split: prod.splits if_splits)

lemma cors_wf:
  assumes "cors S r k s = (rep, s')" "\<And>x x' rep'. k x = (rep', x') \<Longrightarrow> well_formed rep'"
  shows "well_formed rep"
  using assms by (auto simp: cors_def Let_def split: prod.splits if_splits)

lemma through_wf:
  assumes "through K S E M ep ws seen c s = (rep, s')" "handler_of ep = Some h"
    and "\<forall>msg. hr_body (cx_request c) \<noteq> Unreadable msg"
  shows "well_formed rep"
  using assms(1,3)
proof (induction ws arbitrary: seen c s rep s')
  case Nil
  then show ?case using handler_replies [OF assms(2)] by (auto simp: run_handler [OF assms(2)] replies_def)
next
  case (Cons w ws)
  show ?case
  proof (cases w)
    case Base
    with Cons show ?thesis by (auto elim: cors_wf)
  next
    case IpRate
    with Cons show ?thesis by (auto elim: limited_wf)
  next
    case AuthRate
    with Cons show ?thesis by (auto simp: Let_def elim!: limited_wf split: if_splits)
  next
    case CaptureBody
    with Cons show ?thesis by (auto split: payload.splits)
  next
    case Session
    with Cons show ?thesis by (auto simp: Let_def code_for_status_def split: option.splits)
  qed
qed

section \<open>Properties\<close>

text \<open>
  C37. Replies are well formed: every reply of a route other than the public ones and the health checks, to a
  request whose body can be read, is a success with status 200, 201 or 204 or the error envelope with the
  code of its status, and the message of a 500 says nothing about the fault.
\<close>

theorem replies_well_formed:
  assumes "serve K S E M r s = (rep, s')" "route_of r = Some (m, ps, ws, ep)" "handler_of ep = Some h"
    and "\<forall>msg. hr_body r \<noteq> Unreadable msg"
  shows "(case rp_out rep of
      ErrorOut code msg \<Rightarrow> 400 \<le> rp_status rep \<and> code = code_for_status (rp_status rep) \<and>
        (rp_status rep = 500 \<longrightarrow> msg = ''internal server error'')
    | _ \<Rightarrow> rp_status rep \<in> {200, 201, 204})"
proof -
  have "well_formed rep"
    by (rule through_wf [OF _ assms(3)]) (use assms(1,2,4) in \<open>auto simp: serve_def bare_call_def\<close>)
  then show ?thesis unfolding well_formed_def .
qed

lemma replies_well_formed_witness:
  "\<exists>rep s'. serve open_limits sample_server sample_env sample_mint sample_promotion (sample_office ''author'') = (rep, s') \<and>
     (case rp_out rep of
        ErrorOut code msg \<Rightarrow> 400 \<le> rp_status rep \<and> code = code_for_status (rp_status rep) \<and>
          (rp_status rep = 500 \<longrightarrow> msg = ''internal server error'')
      | _ \<Rightarrow> rp_status rep \<in> {200, 201, 204})"
proof -
  obtain rep s' where run: "serve open_limits sample_server sample_env sample_mint sample_promotion (sample_office ''author'') = (rep, s')"
    using sample_promoted by blast
  have "handler_of MembersSetRole = Some handle_members_set_role" "\<forall>msg. hr_body sample_promotion \<noteq> Unreadable msg"
    by (simp_all add: sample_promotion_sel)
  from replies_well_formed [OF run sample_route this] run show ?thesis by blast
qed

end
