(* ===== verification/Wire.thy ===== *)
theory Wire
  imports Replies
begin

text \<open>
  What leaves the server: the calls that handlers make on http.ResponseWriter, the always-on chain of
  internal/api/middleware.go around them (recovery, request ids, the access log, CORS), and cookies.
\<close>

section \<open>Responses on the wire\<close>

record cookie =
  ck_name :: string
  ck_value :: string
  ck_path :: string
  ck_http_only :: bool
  ck_secure :: bool
  ck_same_site :: string
  ck_max_age :: int

record log_line =
  lg_method :: string
  lg_path :: string
  lg_status :: nat

type_synonym headers = "string \<Rightarrow> string option"

text \<open>
  A connection while its request is served: the headers and cookies set so far, the head once it is sent (later
  changes of the headers are lost), the body, the status that \<open>statusRecorder\<close> has seen, and the two logs.
\<close>

record conn =
  cn_headers :: headers
  cn_cookies :: "cookie list"
  cn_head :: "(nat \<times> headers \<times> cookie list) option"
  cn_body :: "out list"
  cn_seen :: nat
  cn_log :: "log_line list"
  cn_faults :: "string list"

definition new_conn :: conn where
  "new_conn = \<lparr>cn_headers = Map.empty, cn_cookies = [], cn_head = None, cn_body = [], cn_seen = 200,
     cn_log = [], cn_faults = []\<rparr>"

text \<open>What a handler does to its ResponseWriter, and a panic, which ends it.\<close>

datatype wire_op =
    SetHeader string string
  | AddCookie cookie
  | WriteHeader nat
  | WriteBody out
  | Panic string

definition send_head :: "nat \<Rightarrow> conn \<Rightarrow> conn" where
  "send_head code c =
     (case cn_head c of None \<Rightarrow> c\<lparr>cn_head := Some (code, cn_headers c, cn_cookies c)\<rparr> | Some _ \<Rightarrow> c)"

text \<open>
  \<open>statusRecorder\<close> keeps the last status given to WriteHeader, also a superfluous one; a Write without a
  head sends 200 past it. \<open>Some v\<close>: the handler has panicked with \<open>v\<close>.
\<close>

fun perform :: "wire_op list \<Rightarrow> conn \<Rightarrow> string option \<times> conn" where
  "perform [] c = (None, c)"
| "perform (SetHeader k v # ops) c = perform ops (c\<lparr>cn_headers := (cn_headers c)(k \<mapsto> v)\<rparr>)"
| "perform (AddCookie ck # ops) c = perform ops (c\<lparr>cn_cookies := cn_cookies c @ [ck]\<rparr>)"
| "perform (WriteHeader code # ops) c = perform ops (send_head code (c\<lparr>cn_seen := code\<rparr>))"
| "perform (WriteBody b # ops) c = perform ops ((send_head 200 c)\<lparr>cn_body := cn_body c @ [b]\<rparr>)"
| "perform (Panic v # ops) c = (Some v, c)"

type_synonym net = "conn \<Rightarrow> string option \<times> conn"

text \<open>net/http sends 200 for a handler that returned without a head.\<close>

definition sent_status :: "conn \<Rightarrow> nat" where
  "sent_status c = (case cn_head c of None \<Rightarrow> 200 | Some (code, _) \<Rightarrow> code)"

section \<open>The always-on chain\<close>

definition json_type :: wire_op where
  "json_type = SetHeader ''Content-Type'' ''application/json; charset=utf-8''"

definition error_ops :: "nat \<Rightarrow> string \<Rightarrow> string \<Rightarrow> wire_op list" where
  "error_ops status code msg = [json_type, WriteHeader status, WriteBody (ErrorOut code msg)]"

definition recover_panics :: "net \<Rightarrow> net" where
  "recover_panics next c =
     (case next c of
        (None, c') \<Rightarrow> (None, c')
      | (Some v, c') \<Rightarrow>
          perform (error_ops 500 code_internal ''internal server error'') (c'\<lparr>cn_faults := cn_faults c' @ [v]\<rparr>))"

text \<open>16 random bytes, or the time when there are none.\<close>

definition new_request_id :: "bytes option \<Rightarrow> string \<Rightarrow> string" where
  "new_request_id random now_text = (case random of None \<Rightarrow> now_text | Some b \<Rightarrow> hex_string b)"

definition request_id :: "string \<Rightarrow> string \<Rightarrow> net \<Rightarrow> net" where
  "request_id hdr fresh next c =
     next (c\<lparr>cn_headers := (cn_headers c)(''X-Request-ID'' \<mapsto> (if hdr = [] then fresh else hdr))\<rparr>)"

definition access_log :: "string \<Rightarrow> string \<Rightarrow> net \<Rightarrow> net" where
  "access_log m path next c =
     (case next (c\<lparr>cn_seen := 200\<rparr>) of
        (None, c') \<Rightarrow> (None, c'\<lparr>cn_log := cn_log c' @ [\<lparr>lg_method = m, lg_path = path, lg_status = cn_seen c'\<rparr>]\<rparr>)
      | (Some v, c') \<Rightarrow> (Some v, c'))"

definition cors_headers :: "string \<Rightarrow> wire_op list" where
  "cors_headers origin = [SetHeader ''Access-Control-Allow-Origin'' origin, SetHeader ''Vary'' ''Origin'',
     SetHeader ''Access-Control-Allow-Credentials'' ''true'']"

definition preflight_ops :: "wire_op list" where
  "preflight_ops = [SetHeader ''Access-Control-Allow-Methods'' ''GET, POST, PATCH, PUT, DELETE, OPTIONS'',
     SetHeader ''Access-Control-Allow-Headers'' ''Authorization, Content-Type'',
     SetHeader ''Access-Control-Max-Age'' ''600'', WriteHeader 204]"

definition cors_wire :: "server \<Rightarrow> request \<Rightarrow> wire_op list \<Rightarrow> wire_op list" where
  "cors_wire S r ops =
     (let origin = hr_origin r in
      if origin = [] \<or> \<not> allowed_origin S origin then ops
      else cors_headers origin @ (if hr_method r = ''OPTIONS'' then preflight_ops else ops))"

text \<open>\<open>base\<close>, around a handler seen as the calls it makes; \<open>hdr\<close> is the X-Request-ID of the request.\<close>

definition base_chain :: "server \<Rightarrow> request \<Rightarrow> string \<Rightarrow> string \<Rightarrow> string \<Rightarrow> wire_op list \<Rightarrow> net" where
  "base_chain S r path hdr fresh ops =
     recover_panics (request_id hdr fresh (access_log (hr_method r) path (perform (cors_wire S r ops))))"

section \<open>Replies as calls\<close>

definition session_cookie :: "string \<Rightarrow> bool \<Rightarrow> string \<Rightarrow> cookie" where
  "session_cookie name secure token =
     \<lparr>ck_name = name, ck_value = token, ck_path = ''/'', ck_http_only = True, ck_secure = secure,
      ck_same_site = ''Lax'', ck_max_age = 30 * 24 * 60 * 60\<rparr>"

definition reply_cookie :: "string \<Rightarrow> bool \<Rightarrow> string \<times> bool \<Rightarrow> cookie" where
  "reply_cookie name secure = (\<lambda>(tok, gone).
     if gone then (session_cookie name secure [])\<lparr>ck_max_age := -1\<rparr> else session_cookie name secure tok)"

definition cache_control :: string where
  "cache_control = ''public, s-maxage=60, stale-while-revalidate=300''"

definition public_headers :: "response \<Rightarrow> wire_op list" where
  "public_headers resp =
     (case rs_body resp of
        NoBody \<Rightarrow> []
      | HtmlBody _ \<Rightarrow> [SetHeader ''Content-Type'' ''text/html; charset=utf-8'']
      | _ \<Rightarrow> [json_type]) @
     [SetHeader ''Cache-Control'' cache_control] @
     (case rs_etag resp of None \<Rightarrow> [] | Some t \<Rightarrow> [SetHeader ''ETag'' t])"

definition reply_ops :: "string \<Rightarrow> bool \<Rightarrow> reply \<Rightarrow> wire_op list" where
  "reply_ops name secure r =
     (case rp_cookie r of None \<Rightarrow> [] | Some ck \<Rightarrow> [AddCookie (reply_cookie name secure ck)]) @
     (case rp_out r of
        NoOut \<Rightarrow> [WriteHeader (rp_status r)]
      | PageOut html \<Rightarrow> [SetHeader ''Content-Type'' ''text/html; charset=utf-8'', SetHeader ''Cache-Control'' ''no-store'',
          WriteHeader (rp_status r), WriteBody (rp_out r)]
      | PublicOut resp \<Rightarrow> public_headers resp @ [WriteHeader (rs_status resp), WriteBody (rp_out r)]
      | StatusOut \<Rightarrow> [json_type, WriteBody StatusOut]
      | PlainOut t \<Rightarrow> [SetHeader ''Content-Type'' ''text/plain; charset=utf-8'', SetHeader ''X-Content-Type-Options'' ''nosniff'',
          WriteHeader (rp_status r), WriteBody (rp_out r)]
      | b \<Rightarrow> [json_type, WriteHeader (rp_status r), WriteBody b])"

section \<open>Handlers as sequences of calls\<close>

fun first_panic :: "wire_op list \<Rightarrow> string option" where
  "first_panic [] = None"
| "first_panic (Panic v # ops) = Some v"
| "first_panic (x # ops) = first_panic ops"

text \<open>Whether a call before the first panic sends the head.\<close>

fun sends_head :: "wire_op list \<Rightarrow> bool" where
  "sends_head [] = False"
| "sends_head (WriteHeader n # ops) = True"
| "sends_head (WriteBody b # ops) = True"
| "sends_head (Panic v # ops) = False"
| "sends_head (x # ops) = sends_head ops"

text \<open>No status is given once the head is sent.\<close>

fun one_head :: "bool \<Rightarrow> wire_op list \<Rightarrow> bool" where
  "one_head sent [] = True"
| "one_head sent (WriteHeader n # ops) = (\<not> sent \<and> one_head True ops)"
| "one_head sent (WriteBody b # ops) = one_head True ops"
| "one_head sent (Panic v # ops) = True"
| "one_head sent (x # ops) = one_head sent ops"

definition sets_header :: "string \<Rightarrow> wire_op \<Rightarrow> bool" where
  "sets_header k x = (case x of SetHeader k' v \<Rightarrow> k' = k | _ \<Rightarrow> False)"

lemma sets_header_simps [simp]:
  "sets_header k (SetHeader k' v) = (k' = k)" "\<not> sets_header k (AddCookie ck)" "\<not> sets_header k (WriteHeader n)"
  "\<not> sets_header k (WriteBody b)" "\<not> sets_header k (Panic w)"
  by (simp_all add: sets_header_def)

lemma send_head_sel [simp]:
  "cn_headers (send_head n c) = cn_headers c" "cn_seen (send_head n c) = cn_seen c" "cn_log (send_head n c) = cn_log c"
  "cn_faults (send_head n c) = cn_faults c" "cn_body (send_head n c) = cn_body c" "cn_head (send_head n c) \<noteq> None"
  by (simp_all add: send_head_def split: option.split)

lemma send_head_cases:
  "cn_head c = None \<Longrightarrow> cn_head (send_head n c) = Some (n, cn_headers c, cn_cookies c)"
  "cn_head c = Some x \<Longrightarrow> cn_head (send_head n c) = Some x"
  by (simp_all add: send_head_def)

lemma perform_logs: "perform ops c = (r, c') \<Longrightarrow> cn_log c' = cn_log c \<and> cn_faults c' = cn_faults c \<and> r = first_panic ops"
  by (induction ops c arbitrary: r c' rule: perform.induct) simp_all

lemma perform_quiet:
  "perform ops c = (r, c') \<Longrightarrow> \<not> sends_head ops \<Longrightarrow> cn_head c' = cn_head c \<and> cn_body c' = cn_body c"
  by (induction ops c arbitrary: r c' rule: perform.induct) simp_all

lemma perform_keeps_head: "perform ops c = (r, c') \<Longrightarrow> cn_head c = Some h \<Longrightarrow> cn_head c' = Some h"
  by (induction ops c arbitrary: r c' rule: perform.induct) (simp_all add: send_head_cases)

text \<open>The recorder sees what is sent, from a connection where it does.\<close>

lemma perform_seen:
  assumes "perform ops c = (None, c')" "one_head (cn_head c \<noteq> None) ops" "cn_seen c = sent_status c"
  shows "cn_seen c' = sent_status c'"
  using assms
proof (induction ops c arbitrary: c' rule: perform.induct)
  case (4 code ops c)
  have "cn_head c = None" using 4(3) by (cases "cn_head c") simp_all
  then show ?case using 4 by (simp add: sent_status_def send_head_cases)
next
  case (5 b ops c)
  have "sent_status (send_head 200 c) = sent_status c" by (simp add: sent_status_def send_head_def split: option.split)
  then show ?case using 5 by (simp add: sent_status_def)
qed (simp_all add: sent_status_def)

text \<open>The value with which a header goes out: as it stands now, and as it was sent.\<close>

definition goes_out :: "string \<Rightarrow> string option \<Rightarrow> conn \<Rightarrow> bool" where
  "goes_out k v c \<longleftrightarrow> cn_headers c k = v \<and> (case cn_head c of None \<Rightarrow> True | Some h \<Rightarrow> fst (snd h) k = v)"

lemma goes_out_send: "goes_out k v c \<Longrightarrow> goes_out k v (send_head n c)"
  by (cases "cn_head c") (simp_all add: goes_out_def send_head_def)

lemma goes_out_sel [simp]:
  "goes_out k v (c\<lparr>cn_seen := n\<rparr>) = goes_out k v c" "goes_out k v (c\<lparr>cn_body := b\<rparr>) = goes_out k v c"
  "goes_out k v (c\<lparr>cn_cookies := cks\<rparr>) = goes_out k v c" "goes_out k v (c\<lparr>cn_log := ls\<rparr>) = goes_out k v c"
  "goes_out k v (c\<lparr>cn_faults := fs\<rparr>) = goes_out k v c"
  by (simp_all add: goes_out_def)

text \<open>A header that no call sets is sent as it was.\<close>

lemma perform_header:
  "perform ops c = (r, c') \<Longrightarrow> list_all (\<lambda>x. \<not> sets_header k x) ops \<Longrightarrow> goes_out k v c \<Longrightarrow> goes_out k v c'"
proof (induction ops c arbitrary: r c' rule: perform.induct)
  case (2 k' v' ops c)
  then have "goes_out k v (c\<lparr>cn_headers := (cn_headers c)(k' \<mapsto> v')\<rparr>)" by (auto simp: goes_out_def)
  with 2 show ?case by simp
qed (simp_all add: goes_out_send)

text \<open>The error of a recovered panic keeps every other header.\<close>

lemma error_header:
  assumes "perform (error_ops st code msg) c = (r, c')" "k \<noteq> ''Content-Type''" "goes_out k v c"
  shows "goes_out k v c'"
  by (rule perform_header [OF assms(1) _ assms(3)]) (use assms(2) in \<open>simp add: error_ops_def json_type_def\<close>)

text \<open>Replies set no request id, give one head and do not panic.\<close>

lemma public_headers_plain:
  "first_panic (public_headers p @ ops) = first_panic ops" "one_head b (public_headers p @ ops) = one_head b ops"
  "list_all (\<lambda>x. \<not> sets_header ''X-Request-ID'' x) (public_headers p)"
  by (simp_all add: public_headers_def json_type_def split: body.split option.split)

lemma reply_ops_plain:
  "first_panic (reply_ops name secure r) = None"
  "one_head False (reply_ops name secure r)"
  "list_all (\<lambda>x. \<not> sets_header ''X-Request-ID'' x) (reply_ops name secure r)"
proof -
  define cks where "cks = (case rp_cookie r of None \<Rightarrow> [] | Some ck \<Rightarrow> [AddCookie (reply_cookie name secure ck)])"
  have cks: "first_panic (cks @ ops) = first_panic ops" "one_head False (cks @ ops) = one_head False ops"
    "list_all (\<lambda>x. \<not> sets_header ''X-Request-ID'' x) cks" for ops
    by (simp_all add: cks_def split: option.split)
  show "first_panic (reply_ops name secure r) = None"
    unfolding reply_ops_def cks_def [symmetric] cks by (simp add: public_headers_plain json_type_def split: out.split)
  show "one_head False (reply_ops name secure r)"
    unfolding reply_ops_def cks_def [symmetric] cks by (simp add: public_headers_plain json_type_def split: out.split)
  show "list_all (\<lambda>x. \<not> sets_header ''X-Request-ID'' x) (reply_ops name secure r)"
    unfolding reply_ops_def cks_def [symmetric]
    by (simp add: cks(3) public_headers_plain(3) json_type_def split: out.split)
qed

section \<open>Properties\<close>


text \<open>A handler that panics after it has set a header, and one that answers.\<close>

definition sample_get :: request where
  "sample_get = sample_promotion\<lparr>hr_method := ''GET'', hr_origin := []\<rparr>"


end
