(* ===== verification/Timestamps.thy ===== *)
theory Timestamps
  imports Clock
begin

text \<open>
  RFC 3339 as package time writes it into JSON (\<open>MarshalJSON\<close>, in the process's zone) and reads it from there
  (\<open>UnmarshalJSON\<close>), and the calendar behind both: the date of a day and the day of a date are inverse.
\<close>

section \<open>The day of a date\<close>

definition days_of_civil :: "int \<Rightarrow> int \<Rightarrow> int \<Rightarrow> int" where
  "days_of_civil y m d =
     (let y' = (if m \<le> 2 then y - 1 else y);
          era = y' div 400; yoe = y' mod 400;
          mp = (if m > 2 then m - 3 else m + 9);
          doy = (153 * mp + 2) div 5 + d - 1
      in era * 146097 + (365 * yoe + yoe div 4 - yoe div 100 + doy) - 719468)"

definition leap_year :: "int \<Rightarrow> bool" where
  "leap_year y \<longleftrightarrow> y mod 4 = 0 \<and> (y mod 100 \<noteq> 0 \<or> y mod 400 = 0)"

definition days_in :: "int \<Rightarrow> int \<Rightarrow> int" where
  "days_in y m = (if m = 2 then (if leap_year y then 29 else 28) else if m \<in> {4, 6, 9, 11} then 30 else 31)"

section \<open>Years of an era\<close>

text \<open>The first day of a year of the era, and the estimate of the year from a day.\<close>

definition year_start :: "int \<Rightarrow> int" where
  "year_start y = 365 * y + y div 4 - y div 100"

definition year_estimate :: "int \<Rightarrow> int" where
  "year_estimate d = d - d div 1460 + d div 36524 - d div 146096"

lemma shift_div:
  fixes q a x :: int
  shows "(36524 * q + 1461 * a + x) div 1460 = 25 * q + a + (24 * q + a + x) div 1460"
proof -
  have "36524 * q + 1461 * a + x = (24 * q + a + x) + 1460 * (25 * q + a)" by simp
  then show ?thesis by (simp only: div_mult_self2)
qed

lemma small_div: "c * k \<le> n \<Longrightarrow> n < c * k + k \<Longrightarrow> n div k = (c :: int)"
  by (simp add: int_div_pos_eq [of n k c "n - c * k"] mult.commute)

text \<open>A day of an era as a century, four-year group, year and day of the year.\<close>

lemma era_day:
  assumes "0 \<le> q" "q \<le> 3" "0 \<le> a" "a \<le> 24" "0 \<le> b" "b \<le> 3" "0 \<le> x" "x \<le> 365"
    and "x = 365 \<Longrightarrow> b = 3 \<and> a < 24" and d: "d = 36524 * q + 1461 * a + (365 * b + x)"
  shows "d = year_start (100 * q + 4 * a + b) + x" "year_estimate d div 365 = 100 * q + 4 * a + b"
    "x = 365 \<Longrightarrow> leap_year (100 * q + 4 * a + b + 1)"
proof -
  let ?y = "100 * q + 4 * a + b"
  have y: "?y div 4 = 25 * q + a" by (rule small_div) (use assms(5,6) in simp_all)
  have y': "?y div 100 = q" by (rule small_div) (use assms(1-6) in linarith)+
  show "d = year_start ?y + x" using d y y' by (simp add: year_start_def)
  have e: "d div 36524 = q" by (rule small_div) (use assms in linarith)+
  have f: "d div 146096 = 0" by (rule small_div) (use assms in linarith)+
  have g: "d div 1460 = 25 * q + a + (24 * q + a + (365 * b + x)) div 1460" unfolding d by (rule shift_div)
  have "year_estimate d = 365 * ?y + (x - (24 * q + a + (365 * b + x)) div 1460)"
    unfolding year_estimate_def e f g using d by simp
  moreover have "(24 * q + a + (365 * b + x)) div 1460 \<in> {0, 1}" "x = 365 \<Longrightarrow> (24 * q + a + (365 * b + x)) div 1460 = 1"
    "x = 0 \<Longrightarrow> (24 * q + a + (365 * b + x)) div 1460 = 0"
  proof -
    show "(24 * q + a + (365 * b + x)) div 1460 \<in> {0, 1}"
    proof (cases "24 * q + a + (365 * b + x) < 1460")
      case True
      then have "(24 * q + a + (365 * b + x)) div 1460 = 0" by (intro small_div) (use assms in linarith)+
      then show ?thesis by simp
    next
      case False
      then have "(24 * q + a + (365 * b + x)) div 1460 = 1" by (intro small_div) (use assms in linarith)+
      then show ?thesis by simp
    qed
    show "(24 * q + a + (365 * b + x)) div 1460 = 1" if "x = 365" by (rule small_div) (use that assms in linarith)+
    show "(24 * q + a + (365 * b + x)) div 1460 = 0" if "x = 0" by (rule small_div) (use that assms in linarith)+
  qed
  ultimately show "year_estimate d div 365 = ?y" using assms(7,8) by (cases "x = 0"; cases "x = 365") (auto intro!: small_div)
  show "leap_year (?y + 1)" if "x = 365"
  proof -
    have "b = 3" "a < 24" using assms(9) that by auto
    then have eqs: "?y + 1 = 4 * (25 * q + a + 1)" "?y + 1 = (4 * a + 4) + 100 * q" by simp_all
    have four: "(?y + 1) mod 4 = 0" unfolding eqs(1) by simp
    have "(?y + 1) mod 100 = (4 * a + 4) mod 100" unfolding eqs(2) by (rule mod_mult_self2)
    also have "\<dots> = 4 * a + 4" by (rule mod_pos_pos_trivial) (use \<open>a < 24\<close> assms(3) in linarith)+
    finally have "(?y + 1) mod 100 = 4 * a + 4" .
    with four show ?thesis using assms(3) by (simp add: leap_year_def)
  qed
qed

lemma era_split:
  assumes "0 \<le> d" "d < 146097"
  obtains y x where "0 \<le> y" "y < 400" "d = year_start y + x" "0 \<le> x" "x \<le> 365" "year_estimate d div 365 = y"
    "x = 365 \<longrightarrow> leap_year (y + 1)"
proof (cases "d = 146096")
  case True
  show ?thesis by (rule that [of 399 365]) (simp_all add: True year_start_def year_estimate_def leap_year_def)
next
  case False
  define q where "q = d div 36524"
  define r where "r = d mod 36524"
  define a where "a = r div 1461"
  define z where "z = r mod 1461"
  define b where "b = min 3 (z div 365)"
  have r: "d = 36524 * q + r" "0 \<le> r" "r < 36524" by (simp_all add: q_def r_def)
  have z: "r = 1461 * a + z" "0 \<le> z" "z < 1461" by (simp_all add: a_def z_def)
  have "365 * (z div 365) \<le> z \<and> z < 365 * (z div 365) + 365 \<and> 0 \<le> z div 365" using z(2) by presburger
  then have b: "0 \<le> b" "b \<le> 3" "365 * b \<le> z" "b < 3 \<Longrightarrow> z < 365 * b + 365" by (auto simp: b_def min_def)
  have q: "0 \<le> q" "q \<le> 3" and a: "0 \<le> a" "a \<le> 24" using r z assms False by linarith+
  have x: "0 \<le> z - 365 * b" "z - 365 * b \<le> 365" using b z by linarith+
  have last: "z - 365 * b = 365 \<Longrightarrow> b = 3 \<and> a < 24" using b z r by linarith
  have d: "d = 36524 * q + 1461 * a + (365 * b + (z - 365 * b))" using r z by simp
  from era_day [OF q a b(1,2) x last d] that [of "100 * q + 4 * a + b" "z - 365 * b"] q a b(1,2) x
  show ?thesis by linarith
qed

section \<open>The date of a day\<close>

lemma civil_of_days_valid:
  assumes "civil_of_days n = (y, m, d)"
  shows "days_of_civil y m d = n" "1 \<le> m" "m \<le> 12" "1 \<le> d" "d \<le> days_in y m"
proof -
  define z where "z = n + 719468"
  define era where "era = z div 146097"
  define doe where "doe = z mod 146097"
  have z: "z = era * 146097 + doe" "0 \<le> doe" "doe < 146097" by (simp_all add: era_def doe_def)
  obtain yoe doy where y: "0 \<le> yoe" "yoe < 400" "doe = year_start yoe + doy" "0 \<le> doy" "doy \<le> 365"
    "year_estimate doe div 365 = yoe" "doy = 365 \<longrightarrow> leap_year (yoe + 1)"
    by (rule era_split [OF z(2,3)]) blast
  define mp where "mp = (5 * doy + 2) div 153"
  define m' where "m' = (if mp < 10 then mp + 3 else mp - 9)"
  define d' where "d' = doy - (153 * mp + 2) div 5 + 1"
  have doy: "doe - (365 * yoe + yoe div 4 - yoe div 100) = doy" using y(3) by (simp add: year_start_def)
  have "civil_of_days n = (if m' \<le> 2 then yoe + era * 400 + 1 else yoe + era * 400, m', d')"
    unfolding civil_of_days_def Let_def z_def [symmetric] era_def [symmetric] doe_def [symmetric]
      year_estimate_def [symmetric] y(6) doy mp_def [symmetric] m'_def [symmetric] d'_def [symmetric] by simp
  then have ymd: "y = (if m' \<le> 2 then yoe + era * 400 + 1 else yoe + era * 400)" "m = m'" "d = d'" using assms by auto
  have "153 * (w div 153) \<le> w \<and> w < 153 * (w div 153) + 153" for w :: int
    by presburger
  then have mp: "153 * mp \<le> 5 * doy + 2" "5 * doy + 2 < 153 * mp + 153" by (auto simp: mp_def)
  then have mp': "0 \<le> mp" "mp \<le> 11" using y(4,5) by linarith+
  have five: "5 * ((153 * mp + 2) div 5) \<le> 153 * mp + 2" "153 * mp + 2 < 5 * ((153 * mp + 2) div 5) + 5" by presburger+
  show "1 \<le> m" "m \<le> 12" using ymd mp' by (auto simp: m'_def)
  show "1 \<le> d" using ymd(3) five mp by (simp add: d'_def)
  have month: "(if m > 2 then m - 3 else m + 9) = mp" using ymd mp' by (auto simp: m'_def)
  have yy: "(if m \<le> 2 then y - 1 else y) = yoe + era * 400" using ymd by auto
  have "(yoe + era * 400) div 400 = era" "(yoe + era * 400) mod 400 = yoe" using y(1,2) by simp_all
  then show "days_of_civil y m d = n"
    unfolding days_of_civil_def Let_def month yy using ymd(3) y(3) z(1)
    by (simp add: d'_def year_start_def z_def)
  have leap: "leap_year (yoe + era * 400 + 1) = leap_year (yoe + 1)"
  proof -
    have "yoe + era * 400 + 1 = (yoe + 1) + 4 * (100 * era)" "yoe + era * 400 + 1 = (yoe + 1) + 100 * (4 * era)"
      "yoe + era * 400 + 1 = (yoe + 1) + 400 * era" by simp_all
    then have "(yoe + era * 400 + 1) mod 4 = (yoe + 1) mod 4" "(yoe + era * 400 + 1) mod 100 = (yoe + 1) mod 100"
      "(yoe + era * 400 + 1) mod 400 = (yoe + 1) mod 400" by (metis mod_mult_self2)+
    then show ?thesis by (simp add: leap_year_def)
  qed
  have "mp \<in> {0, 1, 2, 3, 4, 5, 6, 7, 8, 9, 10, 11}" using mp' by (simp, presburger)
  then show "d \<le> days_in y m"
    using mp(2) y(5,7) leap
    by (elim insertE) (auto simp: ymd m'_def d'_def days_in_def)
qed

section \<open>Writing\<close>

text \<open>The fraction of a second without trailing zeros, and the offset of the zone, in minutes.\<close>

definition fraction_text :: "int \<Rightarrow> string" where
  "fraction_text f = (if f = 0 then [] else CHR ''.'' # trim_right (zero_padded 6 f) ''0'')"

definition zone_text :: "int \<Rightarrow> string" where
  "zone_text z =
     (if z = 0 then ''Z''
      else (if z < 0 then CHR ''-'' else CHR ''+'') # zero_padded 2 (\<bar>z\<bar> div 60) @ '':'' @ zero_padded 2 (\<bar>z\<bar> mod 60))"

text \<open>
  \<open>appendStrictRFC3339\<close>, with nanoseconds: an error for a year past four digits or a zone of a day or more.
\<close>

definition rfc3339 :: "int \<Rightarrow> time \<Rightarrow> string option" where
  "rfc3339 z t =
     (let l = t + z * 60 * second; (y, m, d) = civil_of_days (day_of l); s = second_of_day l
      in if y < 0 \<or> 9999 < y \<or> 24 \<le> \<bar>z\<bar> div 60 then None
         else Some (zero_padded 4 y @ ''-'' @ zero_padded 2 m @ ''-'' @ zero_padded 2 d @ ''T'' @
           zero_padded 2 (s div 3600) @ '':'' @ zero_padded 2 (s div 60 mod 60) @ '':'' @ zero_padded 2 (s mod 60) @
           fraction_text (l mod second) @ zone_text z))"

section \<open>Reading\<close>

definition read_num :: "nat \<Rightarrow> int \<Rightarrow> int \<Rightarrow> string \<Rightarrow> (int \<times> string) option" where
  "read_num w lo hi s =
     (let ds = take w s; n = int (atoi ds)
      in if length ds = w \<and> list_all is_digit ds \<and> lo \<le> n \<and> n \<le> hi then Some (n, drop w s) else None)"

fun read_char :: "char \<Rightarrow> string \<Rightarrow> string option" where
  "read_char c [] = None"
| "read_char c (x # s) = (if x = c then Some s else None)"

text \<open>A number after a separator.\<close>

definition read_part :: "char \<Rightarrow> nat \<Rightarrow> int \<Rightarrow> int \<Rightarrow> string \<Rightarrow> (int \<times> string) option" where
  "read_part c w lo hi s = Option.bind (read_char c s) (read_num w lo hi)"

text \<open>An hour may have one digit only.\<close>

definition read_hour :: "string \<Rightarrow> (int \<times> string) option" where
  "read_hour s = (let w = length (takeWhile is_digit (take 2 s)) in if w = 0 then None else read_num w 0 23 s)"

text \<open>The nanoseconds of a fraction, of which nine digits count, after a period or a comma.\<close>

definition read_fraction :: "string \<Rightarrow> int \<times> string" where
  "read_fraction s =
     (case s of
        [] \<Rightarrow> (0, s)
      | c # r \<Rightarrow>
          let ds = takeWhile is_digit r
          in if (c = CHR ''.'' \<or> c = CHR '','') \<and> ds \<noteq> [] then (int (atoi (take 9 (ds @ replicate 9 CHR ''0''))), drop (length ds) r)
             else (0, s))"

definition read_zone :: "string \<Rightarrow> int option" where
  "read_zone s =
     (if s = ''Z'' then Some 0
      else case s of
        [] \<Rightarrow> None
      | c # r \<Rightarrow>
          if c \<noteq> CHR ''+'' \<and> c \<noteq> CHR ''-'' then None
          else case read_num 2 0 24 r of
            None \<Rightarrow> None
          | Some (h, r) \<Rightarrow>
              (case read_part CHR '':'' 2 0 60 r of
                 None \<Rightarrow> None
               | Some (m, r) \<Rightarrow> if r \<noteq> [] then None else Some (if c = CHR ''-'' then - (h * 60 + m) else h * 60 + m)))"

text \<open>
  \<open>parseStrictRFC3339\<close>, in nanoseconds since the epoch. Its own checks are disabled in the library, so what \<open>time.Parse\<close>
  accepts beyond RFC 3339 passes: a comma, an hour of one digit, a zone of 24 hours.
\<close>

definition read_rfc3339 :: "string \<Rightarrow> int option" where
  "read_rfc3339 s =
     (case read_num 4 0 9999 s of None \<Rightarrow> None | Some (y, s) \<Rightarrow>
     (case read_part CHR ''-'' 2 1 12 s of None \<Rightarrow> None | Some (m, s) \<Rightarrow>
     (case read_part CHR ''-'' 2 1 (days_in y m) s of None \<Rightarrow> None | Some (d, s) \<Rightarrow>
     (case Option.bind (read_char CHR ''T'' s) read_hour of None \<Rightarrow> None | Some (h, s) \<Rightarrow>
     (case read_part CHR '':'' 2 0 59 s of None \<Rightarrow> None | Some (mi, s) \<Rightarrow>
     (case read_part CHR '':'' 2 0 59 s of None \<Rightarrow> None | Some (sec, s) \<Rightarrow>
     (case read_fraction s of (nanos, s) \<Rightarrow>
     (case read_zone s of None \<Rightarrow> None | Some z \<Rightarrow>
        Some ((days_of_civil y m d * 86400 + h * 3600 + mi * 60 + sec - z * 60) * 1000000000 + nanos)))))))))"

section \<open>What is written is read\<close>

lemma atoi_zeros: "atoi (replicate k CHR ''0'' @ s) = atoi s"
proof -
  have "foldl (\<lambda>v c. 10 * v + char_digit c) 0 (replicate k CHR ''0'') = 0"
    by (induction k) (simp_all add: char_digit_def)
  then show ?thesis by (simp add: atoi_def)
qed

lemma atoi_pad: "atoi (s @ replicate k CHR ''0'') = atoi s * 10 ^ k"
proof (induction k)
  case (Suc k)
  have "atoi (s @ replicate (Suc k) CHR ''0'') = 10 * atoi (s @ replicate k CHR ''0'') + 0"
    unfolding replicate_append_same [symmetric] atoi_def replicate_Suc by (simp add: char_digit_def)
  with Suc show ?case by simp
qed simp

lemma length_itoa: "n < 10 ^ w \<Longrightarrow> 0 < w \<Longrightarrow> length (itoa n) \<le> w"
proof (induction w arbitrary: n)
  case (Suc w)
  show ?case
  proof (cases "n < 10")
    case False
    then have "w \<noteq> 0" using Suc.prems(1) by (intro notI) simp
    moreover have "n div 10 < 10 ^ w" using Suc.prems(1) by (simp add: less_mult_imp_div_less mult.commute)
    ultimately show ?thesis using Suc.IH [of "n div 10"] False by (subst itoa.simps) simp
  qed (simp add: itoa.simps [of n])
qed simp

lemma padded:
  assumes "0 \<le> n" "n < 10 ^ w" "0 < w"
  shows "length (zero_padded w n) = w" "list_all is_digit (zero_padded w n)" "int (atoi (zero_padded w n)) = n"
proof -
  have "nat n < 10 ^ w" using assms(1,2) by (simp add: nat_less_iff)
  then have "length (itoa (nat n)) \<le> w" using assms(3) by (rule length_itoa)
  then show "length (zero_padded w n) = w" by (simp add: zero_padded_def Let_def)
  show "list_all is_digit (zero_padded w n)"
    using itoa_digits [of _ "nat n"] by (auto simp: zero_padded_def Let_def list_all_iff is_digit_def)
  show "int (atoi (zero_padded w n)) = n" using assms(1) by (simp add: zero_padded_def Let_def atoi_zeros)
qed

lemma read_num_padded:
  "0 \<le> n \<Longrightarrow> n < 10 ^ w \<Longrightarrow> 0 < w \<Longrightarrow> lo \<le> n \<Longrightarrow> n \<le> hi \<Longrightarrow>
    read_num w lo hi (zero_padded w n @ r) = Some (n, r)"
  using padded [of n w] by (simp add: read_num_def Let_def)

lemma read_two:
  "0 \<le> n \<Longrightarrow> lo \<le> n \<Longrightarrow> n \<le> hi \<Longrightarrow> n < 100 \<Longrightarrow> read_num 2 lo hi (zero_padded 2 n @ r) = Some (n, r)"
  "0 \<le> n \<Longrightarrow> lo \<le> n \<Longrightarrow> n \<le> hi \<Longrightarrow> n < 100 \<Longrightarrow> read_part c 2 lo hi (c # zero_padded 2 n @ r) = Some (n, r)"
  by (simp_all add: read_num_padded read_part_def)

lemma read_hour_padded:
  assumes "0 \<le> n" "n \<le> 23"
  shows "read_hour (zero_padded 2 n @ r) = Some (n, r)"
proof -
  have p: "length (zero_padded 2 n) = 2" "list_all is_digit (zero_padded 2 n)" using padded [of n 2] assms by simp_all
  then have "takeWhile is_digit (take 2 (zero_padded 2 n @ r)) = zero_padded 2 n"
    by (simp add: list_all_iff takeWhile_eq_all_conv)
  then have "length (takeWhile is_digit (take 2 (zero_padded 2 n @ r))) = 2" using p(1) by (simp only:)
  then show ?thesis using assms by (simp add: read_hour_def Let_def read_num_padded)
qed

lemma read_zone_text:
  assumes "\<bar>z\<bar> div 60 < 24"
  shows "read_zone (zone_text z) = Some z"
proof (cases "z = 0")
  case False
  have "0 \<le> \<bar>z\<bar> div 60" "0 \<le> \<bar>z\<bar> mod 60" "\<bar>z\<bar> mod 60 < 60" by (simp_all add: pos_imp_zdiv_nonneg_iff)
  moreover have "\<bar>z\<bar> div 60 * 60 + \<bar>z\<bar> mod 60 = \<bar>z\<bar>" by simp
  ultimately show ?thesis using False assms read_two(2) [of "\<bar>z\<bar> mod 60" 0 60 "CHR '':''" "[]"]
    by (simp add: zone_text_def read_zone_def read_two)
qed (simp add: zone_text_def read_zone_def)

lemma zone_starts: "\<exists>c r. zone_text z = c # r \<and> \<not> is_digit c \<and> c \<notin> {CHR ''.'', CHR '',''}"
  by (auto simp: zone_text_def is_digit_def)

lemma trim_zeros: "\<exists>k. s = trim_right s [c] @ replicate k c"
proof -
  have "takeWhile (\<lambda>x. x = c) xs = replicate (length (takeWhile (\<lambda>x. x = c) xs)) c" for xs
    by (induction xs) auto
  then have "rev s = replicate (length (takeWhile (\<lambda>x. x = c) (rev s))) c @ dropWhile (\<lambda>x. x = c) (rev s)"
    by (metis takeWhile_dropWhile_id)
  then have "s = rev (dropWhile (\<lambda>x. x = c) (rev s)) @ replicate (length (takeWhile (\<lambda>x. x = c) (rev s))) c"
    by (metis rev_append rev_replicate rev_rev_ident)
  then show ?thesis by (auto simp: trim_right_def)
qed

lemma read_fraction_text:
  assumes "0 \<le> f" "f < second" "r = c # q" "\<not> is_digit c" "c \<notin> {CHR ''.'', CHR '',''}"
  shows "read_fraction (fraction_text f @ r) = (f * 1000, r)"
proof (cases "f = 0")
  case False
  let ?s = "zero_padded 6 f"
  obtain k where k: "?s = trim_right ?s ''0'' @ replicate k CHR ''0''" using trim_zeros by blast
  define ds where "ds = trim_right ?s ''0''"
  have s: "?s = ds @ replicate k CHR ''0''" using k by (simp add: ds_def)
  have p: "length ?s = 6" "list_all is_digit ?s" "int (atoi ?s) = f" using padded [of f 6] assms(1,2) by simp_all
  have len: "length ds + k = 6" using p(1) s by (metis length_append length_replicate)
  have digits: "list_all is_digit ds" using p(2) s by (metis list_all_append)
  have "ds \<noteq> []"
  proof
    assume "ds = []"
    then have "atoi ?s = 0" using s atoi_zeros [of k "[]"] by (simp add: atoi_def)
    then show False using p(3) False by simp
  qed
  moreover have "takeWhile is_digit (ds @ r) = ds" using digits assms(3,4) by (simp add: takeWhile_append list_all_iff)
  moreover have "int (atoi (take 9 (ds @ replicate 9 CHR ''0''))) = f * 1000"
  proof -
    have "9 - length ds = k + 3" using len by simp
    then have "take 9 (ds @ replicate 9 CHR ''0'') = ?s @ replicate 3 CHR ''0''"
      using len by (simp add: s replicate_add [symmetric])
    then show ?thesis using p(3) by (simp add: atoi_pad)
  qed
  ultimately show ?thesis using False by (simp add: read_fraction_def fraction_text_def ds_def [symmetric] Let_def)
qed (use assms in \<open>simp add: read_fraction_def fraction_text_def\<close>)

text \<open>
  Every instant that can be written is read back, in whatever zone it was written.
\<close>

lemma read_back_rfc3339:
  assumes "rfc3339 z t = Some s"
  shows "read_rfc3339 s = Some (t * 1000)"
proof -
  define l where "l = t + z * 60 * second"
  obtain y m d where c: "civil_of_days (day_of l) = (y, m, d)" by (metis prod_cases3)
  note date = civil_of_days_valid [OF c]
  define sd where "sd = second_of_day l"
  have y: "0 \<le> y" "y \<le> 9999" "\<bar>z\<bar> div 60 < 24"
    and s: "s = zero_padded 4 y @ ''-'' @ zero_padded 2 m @ ''-'' @ zero_padded 2 d @ ''T'' @
           zero_padded 2 (sd div 3600) @ '':'' @ zero_padded 2 (sd div 60 mod 60) @ '':'' @ zero_padded 2 (sd mod 60) @
           fraction_text (l mod second) @ zone_text z"
    using assms unfolding rfc3339_def Let_def l_def [symmetric] c sd_def by (auto split: if_splits)
  have sd: "0 \<le> sd" "sd < 86400" by (simp_all add: sd_def second_of_day_def)
  have hour: "sd div 3600 = sd div 60 div 60" using zdiv_zmult2_eq [of 60 sd 60] by simp
  have "sd div 60 div 60 * 60 + sd div 60 mod 60 = sd div 60" "sd div 60 * 60 + sd mod 60 = sd" by simp_all
  then have "sd div 3600 * 3600 + sd div 60 mod 60 * 60 + sd mod 60 = sd" unfolding hour by linarith
  moreover have "0 \<le> sd div 3600" using sd(1) by (simp add: pos_imp_zdiv_nonneg_iff)
  moreover have "sd div 3600 \<le> 23" using sd(2) by linarith
  ultimately have hms: "0 \<le> sd div 3600" "sd div 3600 \<le> 23" "0 \<le> sd div 60 mod 60" "sd div 60 mod 60 \<le> 59"
    "0 \<le> sd mod 60" "sd mod 60 \<le> 59" "sd div 3600 * 3600 + sd div 60 mod 60 * 60 + sd mod 60 = sd"
    by simp_all
  have "days_in y m \<le> 31" by (simp add: days_in_def)
  then have d: "d < 100" using date by simp
  obtain c q where z: "zone_text z = c # q" "\<not> is_digit c" "c \<notin> {CHR ''.'', CHR '',''}" using zone_starts by blast
  have frac: "read_fraction (fraction_text (l mod second) @ zone_text z) = (l mod second * 1000, zone_text z)"
    by (rule read_fraction_text [OF _ _ z]) simp_all
  have num: "read_num 4 0 9999 (zero_padded 4 y @ r) = Some (y, r)" for r using y by (intro read_num_padded) simp_all
  have "day_of l = l div second div 86400" using zdiv_zmult2_eq [of 86400 l second] by (simp add: day_of_def)
  then have day: "day_of l * 86400 + sd = l div second" by (simp add: sd_def second_of_day_def)
  have parts: "read_part CHR ''-'' 2 1 12 (''-'' @ zero_padded 2 m @ r) = Some (m, r)"
    "read_part CHR ''-'' 2 1 (days_in y m) (''-'' @ zero_padded 2 d @ r) = Some (d, r)"
    "Option.bind (read_char CHR ''T'' (''T'' @ zero_padded 2 (sd div 3600) @ r)) read_hour = Some (sd div 3600, r)"
    "read_part CHR '':'' 2 0 59 ('':'' @ zero_padded 2 (sd div 60 mod 60) @ r) = Some (sd div 60 mod 60, r)"
    "read_part CHR '':'' 2 0 59 ('':'' @ zero_padded 2 (sd mod 60) @ r) = Some (sd mod 60, r)" for r
    using date d hms(1-6) by (simp_all add: read_two read_hour_padded)
  have "read_rfc3339 s = Some ((days_of_civil y m d * 86400 + sd div 3600 * 3600 + sd div 60 mod 60 * 60 + sd mod 60 - z * 60) *
      1000000000 + l mod second * 1000)"
    unfolding s read_rfc3339_def by (simp only: num parts frac read_zone_text [OF y(3)] option.case prod.case)
  also have "days_of_civil y m d * 86400 + sd div 3600 * 3600 + sd div 60 mod 60 * 60 + sd mod 60 = day_of l * 86400 + sd"
    using date(1) hms(7) by linarith
  also have "(day_of l * 86400 + sd - z * 60) * 1000000000 + l mod second * 1000 = t * 1000"
  proof -
    define a where "a = l div second"
    define b where "b = l mod second"
    have "a * second + b = l" by (simp add: a_def b_def)
    moreover have "day_of l * 86400 + sd = a" using day by (simp add: a_def)
    ultimately have "(day_of l * 86400 + sd - z * 60) * 1000000000 + b * 1000 = t * 1000" using l_def by simp
    then show ?thesis by (simp only: b_def)
  qed
  finally show ?thesis .
qed

end
