(* ===== verification/Json.thy ===== *)
theory Json
  imports GoStrings
begin

text \<open>
  JSON texts as \<open>json.Unmarshal\<close> reads them: the grammar of package encoding/json with its bound on nesting, and the
  strings and member names behind the quotes. A string is kept as it is written, so that a decoder that wants the raw text has it.
\<close>

section \<open>Tokens\<close>

definition json_space :: "char \<Rightarrow> bool" where
  "json_space c = (c = CHR '' '' \<or> c = CHR 0x09 \<or> c = CHR 0x0A \<or> c = CHR 0x0D)"

definition skip_space :: "string \<Rightarrow> string" where
  "skip_space s = dropWhile json_space s"

definition is_hex :: "char \<Rightarrow> bool" where
  "is_hex c = (is_digit c \<or> c \<in> set ''abcdefABCDEF'')"

text \<open>The bytes of a string after its opening quote, up to the closing one, and what follows.\<close>

fun scan_string :: "string \<Rightarrow> (string \<times> string) option" where
  "scan_string [] = None"
| "scan_string (c # s) =
     (if c = CHR 0x22 then Some ([], s)
      else if (of_char c :: nat) < 32 then None
      else if c \<noteq> CHR 0x5C then map_option (\<lambda>(b, r). (c # b, r)) (scan_string s)
      else case s of
        [] \<Rightarrow> None
      | e # s1 \<Rightarrow>
          if e \<in> set ''bfnrt/'' \<or> e = CHR 0x22 \<or> e = CHR 0x5C then map_option (\<lambda>(b, r). (c # e # b, r)) (scan_string s1)
          else if e \<noteq> CHR ''u'' then None
          else case s1 of
            h1 # h2 # h3 # h4 # s2 \<Rightarrow>
              if list_all is_hex [h1, h2, h3, h4]
              then map_option (\<lambda>(b, r). (c # e # h1 # h2 # h3 # h4 # b, r)) (scan_string s2) else None
          | _ \<Rightarrow> None)"

text \<open>A number: sign, whole part without leading zeros, fraction, exponent.\<close>

definition span_digits :: "string \<Rightarrow> (string \<times> string) option" where
  "span_digits s = (let ds = takeWhile is_digit s in if ds = [] then None else Some (ds, drop (length ds) s))"

definition scan_whole :: "string \<Rightarrow> (string \<times> string) option" where
  "scan_whole s = (case s of [] \<Rightarrow> None | c # r \<Rightarrow> if c = CHR ''0'' then Some (''0'', r) else span_digits s)"

definition scan_fraction :: "string \<Rightarrow> (string \<times> string) option" where
  "scan_fraction s =
     (case s of
        [] \<Rightarrow> Some ([], [])
      | c # r \<Rightarrow> if c = CHR ''.'' then map_option (\<lambda>(ds, r). (c # ds, r)) (span_digits r) else Some ([], s))"

definition scan_exponent :: "string \<Rightarrow> (string \<times> string) option" where
  "scan_exponent s =
     (case s of
        [] \<Rightarrow> Some ([], [])
      | c # r \<Rightarrow>
          if c \<noteq> CHR ''e'' \<and> c \<noteq> CHR ''E'' then Some ([], s)
          else case r of
            [] \<Rightarrow> None
          | x # r' \<Rightarrow>
              if x = CHR ''+'' \<or> x = CHR ''-'' then map_option (\<lambda>(ds, r). (c # x # ds, r)) (span_digits r')
              else map_option (\<lambda>(ds, r). (c # ds, r)) (span_digits r))"

definition scan_number :: "string \<Rightarrow> (string \<times> string) option" where
  "scan_number s =
     (let sign = (if has_prefix s ''-'' then ''-'' else []) in
      case scan_whole (drop (length sign) s) of None \<Rightarrow> None | Some (w, s) \<Rightarrow>
      (case scan_fraction s of None \<Rightarrow> None | Some (f, s) \<Rightarrow>
      (case scan_exponent s of None \<Rightarrow> None | Some (e, s) \<Rightarrow> Some (sign @ w @ f @ e, s))))"

definition scan_literal :: "string \<Rightarrow> json \<Rightarrow> string \<Rightarrow> (json \<times> string) option" where
  "scan_literal word v s = (if has_prefix s word then Some (v, drop (length word) s) else None)"

section \<open>Values\<close>

text \<open>
  \<open>d\<close> is the nesting that is left of \<open>maxNestingDepth\<close>. Every call is on a shorter text; the test for it only
  makes that plain. Strings and member names are raw.
\<close>

definition scan_scalar :: "string \<Rightarrow> (json \<times> string) option" where
  "scan_scalar s =
     (case s of
        [] \<Rightarrow> None
      | c # r \<Rightarrow>
          if c = CHR 0x22 then map_option (\<lambda>(b, r). (JStr b, r)) (scan_string r)
          else if c = CHR ''t'' then scan_literal ''true'' (JBool True) s
          else if c = CHR ''f'' then scan_literal ''false'' (JBool False) s
          else if c = CHR ''n'' then scan_literal ''null'' JNull s
          else map_option (\<lambda>(n, r). (JNum n, r)) (scan_number s))"

text \<open>A member's name and the colon after it.\<close>

definition scan_name :: "string \<Rightarrow> (string \<times> string) option" where
  "scan_name s =
     (case skip_space s of
        [] \<Rightarrow> None
      | c # r \<Rightarrow>
          if c \<noteq> CHR 0x22 then None
          else case scan_string r of
            None \<Rightarrow> None
          | Some (b, r) \<Rightarrow>
              (case skip_space r of
                 [] \<Rightarrow> None
               | c # r \<Rightarrow> if c = CHR '':'' then Some (b, r) else None))"

function scan_value :: "nat \<Rightarrow> string \<Rightarrow> (json \<times> string) option"
  and scan_elements :: "nat \<Rightarrow> string \<Rightarrow> (json list \<times> string) option"
  and scan_members :: "nat \<Rightarrow> string \<Rightarrow> ((string \<times> json) list \<times> string) option" where
  "scan_value d s =
     (let s' = skip_space s in
      case s' of
        [] \<Rightarrow> None
      | c # r \<Rightarrow>
          if length r \<ge> length s then None
          else if c = CHR ''{'' then
            (if d = 0 then None
             else case skip_space r of
               [] \<Rightarrow> None
             | x # r' \<Rightarrow>
                 if x = CHR ''}'' then Some (JObj [], r')
                 else map_option (\<lambda>(ms, r). (JObj ms, r)) (scan_members (d - 1) r))
          else if c = CHR ''['' then
            (if d = 0 then None
             else case skip_space r of
               [] \<Rightarrow> None
             | x # r' \<Rightarrow>
                 if x = CHR '']'' then Some (JArr [], r')
                 else map_option (\<lambda>(vs, r). (JArr vs, r)) (scan_elements (d - 1) r))
          else scan_scalar s')"
| "scan_elements d s =
     (case scan_value d s of
        None \<Rightarrow> None
      | Some (v, r) \<Rightarrow>
          (case skip_space r of
             [] \<Rightarrow> None
           | c # r \<Rightarrow>
               if length r \<ge> length s then None
               else if c = CHR '']'' then Some ([v], r)
               else if c = CHR '','' then map_option (\<lambda>(vs, r). (v # vs, r)) (scan_elements d r)
               else None))"
| "scan_members d s =
     (case scan_name s of
        None \<Rightarrow> None
      | Some (k, r) \<Rightarrow>
          if length r \<ge> length s then None
          else case scan_value d r of
            None \<Rightarrow> None
          | Some (v, r) \<Rightarrow>
              (case skip_space r of
                 [] \<Rightarrow> None
               | c # r \<Rightarrow>
                   if length r \<ge> length s then None
                   else if c = CHR ''}'' then Some ([(k, v)], r)
                   else if c = CHR '','' then map_option (\<lambda>(ms, r). ((k, v) # ms, r)) (scan_members d r)
                   else None))"
  by pat_completeness auto

termination
  by (relation "measure (\<lambda>x. case x of Inl (d, s) \<Rightarrow> 2 * length s | Inr (Inl (d, s)) \<Rightarrow> 2 * length s + 1 | Inr (Inr (d, s)) \<Rightarrow> 2 * length s + 1)")
    auto

declare scan_value.simps [simp del] scan_elements.simps [simp del] scan_members.simps [simp del]

definition max_nesting :: nat where
  "max_nesting = 10000"

definition json_document :: "bytes \<Rightarrow> json option" where
  "json_document s =
     (case scan_value max_nesting s of
        None \<Rightarrow> None
      | Some (v, r) \<Rightarrow> if skip_space r = [] then Some v else None)"

section \<open>The text behind a string\<close>

text \<open>\<open>utf8.EncodeRune\<close> of a rune that is no surrogate.\<close>

definition rune_text :: "nat \<Rightarrow> string" where
  "rune_text u =
     (if u < 128 then [char_of u]
      else if u < 2048 then [char_of (192 + u div 64), char_of (128 + u mod 64)]
      else if u < 65536 then [char_of (224 + u div 4096), char_of (128 + u div 64 mod 64), char_of (128 + u mod 64)]
      else [char_of (240 + u div 262144), char_of (128 + u div 4096 mod 64), char_of (128 + u div 64 mod 64), char_of (128 + u mod 64)])"

definition replacement :: string where
  "replacement = rune_text 65533"

text \<open>The number of bytes of the rune at the start, where they are valid UTF-8.\<close>

definition byte_in :: "nat \<Rightarrow> nat \<Rightarrow> char \<Rightarrow> bool" where
  "byte_in lo hi c = (lo \<le> of_char c \<and> of_char c \<le> hi)"

definition rune_width :: "string \<Rightarrow> nat option" where
  "rune_width s =
     (case s of
        [] \<Rightarrow> None
      | a # r \<Rightarrow>
          let next = (\<lambda>lo hi n. if length r < n \<or> \<not> byte_in lo hi (hd r) \<or> \<not> list_all (byte_in 128 191) (take (n - 1) (tl r))
                        then None else Some (n + 1))
          in if byte_in 0 127 a then Some 1
             else if byte_in 194 223 a then next 128 191 1
             else if byte_in 224 224 a then next 160 191 2
             else if byte_in 237 237 a then next 128 159 2
             else if byte_in 225 239 a then next 128 191 2
             else if byte_in 240 240 a then next 144 191 3
             else if byte_in 241 243 a then next 128 191 3
             else if byte_in 244 244 a then next 128 143 3
             else None)"

definition hex_digit_value :: "char \<Rightarrow> nat" where
  "hex_digit_value c =
     (let n = of_char c in if is_digit c then n - 48 else if n < 97 then n - 55 else n - 87)"

definition hex_rune :: "string \<Rightarrow> nat" where
  "hex_rune s = foldl (\<lambda>v c. 16 * v + hex_digit_value c) 0 s"

text \<open>\<open>getu4\<close>: the code unit of an escape at the start.\<close>

definition code_unit :: "string \<Rightarrow> nat option" where
  "code_unit s =
     (if length s < 6 \<or> take 2 s \<noteq> [CHR 0x5C, CHR ''u''] \<or> \<not> list_all is_hex (take 4 (drop 2 s)) then None
      else Some (hex_rune (take 4 (drop 2 s))))"

text \<open>\<open>utf16.DecodeRune\<close> of the units of a pair.\<close>

definition paired :: "nat \<Rightarrow> nat option \<Rightarrow> nat option" where
  "paired u w =
     (case w of
        None \<Rightarrow> None
      | Some v \<Rightarrow>
          if 0xD800 \<le> u \<and> u < 0xDC00 \<and> 0xDC00 \<le> v \<and> v < 0xE000
          then Some ((u - 0xD800) * 1024 + (v - 0xDC00) + 0x10000) else None)"

definition escaped_char :: "char \<Rightarrow> char" where
  "escaped_char e =
     (if e = CHR ''b'' then CHR 0x08 else if e = CHR ''f'' then CHR 0x0C else if e = CHR ''n'' then CHR 0x0A
      else if e = CHR ''r'' then CHR 0x0D else if e = CHR ''t'' then CHR 0x09 else e)"

text \<open>
  \<open>unquoteBytes\<close> of a string that has been scanned: what it writes for the first piece and what is left. A lone
  surrogate and a byte that is no UTF-8 become the replacement character.
\<close>

definition unquote_piece :: "char \<Rightarrow> string \<Rightarrow> string \<times> string" where
  "unquote_piece c s =
     (if c \<noteq> CHR 0x5C
      then (case rune_width (c # s) of
              None \<Rightarrow> (replacement, s)
            | Some n \<Rightarrow> (c # take (n - 1) s, drop (n - 1) s))
      else case code_unit (c # s) of
        None \<Rightarrow> (map escaped_char (take 1 s), drop 1 s)
      | Some u \<Rightarrow>
          let r = drop 5 s
          in if u < 0xD800 \<or> 0xE000 \<le> u then (rune_text u, r)
             else case paired u (code_unit r) of
               None \<Rightarrow> (replacement, r)
             | Some v \<Rightarrow> (rune_text v, drop 6 r))"

lemma unquote_piece_shorter: "length (snd (unquote_piece c s)) \<le> length s"
  by (simp add: unquote_piece_def Let_def split: option.split)

function unquote :: "string \<Rightarrow> string" where
  "unquote [] = []"
| "unquote (c # s) = fst (unquote_piece c s) @ unquote (snd (unquote_piece c s))"
  by pat_completeness auto

termination
  by (relation "measure length") (use unquote_piece_shorter in \<open>auto simp: le_imp_less_Suc\<close>)

declare unquote.simps(2) [simp del]

section \<open>Plain texts\<close>

text \<open>A text that is its own JSON: printable ASCII without quotes and backslashes.\<close>

definition plain_char :: "char \<Rightarrow> bool" where
  "plain_char c = (32 \<le> (of_char c :: nat) \<and> of_char c < (128 :: nat) \<and> c \<noteq> CHR 0x22 \<and> c \<noteq> CHR 0x5C)"

abbreviation plain :: "string \<Rightarrow> bool" where
  "plain s \<equiv> list_all plain_char s"

definition json_string :: "string \<Rightarrow> string" where
  "json_string s = [CHR 0x22] @ s @ [CHR 0x22]"

fun members_text :: "(string \<times> string) list \<Rightarrow> string" where
  "members_text [] = []"
| "members_text ((k, v) # ms) = json_string k @ '':'' @ json_string v @ (if ms = [] then [] else '','' @ members_text ms)"

text \<open>An object whose members are strings.\<close>

definition object_text :: "(string \<times> string) list \<Rightarrow> string" where
  "object_text ms = ''{'' @ members_text ms @ ''}''"

lemma unquote_plain: "plain s \<Longrightarrow> unquote s = s"
proof (induction s)
  case (Cons c s)
  then have "unquote_piece c s = ([c], s)"
    by (auto simp: unquote_piece_def rune_width_def byte_in_def plain_char_def)
  with Cons show ?case by (simp add: unquote.simps(2))
qed simp

lemma scan_string_plain: "plain s \<Longrightarrow> scan_string (s @ CHR 0x22 # r) = Some (s, r)"
  by (induction s) (auto simp: plain_char_def)

lemma skip_visible [simp]: "\<not> json_space c \<Longrightarrow> skip_space (c # s) = c # s"
  by (simp add: skip_space_def)

lemma not_space [simp]:
  "\<not> json_space CHR 0x22" "\<not> json_space CHR '':''" "\<not> json_space CHR '',''" "\<not> json_space CHR ''{''" "\<not> json_space CHR ''}''"
  by (simp_all add: json_space_def)

lemma scan_name_plain: "plain k \<Longrightarrow> scan_name (json_string k @ CHR '':'' # r) = Some (k, r)"
  by (simp add: scan_name_def json_string_def scan_string_plain)

lemma scan_value_plain: "plain v \<Longrightarrow> scan_value d (json_string v @ r) = Some (JStr v, r)"
  by (simp add: scan_value.simps [of d] scan_scalar_def json_string_def scan_string_plain)

lemma scan_members_plain:
  "ms \<noteq> [] \<Longrightarrow> \<forall>(k, v) \<in> set ms. plain k \<and> plain v \<Longrightarrow>
     scan_members d (members_text ms @ CHR ''}'' # r) = Some (map (\<lambda>(k, v). (k, JStr v)) ms, r)"
proof (induction ms)
  case (Cons m ms)
  obtain k v where m: "m = (k, v)" by fastforce
  then have kv: "plain k" "plain v" using Cons.prems(2) by auto
  let ?rest = "(if ms = [] then [] else '','' @ members_text ms) @ CHR ''}'' # r"
  have shape: "members_text (m # ms) @ CHR ''}'' # r = json_string k @ CHR '':'' # (json_string v @ ?rest)" by (simp add: m)
  have name: "scan_name (json_string k @ CHR '':'' # (json_string v @ ?rest)) = Some (k, json_string v @ ?rest)"
    by (rule scan_name_plain [OF kv(1)])
  have val: "scan_value d (json_string v @ ?rest) = Some (JStr v, ?rest)" by (rule scan_value_plain [OF kv(2)])
  have short: "length (json_string v @ ?rest) < length (json_string k @ CHR '':'' # (json_string v @ ?rest))"
    by (simp add: json_string_def)
  have step: "scan_members d (members_text (m # ms) @ CHR ''}'' # r) =
      (case skip_space ?rest of
         [] \<Rightarrow> None
       | c # q \<Rightarrow>
           if length q \<ge> length (members_text (m # ms) @ CHR ''}'' # r) then None
           else if c = CHR ''}'' then Some ([(k, JStr v)], q)
           else if c = CHR '','' then map_option (\<lambda>(ms, r). ((k, JStr v) # ms, r)) (scan_members d q)
           else None)"
    unfolding shape
    by (subst scan_members.simps) (use short in \<open>simp only: name val option.case prod.case not_le if_False not_less [symmetric] split: if_split\<close>, simp)
  show ?case
  proof (cases "ms = []")
    case True
    then show ?thesis unfolding step by (simp add: m json_string_def)
  next
    case False
    then have "scan_members d (members_text ms @ CHR ''}'' # r) = Some (map (\<lambda>(k, v). (k, JStr v)) ms, r)"
      using Cons by simp
    then show ?thesis unfolding step using False by (simp add: m json_string_def)
  qed
qed simp

lemma scan_object:
  assumes "ms \<noteq> []" "\<forall>(k, v) \<in> set ms. plain k \<and> plain v"
  shows "scan_value max_nesting (object_text ms @ r) = Some (JObj (map (\<lambda>(k, v). (k, JStr v)) ms), r)"
proof -
  obtain x t where x: "members_text ms @ CHR ''}'' # r = CHR 0x22 # x"
    using assms(1) by (cases ms) (auto simp: json_string_def)
  have "scan_members (max_nesting - 1) (members_text ms @ CHR ''}'' # r) = Some (map (\<lambda>(k, v). (k, JStr v)) ms, r)"
    by (rule scan_members_plain [OF assms])
  then show ?thesis using x by (subst scan_value.simps) (simp add: object_text_def max_nesting_def)
qed

lemma object_read_back:
  assumes "ms \<noteq> []" "\<forall>(k, v) \<in> set ms. plain k \<and> plain v"
  shows "json_document (object_text ms) = Some (JObj (map (\<lambda>(k, v). (k, JStr v)) ms))"
  using scan_object [OF assms, of "[]"] by (simp add: json_document_def skip_space_def)

end
