(* ===== verification/Cursors.thy ===== *)
theory Cursors
  imports Http Timestamps Json
begin

text \<open>
  internal/publicapi/cursor.go: the text of a cursor, base64url of the JSON of its time and id, and the paging that rests on it.
\<close>

section \<open>The text of a cursor\<close>

text \<open>
  \<open>zone\<close> is the offset in minutes of the process's time zone at an instant, \<open>parse\<close> is \<open>uuid.Parse\<close>. The
  error of \<open>json.Marshal\<close>, for a time without a text, is dropped and leaves no bytes.
\<close>

definition cursor_json :: "string \<Rightarrow> uuid \<Rightarrow> string" where
  "cursor_json at i = object_text [(''published_at'', at), (''id'', uuid_string i)]"

definition encode_cursor :: "(time \<Rightarrow> int) \<Rightarrow> cursor \<Rightarrow> string" where
  "encode_cursor zone c =
     b64_encode b64_url (case rfc3339 (zone (fst c)) (fst c) of None \<Rightarrow> [] | Some at \<Rightarrow> cursor_json at (snd c))"

text \<open>\<open>UnmarshalJSON\<close> of a time takes the text between the quotes as it is.\<close>

definition as_instant :: "json \<Rightarrow> int \<Rightarrow> int option" where
  "as_instant j x = (case j of JStr s \<Rightarrow> read_rfc3339 s | JNull \<Rightarrow> Some x | _ \<Rightarrow> None)"

text \<open>
  \<open>json.Unmarshal\<close> into a Cursor: names as in theory Http, unknown members ignored, and null for the whole leaves the
  zero cursor.
\<close>

definition unmarshal_cursor ::
  "(string \<Rightarrow> string \<Rightarrow> bool) \<Rightarrow> (string \<Rightarrow> uuid option) \<Rightarrow> bytes \<Rightarrow> (int \<times> uuid) option" where
  "unmarshal_cursor alike parse b =
     (case json_document b of
        Some JNull \<Rightarrow> Some (zero_time * 1000, nil_uuid)
      | Some (JObj members) \<Rightarrow>
          (let kvs = map (\<lambda>(k, v). (unquote k, v)) members
           in case decode_field alike kvs ''published_at'' as_instant (zero_time * 1000) of
                Inl e \<Rightarrow> None
              | Inr t \<Rightarrow>
                  (case decode_field alike kvs ''id'' (as_uuid (\<lambda>s. parse (unquote s))) nil_uuid of
                     Inl e \<Rightarrow> None
                   | Inr i \<Rightarrow> Some (t, i)))
      | _ \<Rightarrow> None)"

definition read_cursor ::
  "(string \<Rightarrow> string \<Rightarrow> bool) \<Rightarrow> (string \<Rightarrow> uuid option) \<Rightarrow> string \<Rightarrow> (int \<times> uuid) option" where
  "read_cursor alike parse s = Option.bind (b64_decode b64_url s) (unmarshal_cursor alike parse)"

definition text_codec ::
  "(time \<Rightarrow> int) \<Rightarrow> (string \<Rightarrow> string \<Rightarrow> bool) \<Rightarrow> (string \<Rightarrow> uuid option) \<Rightarrow> codec" where
  "text_codec zone alike parse = \<lparr>cc_encode = encode_cursor zone, cc_decode = read_cursor alike parse\<rparr>"

section \<open>What is written is read\<close>

lemma digit_plain: "is_digit c \<Longrightarrow> plain_char c"
  by (auto simp: is_digit_def plain_char_def)

lemma padded_plain: "plain (zero_padded w n)"
  using zero_padded_chars digit_plain by (auto simp: list_all_iff)

lemma rfc3339_plain: "rfc3339 z t = Some s \<Longrightarrow> plain s"
proof -
  have "plain (fraction_text f)" for f
    using set_trim_right [of "zero_padded 6 f" "''0''"] padded_plain [of 6 f]
    by (auto simp: fraction_text_def list_all_iff plain_char_def)
  moreover have "plain (zone_text y)" for y by (simp add: zone_text_def padded_plain plain_char_def)
  ultimately show "rfc3339 z t = Some s \<Longrightarrow> plain s"
    by (auto simp: rfc3339_def Let_def padded_plain plain_char_def split: prod.splits if_splits)
qed

lemma hex_digit_plain: "c \<in> set (hex_digits n v) \<Longrightarrow> plain_char c"
  using hex_digits_slug [of c n v] by (auto simp: slug_char_def is_lower_def is_digit_def plain_char_def)

lemma uuid_plain: "plain (uuid_string u)"
  using hex_digit_plain
  by (auto simp: uuid_string_def Let_def list_all_iff plain_char_def dest!: in_set_takeD in_set_dropD)

lemma cursor_names: "equal_fold alike ''id'' ''id''" "\<not> equal_fold alike ''published_at'' ''id''"
  "equal_fold alike ''published_at'' ''published_at''" "\<not> equal_fold alike ''id'' ''published_at''"
  by (simp_all add: equal_fold_def is_ascii_def lower_byte_def is_upper_def)

lemma names_plain: "plain ''published_at''" "plain ''id''"
  by (simp_all add: plain_char_def)

text \<open>A position that has a text is read back from it, in nanoseconds.\<close>

lemma text_codec_carries:
  assumes "rfc3339 (zone t) t \<noteq> None" "parse (uuid_string i) = Some i"
  shows "carries (text_codec zone alike parse) (t, i)"
proof -
  obtain s where s: "rfc3339 (zone t) t = Some s" using assms(1) by blast
  have "json_document (cursor_json s i) = Some (JObj [(''published_at'', JStr s), (''id'', JStr (uuid_string i))])"
    using object_read_back [of "[(''published_at'', s), (''id'', uuid_string i)]"] names_plain rfc3339_plain [OF s] uuid_plain [of i]
    by (simp add: cursor_json_def)
  then have "unmarshal_cursor alike parse (cursor_json s i) = Some (t * 1000, i)"
    using assms(2)
    by (simp add: unmarshal_cursor_def unquote_plain [OF names_plain(1)] unquote_plain [OF names_plain(2)]
        unquote_plain [OF uuid_plain] decode_field_def cursor_names as_instant_def as_uuid_def read_back_rfc3339 [OF s])
  moreover have "cursor_json s i \<noteq> []" by (simp add: cursor_json_def object_text_def)
  ultimately show ?thesis
    using encode_inject [of b64_url "cursor_json s i" "[]"]
    by (simp add: carries_def text_codec_def encode_cursor_def s read_cursor_def b64_encode_def [of b64_url "[]"])
qed

text \<open>The decoding is not strict: line breaks in the text do not count, so a position has many texts.\<close>

lemma cursor_line_breaks: "read_cursor alike parse (CHR 0x0A # s) = read_cursor alike parse s"
  by (simp add: read_cursor_def b64_decode_def)

section \<open>One process\<close>

text \<open>A process two hours east of Greenwich, and identifiers read back from their digits.\<close>

definition sample_uuid_parse :: "string \<Rightarrow> uuid option" where
  "sample_uuid_parse s = Some (word_of_nat (hex_rune (filter (\<lambda>c. c \<noteq> CHR ''-'') s)))"

lemma hex_digit_value_char: "d < 16 \<Longrightarrow> hex_digit_value (hex_char d) = d"
  by (auto simp: hex_digit_value_def hex_char_def is_digit_def Let_def)

lemma hex_rune_digits: "v < 16 ^ n \<Longrightarrow> hex_rune (hex_digits n v) = v"
proof (induction n arbitrary: v)
  case (Suc n)
  then have "v div 16 < 16 ^ n" by (simp add: less_mult_imp_div_less mult.commute)
  then have "hex_rune (hex_digits n (v div 16)) = v div 16" by (rule Suc.IH)
  then show ?case by (simp add: hex_rune_def hex_digit_value_char)
qed (simp add: hex_rune_def)

lemma sample_uuid_parse: "sample_uuid_parse (uuid_string u) = Some u"
proof -
  let ?h = "hex_digits 32 (unat u)"
  have no_dash: "c \<noteq> CHR ''-''" if "c \<in> set ?h" for c using that hex_digits_slug by fastforce
  have "filter (\<lambda>c. c \<noteq> CHR ''-'') (uuid_string u) = filter (\<lambda>c. c \<noteq> CHR ''-'')
      (take 8 ?h @ take 4 (drop 8 ?h) @ take 4 (drop 12 ?h) @ take 4 (drop 16 ?h) @ drop 20 ?h)"
    by (simp add: uuid_string_def Let_def)
  also have "\<dots> = filter (\<lambda>c. c \<noteq> CHR ''-'') ?h" by (simp only: uuid_string_parts [of ?h, symmetric])
  also have "\<dots> = ?h" using no_dash by (simp add: filter_id_conv)
  finally have "filter (\<lambda>c. c \<noteq> CHR ''-'') (uuid_string u) = ?h" .
  moreover have "unat u < 16 ^ 32" using unsigned_less [of u] by simp
  ultimately show ?thesis by (simp add: sample_uuid_parse_def hex_rune_digits)
qed

section \<open>Properties\<close>

text \<open>
  C40. A cursor survives its text: what the server writes for a time and an id, in whatever zone, is text, and reading it gives the
  same position, except that the zero time and the nil id are refused; provided that the time has a year of four digits.
\<close>

theorem cursor_read_back:
  assumes "rfc3339 (zone t) t \<noteq> None" "parse (uuid_string i) = Some i"
  shows "encode_cursor zone (t, i) \<noteq> [] \<and>
    decode_cursor (text_codec zone alike parse) (encode_cursor zone (t, i)) =
      (if t = zero_time \<or> i = nil_uuid then Inl ErrMalformedCursor else Inr (t, i))"
  using text_codec_carries [of zone t parse i alike, OF assms] by (auto simp: carries_def text_codec_def decode_cursor_def)

lemma cursor_read_back_witness:
  "rfc3339 120 1709164800000120 = Some ''2024-02-29T02:00:00.00012+02:00'' \<and>
   decode_cursor (text_codec (\<lambda>t. 120) (\<lambda>s t. False) sample_uuid_parse) (encode_cursor (\<lambda>t. 120) (1709164800000120, 7)) =
     Inr (1709164800000120, 7)"
proof -
  have written: "rfc3339 120 1709164800000120 = Some ''2024-02-29T02:00:00.00012+02:00''" by code_simp
  then show ?thesis
    using cursor_read_back [of "\<lambda>t. 120" 1709164800000120 sample_uuid_parse 7 "\<lambda>s t. False"] sample_uuid_parse
    by (simp add: zero_time_def)
qed

text \<open>
  C25. Paging is complete and in order: a client that follows the next cursors of the list from the
  first page meets every published post of the tenant with the tag exactly once, newest first, and
  reaches the last page within one page more than there are posts; for a table with unique ids, a page
  size of at least one, and published posts with an id and a publication time that has a text.
\<close>

theorem paging_complete:
  assumes "has_tenant d t" "CHR 0x00 \<notin> set tag" "0 < ap_size a" "distinct (map p_id (posts d))"
    and "\<forall>p \<in> set (posts d). p_status p = PostPublished \<longrightarrow>
      datable p \<and> rfc3339 (zone (fst (cursor_of p))) (fst (cursor_of p)) \<noteq> None"
    and "\<forall>i. parse (uuid_string i) = Some i"
  shows "map lp_slug (crawl E a (text_codec zone alike parse) tag t d (length (posts d) + 1) []) =
    map p_slug (newest_first (filter (listed (ro_tx E t) t tag) (posts d)))"
proof (rule crawl_complete [OF assms(1-4)], intro ballI impI conjI)
  fix p assume p: "p \<in> set (posts d)" "p_status p = PostPublished"
  then show "datable p" using assms(5) by blast
  show "carries (text_codec zone alike parse) (cursor_of p)"
    using text_codec_carries [of zone "fst (cursor_of p)" parse "snd (cursor_of p)"] p assms(5,6) by simp
qed

lemma paging_complete_witness:
  "map lp_slug (crawl sample_env sample_api (text_codec (\<lambda>t. 120) (\<lambda>s t. False) sample_uuid_parse) [] 1 sample_public
     (length (posts sample_public) + 1) []) = [''three'', ''one'']"
proof -
  have rows: "newest_first (filter (listed (ro_tx sample_env 1) 1 []) (posts sample_public)) =
      [sample_entry 13 ''three'' PostPublished (Some 20), sample_entry 11 ''one'' PostPublished (Some 10)]"
    by (simp add: newest_first_def listed_def visible_def tx_of_def tenant_scope_def sample_public_def sample_entry_def
        order_key_def)
  have "rfc3339 120 10 \<noteq> None" "rfc3339 120 20 \<noteq> None" by code_simp+
  with rows show ?thesis
    by (subst paging_complete [of sample_public 1 _ sample_api])
      (simp_all add: sample_public_defs has_tenant_def datable_def zero_time_def cursor_of_def sample_uuid_parse)
qed

end
