(* ===== verification/Setup.thy ===== *)
theory Setup
  imports Router Cursors
begin

text \<open>
  How the programs of cmd/ are put together: the configuration of cmd/api/config.go, the module graph of
  cmd/api/main.go, and the bootstrap data of cmd/seed with the statements of
  internal/store/seed_queries.go.
\<close>

section \<open>The environment\<close>

text \<open>\<open>os.LookupEnv\<close> is a map from names to values; \<open>os.Getenv\<close> gives an empty value for none.\<close>

type_synonym environ = "string \<Rightarrow> string option"

definition getenv :: "environ \<Rightarrow> string \<Rightarrow> string" where
  "getenv V name = (case V name of None \<Rightarrow> [] | Some v \<Rightarrow> v)"

definition str_env :: "environ \<Rightarrow> string \<Rightarrow> string \<Rightarrow> string" where
  "str_env V name def = (if getenv V name \<noteq> [] then getenv V name else def)"

definition int_env :: "environ \<Rightarrow> string \<Rightarrow> int \<Rightarrow> string + int" where
  "int_env V name def =
     (if getenv V name = [] then Inr def
      else case go_atoi (getenv V name) of
        None \<Rightarrow> Inl (name @ '' must be an integer'')
      | Some n \<Rightarrow> Inr n)"

text \<open>\<open>parse\<close>: \<open>time.ParseDuration\<close>, in microseconds.\<close>

definition dur_env :: "(string \<Rightarrow> time option) \<Rightarrow> environ \<Rightarrow> string \<Rightarrow> time \<Rightarrow> string + time" where
  "dur_env parse V name def =
     (if getenv V name = [] then Inr def
      else case parse (getenv V name) of
        None \<Rightarrow> Inl (name @ '' must be a duration'')
      | Some d \<Rightarrow> Inr d)"

definition bool_env :: "environ \<Rightarrow> string \<Rightarrow> bool \<Rightarrow> bool" where
  "bool_env V name def =
     (if getenv V name = [] then def else getenv V name \<in> {''1'', ''true'', ''True''})"

definition split_csv :: "string \<Rightarrow> string list" where
  "split_csv s = filter (\<lambda>p. p \<noteq> []) (map trim_space (go_split s CHR '',''))"

definition hex_value :: "char \<Rightarrow> nat option" where
  "hex_value c =
     (let n = of_char c :: nat
      in if is_digit c then Some (n - 48)
         else if 97 \<le> n \<and> n \<le> 102 then Some (n - 87)
         else if 65 \<le> n \<and> n \<le> 70 then Some (n - 55)
         else None)"

fun decode_hex :: "string \<Rightarrow> bytes option" where
  "decode_hex [] = Some []"
| "decode_hex [c] = None"
| "decode_hex (a # b # s) =
     (case (hex_value a, hex_value b, decode_hex s) of
        (Some x, Some y, Some r) \<Rightarrow> Some (char_of (16 * x + y) # r)
      | _ \<Rightarrow> None)"

definition decode_hex_key :: "string \<Rightarrow> string + bytes" where
  "decode_hex_key s =
     (let s = trim_space s
      in if length s \<noteq> 64 then Inl ''SESSION_KEY must be 64 hex chars''
         else case decode_hex s of
           None \<Rightarrow> Inl ''SESSION_KEY must be valid hex''
         | Some b \<Rightarrow> Inr b)"

section \<open>The configuration\<close>

record client_cfg =
  cc_id :: string
  cc_secret :: string
  cc_redirect :: string

record config =
  cf_db :: string
  cf_port :: int
  cf_key :: bytes
  cf_cookie :: string
  cf_secure :: bool
  cf_origins :: "string list"
  cf_media_origin :: string
  cf_media :: media_config
  cf_google :: client_cfg
  cf_github :: client_cfg
  cf_allow :: "url list"
  cf_workers :: int

definition client_env :: "environ \<Rightarrow> string \<Rightarrow> client_cfg" where
  "client_env V prefix =
     \<lparr>cc_id = getenv V (prefix @ ''_OAUTH_CLIENT_ID''), cc_secret = getenv V (prefix @ ''_OAUTH_CLIENT_SECRET''),
      cc_redirect = getenv V (prefix @ ''_OAUTH_REDIRECT_URL'')\<rparr>"

fun allow_list :: "env \<Rightarrow> string list \<Rightarrow> string + url list" where
  "allow_list E [] = Inr []"
| "allow_list E (s # ss) =
     (if s = [] then allow_list E ss
      else case e_url E s of
        None \<Rightarrow> Inl (''OAUTH_REDIRECT_ALLOW entry is not an absolute http(s) URL: '' @ s)
      | Some u \<Rightarrow>
          if u_host u = [] \<or> (u_scheme u \<noteq> ''http'' \<and> u_scheme u \<noteq> ''https'')
          then Inl (''OAUTH_REDIRECT_ALLOW entry is not an absolute http(s) URL: '' @ s)
          else map_sum id (Cons u) (allow_list E ss))"

definition load_config :: "env \<Rightarrow> (string \<Rightarrow> time option) \<Rightarrow> environ \<Rightarrow> string + config" where
  "load_config E parse V =
     (if getenv V ''DATABASE_URL'' = [] then Inl ''DATABASE_URL is required''
      else field_then (int_env V ''PORT'' 8080) (\<lambda>port.
        case V ''SESSION_KEY'' of
          None \<Rightarrow> Inl ''SESSION_KEY is required (64 hex chars = 32 bytes AES-256)''
        | Some hex \<Rightarrow>
            field_then (decode_hex_key hex) (\<lambda>key.
              field_then (dur_env parse V ''MEDIA_PRESIGN_TTL'' (15 * 60 * second)) (\<lambda>ttl.
                field_then (allow_list E (split_csv (getenv V ''OAUTH_REDIRECT_ALLOW''))) (\<lambda>allow.
                  field_then (int_env V ''JOBS_WORKERS'' 3) (\<lambda>workers.
                    Inr \<lparr>cf_db = getenv V ''DATABASE_URL'', cf_port = port, cf_key = key,
                      cf_cookie = str_env V ''SESSION_COOKIE_NAME'' ''openblog_session'',
                      cf_secure = bool_env V ''COOKIE_SECURE'' False,
                      cf_origins = split_csv (getenv V ''EDITOR_ORIGINS''),
                      cf_media_origin = getenv V ''POSTS_MEDIA_ORIGIN'',
                      cf_media = \<lparr>mc_endpoint = getenv V ''R2_ENDPOINT'', mc_bucket = getenv V ''R2_BUCKET'',
                        mc_access = getenv V ''R2_ACCESS_KEY_ID'', mc_secret = getenv V ''R2_SECRET_ACCESS_KEY'',
                        mc_expiry = ttl, mc_cdn = trim_right (getenv V ''R2_CDN_BASE'') ''/''\<rparr>,
                      cf_google = client_env V ''GOOGLE'', cf_github = client_env V ''GITHUB'',
                      cf_allow = allow, cf_workers = workers\<rparr>))))))"

section \<open>The module graph\<close>

definition provider_cfg :: "client_cfg \<Rightarrow> provider_config" where
  "provider_cfg c = \<lparr>pc_client = cc_id c, pc_secret = cc_secret c, pc_auth_url = [], pc_token_url = [],
     pc_redirect = cc_redirect c, pc_userinfo = [], pc_scopes = []\<rparr>"

text \<open>The object store that imports get: it keeps nothing and gives back nothing.\<close>

definition noop_put :: "string \<Rightarrow> bytes \<Rightarrow> error option" where
  "noop_put key data = None"

definition noop_get :: "string \<Rightarrow> error + bytes" where
  "noop_get key = Inr []"

definition oauth_of :: "idp \<Rightarrow> config \<Rightarrow> error + oauth option" where
  "oauth_of X c =
     (if cc_id (cf_google c) \<noteq> [] \<or> cc_id (cf_github c) \<noteq> []
      then map_sum (ErrWrap ''oauth'') Some
        (oauth_new X (cf_key c) (provider_cfg (cf_google c)) (provider_cfg (cf_github c)) (cf_allow c) 0)
      else Inr None)"

text \<open>The parameters that the packages of the module graph take from outside.\<close>

record outside =
  ou_hasher :: hasher
  ou_idp :: idp
  ou_zone :: "time \<Rightarrow> int"
  ou_alike :: "string \<Rightarrow> string \<Rightarrow> bool"
  ou_uuid :: "string \<Rightarrow> uuid option"
  ou_render :: "url \<Rightarrow> string \<Rightarrow> string \<Rightarrow> string"
  ou_exts :: "string \<Rightarrow> string list"
  ou_ping :: bool

definition wire :: "outside \<Rightarrow> config \<Rightarrow> error + server" where
  "wire Q c =
     (case oauth_of (ou_idp Q) c of
        Inl e \<Rightarrow> Inl e
      | Inr o' \<Rightarrow>
          let posts = posts_new \<lparr>media_origin = cf_media_origin c\<rparr>
          in Inr \<lparr>sv_posts = posts, sv_media = media_new (cf_media c),
            sv_imports = \<lparr>ic_slug = [], ic_posts = posts\<rparr>, sv_hasher = ou_hasher Q, sv_oauth = o',
            sv_idp = ou_idp Q, sv_pub = api_new 0 (mc_cdn (cf_media c)), sv_codec = text_codec (ou_zone Q) (ou_alike Q) (ou_uuid Q),
            sv_cookie = cf_cookie c, sv_origins = cf_origins c, sv_alike = ou_alike Q, sv_uuid = ou_uuid Q,
            sv_render = ou_render Q, sv_exts = ou_exts Q, sv_put = noop_put, sv_ping = ou_ping Q\<rparr>)"

section \<open>Bootstrap data\<close>

definition seed_user :: "tx \<Rightarrow> uuid \<Rightarrow> string \<Rightarrow> string \<Rightarrow> bool \<Rightarrow> unit txn" where
  "seed_user q uid email hash super = write_stmt q (\<lambda>d.
     let same = (\<lambda>u. tx_lower q (us_email u) = tx_lower q email) in
     if \<exists>u \<in> set (users d). same u then
       Inr ((), d\<lparr>users := upd_rows same
         (\<lambda>u. u\<lparr>us_password := Some hash, us_super := super, us_display := display_name email\<rparr>) (users d)\<rparr>)
     else if \<exists>u \<in> set (users d). us_id u = uid then Inl unique_violation
     else Inr ((), d\<lparr>users := users d @
       [\<lparr>us_id = uid, us_email = email, us_password = Some hash, us_display = display_name email,
         us_super = super, us_created = tx_now q\<rparr>]\<rparr>))"

definition seed_tenant :: "tx \<Rightarrow> uuid \<Rightarrow> string \<Rightarrow> string \<Rightarrow> unit txn" where
  "seed_tenant q tid slug name = write_stmt q (\<lambda>d.
     if \<not> valid_slug slug then Inl check_violation
     else if \<exists>t \<in> set (tenants d). t_slug t = slug then Inr ((), d)
     else if \<exists>t \<in> set (tenants d). t_id t = tid then Inl unique_violation
     else Inr ((), d\<lparr>tenants := tenants d @
       [\<lparr>t_id = tid, t_slug = slug, t_name = name, t_settings = JObj [], t_version = 0,
         t_created = tx_now q, t_updated = tx_now q\<rparr>]\<rparr>))"

text \<open>One row of the insert: a new membership, or the role of the one that is there.\<close>

definition put_membership :: "string \<Rightarrow> uuid \<times> uuid \<Rightarrow> membership list \<Rightarrow> membership list" where
  "put_membership role = (\<lambda>(t, u) ms.
     if \<exists>m \<in> set ms. of_member t u m then upd_rows (of_member t u) (\<lambda>m. m\<lparr>m_role := role\<rparr>) ms
     else ms @ [\<lparr>m_tenant = t, m_user = u, m_role = role\<rparr>])"

definition seed_membership :: "tx \<Rightarrow> string \<Rightarrow> string \<Rightarrow> string \<Rightarrow> unit txn" where
  "seed_membership q slug email role = write_stmt q (\<lambda>d.
     let rows = [(t_id t, us_id u). t \<leftarrow> tenants d, t_slug t = slug,
                  u \<leftarrow> users d, tx_lower q (us_email u) = tx_lower q email]
     in if rows \<noteq> [] \<and> \<not> known_role role then Inl check_violation
        else Inr ((), d\<lparr>memberships := foldl (\<lambda>ms r. put_membership role r ms) (memberships d) rows\<rparr>))"

definition seed_act :: "env \<Rightarrow> uuid \<Rightarrow> uuid \<Rightarrow> string \<Rightarrow> string \<Rightarrow> bool \<Rightarrow> string \<Rightarrow> string \<Rightarrow> string \<Rightarrow> unit act" where
  "seed_act E uid tid email hash super slug name role = scoped_rw E unscoped (\<lambda>q.
     and_then (seed_user q uid email hash super) (\<lambda>_.
       and_then (seed_tenant q tid slug name) (\<lambda>_.
         seed_membership q slug email role)))"

text \<open>\<open>run\<close> of cmd/seed; \<open>salt\<close>, \<open>uid\<close> and \<open>tid\<close> are its random values.\<close>

definition seed_run :: "env \<Rightarrow> hasher \<Rightarrow> bytes \<Rightarrow> uuid \<Rightarrow> uuid \<Rightarrow> environ \<Rightarrow> unit act" where
  "seed_run E A salt uid tid V =
     (let email = lower_of E (trim_space (getenv V ''SEED_EMAIL'')); pw = getenv V ''SEED_PASSWORD'' in
      if getenv V ''DATABASE_URL'' = [] then fail (ErrText ''DATABASE_URL not set'')
      else if email = [] \<or> pw = [] then fail (ErrText ''SEED_EMAIL and SEED_PASSWORD are required'')
      else seed_act E uid tid email (hash_password A salt pw) (getenv V ''SEED_SUPER_ADMIN'' \<noteq> ''false'')
        (str_env V ''SEED_TENANT_SLUG'' ''demo'') (str_env V ''SEED_TENANT_NAME'' ''Demo Blog'')
        (str_env V ''SEED_ROLE'' ''owner''))"

section \<open>What a loaded configuration gives\<close>

lemma length_decode_hex: "decode_hex s = Some b \<Longrightarrow> length s = 2 * length b"
  by (induction s arbitrary: b rule: decode_hex.induct) (auto split: option.splits)

lemma allow_list_absolute:
  "allow_list E ss = Inr us \<Longrightarrow> u \<in> set us \<Longrightarrow> u_host u \<noteq> [] \<and> (u_scheme u = ''http'' \<or> u_scheme u = ''https'')"
proof (induction ss arbitrary: us)
  case (Cons s ss)
  then show ?case by (cases "allow_list E ss") (auto split: if_splits option.splits)
qed simp

text \<open>The key has the 32 bytes that OAuth asks for, so that a loaded configuration always wires up.\<close>

lemma load_config_wires:
  assumes "load_config E parse V = Inr c"
  shows "length (cf_key c) = 32 \<and> (\<exists>S. wire Q c = Inr S) \<and>
    (\<forall>u \<in> set (cf_allow c). u_host u \<noteq> [] \<and> (u_scheme u = ''http'' \<or> u_scheme u = ''https''))"
proof -
  obtain key allow where c: "length key = 32" "cf_key c = key" "cf_allow c = allow"
    "allow_list E (split_csv (getenv V ''OAUTH_REDIRECT_ALLOW'')) = Inr allow"
    using assms
    by (auto simp: load_config_def field_then_def decode_hex_key_def Let_def dest!: length_decode_hex
        split: if_splits sum.splits option.splits)
  then have "\<exists>S. wire Q c = Inr S"
    by (auto simp: wire_def oauth_of_def oauth_new_def Let_def split: sum.split)
  with c allow_list_absolute [OF c(4)] show ?thesis by simp
qed

text \<open>
  The scope that reading Google documents needs is never asked for: the handler adds no scope, and the
  module graph sets none.
\<close>

lemma drive_scope_not_requested:
  assumes "wire Q c = Inr S" "sv_oauth S = Some P"
    and "oauth_start E X alike P st verifier fid ''google'' redirect tok [] d = (Inr url, d')"
  shows "url = x_auth_url X ((pv_conf (oa_google P))\<lparr>oc_scopes := [''openid'', ''email'', ''profile'']\<rparr>) st
      [(''code_challenge'', code_challenge E verifier), (''code_challenge_method'', ''S256'')]"
proof -
  have "oc_scopes (pv_conf (oa_google P)) = [''openid'', ''email'', ''profile'']"
    using assms(1,2)
    by (auto simp: wire_def oauth_of_def oauth_new_def oauth_conf_of_def provider_cfg_def Let_def split: if_splits)
  with assms(3) show ?thesis
    by (auto simp: oauth_start_def provider_of_def merge_scopes_def Let_def split: if_splits elim!: and_then_InrE)
qed

text \<open>A document that is uploaded is not there to convert: whatever was put, the job gets no bytes.\<close>

lemma uploads_discarded:
  assumes "format \<noteq> ''gdoc''" "dispatch T format = Some conv"
  shows "convert_source T txt noop_get exporter im format key doc d = (Inr (conv []), d)"
  using assms by (simp add: convert_source_def noop_get_def)

text \<open>The bootstrap user is there afterwards, with the password given.\<close>

lemma seed_user_present:
  assumes "runs (seed_user q uid email hash super) d () d'"
  shows "\<exists>u \<in> set (users d'). tx_lower q (us_email u) = tx_lower q email \<and> us_password u = Some hash \<and> us_super u = super"
proof (cases "\<exists>u \<in> set (users d). tx_lower q (us_email u) = tx_lower q email")
  case True
  let ?P = "\<lambda>u. tx_lower q (us_email u) = tx_lower q email"
    and ?f = "\<lambda>u. u\<lparr>us_password := Some hash, us_super := super, us_display := display_name email\<rparr>"
  from True obtain u where u: "u \<in> set (users d)" "?P u" by blast
  have "users d' = upd_rows ?P ?f (users d)"
    using assms True by (auto simp: seed_user_def txn_run Let_def)
  then have "?f u \<in> set (users d')" using in_upd_rows_changed [of u "users d" ?P ?f] u by simp
  then show ?thesis using u(2) by (intro bexI [of _ "?f u"]) simp_all
qed (use assms in \<open>auto simp: seed_user_def txn_run Let_def split: if_splits\<close>)

end
