(* ===== verification/Workers.thy ===== *)
theory Workers
  imports Jobs
begin

text \<open>
  internal/jobs/worker.go: the goroutines of a \<open>Worker\<close>. \<open>Run\<close> starts n workers and the sweeper and waits
  on a WaitGroup; a worker claims jobs and starts a goroutine per job; \<open>Close\<close> cancels the context. Each
  goroutine is a program counter, and \<open>gstep\<close> is one step of one of them. The queue of the theory Jobs is what the
  pool implements, and a cancelled pool drains.
\<close>

section \<open>Handlers and the context\<close>

type_synonym 'h registry = "string \<rightharpoonup> 'h"

definition register :: "string \<Rightarrow> 'h \<Rightarrow> 'h registry \<Rightarrow> 'h registry" where
  "register kind fn hs = hs(kind \<mapsto> fn)"

definition registered :: "'h registry \<Rightarrow> string \<Rightarrow> bool" where
  "registered hs kind = (hs kind \<noteq> None)"

text \<open>
  The context that \<open>once\<close> creates, at the first of Run and Close: \<open>None\<close> before it, then whether it is cancelled.
  Run adopts one that Close has made, so a pool closed before it runs starts cancelled.
\<close>

definition run_context :: "bool \<Rightarrow> bool option \<Rightarrow> bool option" where
  "run_context parent ctx = (case ctx of None \<Rightarrow> Some parent | Some c \<Rightarrow> Some c)"

definition close_context :: "bool option \<Rightarrow> bool option" where
  "close_context ctx = Some True"

section \<open>The pool\<close>

text \<open>
  A worker is at the top of its loop, in a claim, in the pause after a claim that gave no job, or gone. The sweeper
  waits for its ticker or is before one of its three statements. A run of a job goes through decoding,
  the handler, and the statements that record its outcome; \<open>fail\<close> reads the attempts in one statement and
  writes in another.
\<close>

datatype worker_pc = AtTop | Claiming | Polling | Exited

datatype sweeper_pc = Waiting | SweepJobs | SweepSessions | SweepFlows | Stopped

datatype run_pc =
    Starting
  | Handling
  | Failing string
  | Marking string
  | Requeueing string int
  | Completing

type_synonym run = "job \<times> time \<times> run_pc"

record pool =
  pl_db :: db
  pl_now :: time
  pl_cancelled :: bool
  pl_workers :: "worker_pc list"
  pl_sweeper :: sweeper_pc
  pl_tick :: bool   \<comment> \<open>the ticker's channel holds one tick\<close>
  pl_runs :: "run list"
  pl_wg :: int

definition run_start :: "nat \<Rightarrow> bool \<Rightarrow> time \<Rightarrow> db \<Rightarrow> pool" where
  "run_start n cancelled now d =
     \<lparr>pl_db = d, pl_now = now, pl_cancelled = cancelled, pl_workers = replicate n AtTop,
      pl_sweeper = Waiting, pl_tick = False, pl_runs = [], pl_wg = int n + 1\<rparr>"

text \<open>\<open>Run\<close> returns when the WaitGroup is down to zero.\<close>

definition run_returns :: "pool \<Rightarrow> bool" where
  "run_returns p = (pl_wg p = 0)"

section \<open>Steps\<close>

definition set_worker :: "nat \<Rightarrow> worker_pc \<Rightarrow> pool \<Rightarrow> pool" where
  "set_worker i pc p = p\<lparr>pl_workers := (pl_workers p)[i := pc]\<rparr>"

definition exit_worker :: "nat \<Rightarrow> pool \<Rightarrow> pool" where
  "exit_worker i p = (set_worker i Exited p)\<lparr>pl_wg := pl_wg p - 1\<rparr>"

text \<open>A claim that failed: the worker returns when the context is done, and pauses otherwise.\<close>

definition claim_failed :: "nat \<Rightarrow> pool \<Rightarrow> pool" where
  "claim_failed i p = (if pl_cancelled p then exit_worker i p else set_worker i Polling p)"

definition spawn_run :: "job \<Rightarrow> pool \<Rightarrow> pool" where
  "spawn_run j p = p\<lparr>pl_runs := (j, pl_now p, Starting) # pl_runs p, pl_wg := pl_wg p + 1\<rparr>"

definition set_phase :: "run \<Rightarrow> run_pc \<Rightarrow> pool \<Rightarrow> pool" where
  "set_phase r pc p = p\<lparr>pl_runs := map (\<lambda>x. if x = r then (fst r, fst (snd r), pc) else x) (pl_runs p)\<rparr>"

definition end_run :: "run \<Rightarrow> pool \<Rightarrow> pool" where
  "end_run r p = p\<lparr>pl_runs := remove1 r (pl_runs p), pl_wg := pl_wg p - 1\<rparr>"

definition no_handler :: "job \<Rightarrow> string" where
  "no_handler j = ''jobs: no handler registered for kind '' @ j_kind j"

definition first_phase :: "(string \<Rightarrow> bool) \<Rightarrow> job \<Rightarrow> run_pc" where
  "first_phase known j =
     (case j_payload j of
        BadPayload msg \<Rightarrow> Failing msg
      | JobPayload t dat \<Rightarrow> if known (j_kind j) then Handling else Marking (no_handler j))"

definition after_read :: "string \<Rightarrow> int \<Rightarrow> run_pc" where
  "after_read msg attempts = (if attempts \<ge> max_attempts then Marking msg else Requeueing msg attempts)"

definition requeue_row :: "time \<Rightarrow> uuid \<Rightarrow> int \<Rightarrow> db \<Rightarrow> db" where
  "requeue_row now jid attempts d = d\<lparr>jobs := upd_rows (\<lambda>x. j_id x = jid)
     (requeued now (now + compute_backoff attempts)) (jobs d)\<rparr>"

text \<open>
  One step of one goroutine. A select with two ready cases takes either, so a cancelled pool may still take a
  tick or the end of a pause. A claim may fail in any state, also after its commit took effect, and every
  statement of the sweeper or of a run may fail, which is logged.
\<close>

inductive gstep :: "(string \<Rightarrow> bool) \<Rightarrow> pool \<Rightarrow> pool \<Rightarrow> bool" for known where
  w_exit: "i < length (pl_workers p) \<Longrightarrow> pl_workers p ! i \<in> {AtTop, Polling} \<Longrightarrow> pl_cancelled p \<Longrightarrow>
     gstep known p (exit_worker i p)"
| w_claim: "i < length (pl_workers p) \<Longrightarrow> pl_workers p ! i = AtTop \<Longrightarrow> \<not> pl_cancelled p \<Longrightarrow>
     gstep known p (set_worker i Claiming p)"
| w_job: "i < length (pl_workers p) \<Longrightarrow> pl_workers p ! i = Claiming \<Longrightarrow>
     claim (pl_now p) (pl_db p) = (Inr j, d') \<Longrightarrow>
     gstep known p (spawn_run j (set_worker i AtTop (p\<lparr>pl_db := d'\<rparr>)))"
| w_none: "i < length (pl_workers p) \<Longrightarrow> pl_workers p ! i = Claiming \<Longrightarrow>
     claim (pl_now p) (pl_db p) = (Inl ErrNoJob, d') \<Longrightarrow>
     gstep known p (set_worker i Polling p)"
| w_error: "i < length (pl_workers p) \<Longrightarrow> pl_workers p ! i = Claiming \<Longrightarrow>
     gstep known p (claim_failed i p)"
| w_lost: "i < length (pl_workers p) \<Longrightarrow> pl_workers p ! i = Claiming \<Longrightarrow>
     claim (pl_now p) (pl_db p) = (Inr j, d') \<Longrightarrow>
     gstep known p (claim_failed i (p\<lparr>pl_db := d'\<rparr>))"
| w_pause: "i < length (pl_workers p) \<Longrightarrow> pl_workers p ! i = Polling \<Longrightarrow>
     gstep known p (set_worker i AtTop p)"
| s_exit: "pl_sweeper p = Waiting \<Longrightarrow> pl_cancelled p \<Longrightarrow>
     gstep known p (p\<lparr>pl_sweeper := Stopped, pl_wg := pl_wg p - 1\<rparr>)"
| s_tick: "pl_sweeper p = Waiting \<Longrightarrow> pl_tick p \<Longrightarrow>
     gstep known p (p\<lparr>pl_sweeper := SweepJobs, pl_tick := False\<rparr>)"
| s_jobs: "pl_sweeper p = SweepJobs \<Longrightarrow> d' \<in> {pl_db p, requeue_expired (pl_now p) (pl_db p)} \<Longrightarrow>
     gstep known p (p\<lparr>pl_db := d', pl_sweeper := SweepSessions\<rparr>)"
| s_sessions: "pl_sweeper p = SweepSessions \<Longrightarrow> d' \<in> {pl_db p, drop_sessions (pl_now p) (pl_db p)} \<Longrightarrow>
     gstep known p (p\<lparr>pl_db := d', pl_sweeper := SweepFlows\<rparr>)"
| s_flows: "pl_sweeper p = SweepFlows \<Longrightarrow> d' \<in> {pl_db p, drop_flows (pl_now p) (pl_db p)} \<Longrightarrow>
     gstep known p (p\<lparr>pl_db := d', pl_sweeper := Waiting\<rparr>)"
| r_decode: "(j, c, Starting) \<in> set (pl_runs p) \<Longrightarrow>
     gstep known p (set_phase (j, c, Starting) (first_phase known j) p)"
| r_handled: "(j, c, Handling) \<in> set (pl_runs p) \<Longrightarrow>
     gstep known p (set_phase (j, c, Handling) (case outcome of None \<Rightarrow> Completing | Some msg \<Rightarrow> Failing msg) p)"
| r_read: "(j, c, Failing msg) \<in> set (pl_runs p) \<Longrightarrow>
     find (\<lambda>x. j_id x = j_id j) (jobs (pl_db p)) = Some x \<Longrightarrow>
     gstep known p (set_phase (j, c, Failing msg) (after_read msg (j_attempts x)) p)"
| r_mark: "(j, c, Marking msg) \<in> set (pl_runs p) \<Longrightarrow>
     gstep known p (end_run (j, c, Marking msg) (p\<lparr>pl_db := mark_failed (pl_now p) (j_id j) msg (pl_db p)\<rparr>))"
| r_requeue: "(j, c, Requeueing msg a) \<in> set (pl_runs p) \<Longrightarrow>
     gstep known p (end_run (j, c, Requeueing msg a) (p\<lparr>pl_db := requeue_row (pl_now p) (j_id j) a (pl_db p)\<rparr>))"
| r_done: "(j, c, Completing) \<in> set (pl_runs p) \<Longrightarrow>
     gstep known p (end_run (j, c, Completing) (p\<lparr>pl_db := job_done (pl_now p) (j_id j) (pl_db p)\<rparr>))"
| r_lost: "(j, c, pc) \<in> set (pl_runs p) \<Longrightarrow> pc \<notin> {Starting, Handling} \<Longrightarrow>
     gstep known p (end_run (j, c, pc) p)"

text \<open>
  What happens around the goroutines: time passes, within the limit of every run; the program enqueues
  jobs and commits other transactions, a handler's own included; Close or the parent context cancels.
\<close>

inductive estep :: "pool \<Rightarrow> pool \<Rightarrow> bool" where
  e_time: "pl_now p \<le> t \<Longrightarrow> (\<And>j c pc. (j, c, pc) \<in> set (pl_runs p) \<Longrightarrow> t \<le> c + run_limit) \<Longrightarrow>
     estep p (p\<lparr>pl_now := t\<rparr>)"
| e_enqueue: "tx_now q = pl_now p \<Longrightarrow> runs (enqueue q jid kind key payload) (pl_db p) i d' \<Longrightarrow>
     estep p (p\<lparr>pl_db := d'\<rparr>)"
| e_commit: "jobs d' = jobs (pl_db p) \<Longrightarrow> estep p (p\<lparr>pl_db := d'\<rparr>)"
| e_cancel: "estep p (p\<lparr>pl_cancelled := True\<rparr>)"

definition tick_fires :: "pool \<Rightarrow> pool" where
  "tick_fires p = p\<lparr>pl_tick := True\<rparr>"

inductive pstep :: "(string \<Rightarrow> bool) \<Rightarrow> pool \<Rightarrow> pool \<Rightarrow> bool" for known where
  p_go: "gstep known p q \<Longrightarrow> pstep known p q"
| p_env: "estep p q \<Longrightarrow> pstep known p q"
| p_tick: "pstep known p (tick_fires p)"

definition pool_start :: "nat \<Rightarrow> pool \<Rightarrow> bool" where
  "pool_start n p \<longleftrightarrow>
     (\<exists>cancelled now d. p = run_start n cancelled now d \<and> distinct (map j_id (jobs d)))"

inductive_cases gstepE: "gstep known p q"
inductive_cases estepE: "estep p q"
inductive_cases pstepE: "pstep known p q"

lemmas pool_updates = set_worker_def exit_worker_def claim_failed_def spawn_run_def set_phase_def end_run_def
  tick_fires_def

section \<open>The pool implements the queue\<close>

definition queue_of :: "pool \<Rightarrow> wstate" where
  "queue_of p = \<lparr>w_db = pl_db p, w_now = pl_now p, w_runs = map (\<lambda>r. (fst r, fst (snd r))) (pl_runs p)\<rparr>"

text \<open>
  What a run has established at each phase. \<open>gave_up known j msg\<close>: the run fails with \<open>msg\<close>, because the
  payload does not decode or because the handler of a registered kind says so.
\<close>

definition gave_up :: "(string \<Rightarrow> bool) \<Rightarrow> job \<Rightarrow> string \<Rightarrow> bool" where
  "gave_up known j msg =
     (case j_payload j of BadPayload m \<Rightarrow> m = msg | JobPayload t dat \<Rightarrow> known (j_kind j))"

definition handled :: "(string \<Rightarrow> bool) \<Rightarrow> job \<Rightarrow> bool" where
  "handled known j = (case j_payload j of BadPayload m \<Rightarrow> False | JobPayload t dat \<Rightarrow> known (j_kind j))"

definition unknown_kind :: "(string \<Rightarrow> bool) \<Rightarrow> job \<Rightarrow> bool" where
  "unknown_kind known j = (case j_payload j of BadPayload m \<Rightarrow> False | JobPayload t dat \<Rightarrow> \<not> known (j_kind j))"

definition row_attempts :: "db \<Rightarrow> uuid \<Rightarrow> int \<Rightarrow> bool" where
  "row_attempts d i a = (\<exists>x \<in> set (jobs d). j_id x = i \<and> j_attempts x = a)"

fun phase_ok :: "(string \<Rightarrow> bool) \<Rightarrow> db \<Rightarrow> run \<Rightarrow> bool" where
  "phase_ok known d (j, c, Starting) = True"
| "phase_ok known d (j, c, Handling) = handled known j"
| "phase_ok known d (j, c, Completing) = handled known j"
| "phase_ok known d (j, c, Failing msg) = gave_up known j msg"
| "phase_ok known d (j, c, Marking msg) = (unknown_kind known j \<and> msg = no_handler j \<or>
     gave_up known j msg \<and> (\<exists>a. row_attempts d (j_id j) a \<and> a \<ge> max_attempts))"
| "phase_ok known d (j, c, Requeueing msg a) =
     (gave_up known j msg \<and> row_attempts d (j_id j) a \<and> a < max_attempts)"

definition live_goroutines :: "pool \<Rightarrow> nat" where
  "live_goroutines p = length (filter (\<lambda>w. w \<noteq> Exited) (pl_workers p)) +
     (if pl_sweeper p = Stopped then 0 else 1) + length (pl_runs p)"

definition pool_ok :: "(string \<Rightarrow> bool) \<Rightarrow> pool \<Rightarrow> bool" where
  "pool_ok known p \<longleftrightarrow> one_lease (queue_of p) \<and> (\<forall>r \<in> set (pl_runs p). phase_ok known (pl_db p) r) \<and>
     pl_wg p = int (live_goroutines p)"

text \<open>A phase stays established while the row of the job is kept.\<close>

lemma phase_ok_kept:
  assumes "phase_ok known d r" "\<And>x. x \<in> set (jobs d) \<Longrightarrow> j_id x = j_id (fst r) \<Longrightarrow> x \<in> set (jobs d')"
  shows "phase_ok known d' r"
proof -
  have "row_attempts d (j_id (fst r)) a \<Longrightarrow> row_attempts d' (j_id (fst r)) a" for a
    using assms(2) by (auto simp: row_attempts_def)
  with assms(1) show ?thesis by (cases "(known, d, r)" rule: phase_ok.cases) auto
qed

lemma find_row:
  "distinct (map j_id (jobs d)) \<Longrightarrow> row_attempts d i a \<Longrightarrow>
    \<exists>x. find (\<lambda>y. j_id y = i) (jobs d) = Some x \<and> j_attempts x = a"
  using find_key [of j_id "jobs d" _ "\<lambda>_. True"] by (force simp: row_attempts_def)

lemma fail_job_row:
  assumes "distinct (map j_id (jobs d))" "row_attempts d i a"
  shows "fail_job now i msg d = (if a \<ge> max_attempts then mark_failed now i msg d else requeue_row now i a d)"
  using find_row [OF assms] by (auto simp: fail_job_def requeue_row_def)

text \<open>
  The final statement of a run records what \<open>run_job\<close> records: between the statement that read the
  attempts and the one that writes, no one else changed the row.
\<close>

lemma final_statement:
  assumes "distinct (map j_id (jobs d))" "phase_ok known d (j, c, pc)"
  shows "pc = Marking msg \<Longrightarrow> \<exists>out. mark_failed now (j_id j) msg d = run_job now known j out d"
    and "pc = Requeueing msg a \<Longrightarrow> \<exists>out. requeue_row now (j_id j) a d = run_job now known j out d"
    and "pc = Completing \<Longrightarrow> \<exists>out. job_done now (j_id j) d = run_job now known j out d"
proof -
  have fails: "\<exists>out. run_job now known j out d = fail_job now (j_id j) m d" if "gave_up known j m" for m
    using that by (intro exI [of _ "Some m"]) (auto simp: gave_up_def run_job_def split: job_payload.splits)
  have unknown: "run_job now known j None d = mark_failed now (j_id j) (no_handler j) d" if "unknown_kind known j"
    using that by (auto simp: unknown_kind_def run_job_def no_handler_def split: job_payload.splits)
  show "\<exists>out. mark_failed now (j_id j) msg d = run_job now known j out d" if "pc = Marking msg"
  proof (cases "unknown_kind known j \<and> msg = no_handler j")
    case False
    with assms(2) that obtain a where "gave_up known j msg" "row_attempts d (j_id j) a" "a \<ge> max_attempts"
      by auto
    then show ?thesis using fails [of msg] fail_job_row [OF assms(1), of "j_id j" a now msg] by metis
  qed (use unknown in metis)
  show "\<exists>out. requeue_row now (j_id j) a d = run_job now known j out d" if "pc = Requeueing msg a"
  proof -
    have "gave_up known j msg" "row_attempts d (j_id j) a" "a < max_attempts" using assms(2) that by auto
    then show ?thesis using fails [of msg] fail_job_row [OF assms(1), of "j_id j" a now msg] by (metis not_le)
  qed
  show "\<exists>out. job_done now (j_id j) d = run_job now known j out d" if "pc = Completing"
    using assms(2) that
    by (intro exI [of _ None]) (auto simp: handled_def run_job_def split: job_payload.splits)
qed


text \<open>Ends and phase changes on the side of the queue.\<close>

lemma queue_of_sel [simp]:
  "w_db (queue_of p) = pl_db p" "w_now (queue_of p) = pl_now p"
  "w_runs (queue_of p) = map (\<lambda>r. (fst r, fst (snd r))) (pl_runs p)"
  by (simp_all add: queue_of_def)

lemma queue_of_same [simp]:
  "queue_of (set_worker i pc p) = queue_of p" "queue_of (exit_worker i p) = queue_of p"
  "queue_of (claim_failed i p) = queue_of p" "queue_of (set_phase r ph p) = queue_of p"
  "queue_of (tick_fires p) = queue_of p" "queue_of (p\<lparr>pl_sweeper := sw, pl_wg := k\<rparr>) = queue_of p"
  "queue_of (p\<lparr>pl_sweeper := sw, pl_tick := b\<rparr>) = queue_of p"
  by (auto simp: queue_of_def pool_updates)

lemma queue_of_spawn: "queue_of (spawn_run j p) = (queue_of p)\<lparr>w_runs := (j, pl_now p) # w_runs (queue_of p)\<rparr>"
  by (simp add: queue_of_def spawn_run_def)

lemma map_remove1_key:
  "distinct (map g xs) \<Longrightarrow> x \<in> set xs \<Longrightarrow> map g (remove1 x xs) = remove1 (g x) (map g xs)"
  by (induction xs) (auto, metis imageI)

lemma run_keys_distinct:
  assumes "one_lease (queue_of p)"
  shows "distinct (map (\<lambda>r. (fst r, fst (snd r))) (pl_runs p))" "distinct (pl_runs p)"
    "distinct (map (\<lambda>r. j_id (fst r)) (pl_runs p))" "distinct (map j_id (jobs (pl_db p)))"
proof -
  have ids: "distinct (map (\<lambda>r. j_id (fst r)) (pl_runs p))" and "distinct (map j_id (jobs (pl_db p)))"
    using assms by (simp_all add: one_lease_def comp_def)
  then show "distinct (map (\<lambda>r. j_id (fst r)) (pl_runs p))" "distinct (map j_id (jobs (pl_db p)))" by simp_all
  from ids show "distinct (pl_runs p)" by (simp add: distinct_map)
  from ids show "distinct (map (\<lambda>r. (fst r, fst (snd r))) (pl_runs p))"
    by (auto simp: distinct_map inj_on_def)
qed

lemma queue_of_end:
  assumes "one_lease (queue_of p)" "(j, c, pc) \<in> set (pl_runs p)"
  shows "queue_of (end_run (j, c, pc) (p\<lparr>pl_db := d\<rparr>)) =
    (queue_of p)\<lparr>w_db := d, w_runs := remove1 (j, c) (w_runs (queue_of p))\<rparr>"
  using map_remove1_key [OF run_keys_distinct(1) [OF assms(1)] assms(2)] by (simp add: queue_of_def end_run_def)

text \<open>The last statement of a run is a step of the queue that records an outcome.\<close>

lemma run_recorded:
  assumes "pool_ok known p" "(j, c, pc) \<in> set (pl_runs p)" "\<exists>out. d = run_job (pl_now p) known j out (pl_db p)"
  shows "wstep known (queue_of p) (queue_of (end_run (j, c, pc) (p\<lparr>pl_db := d\<rparr>)))"
proof -
  from assms(3) obtain out where d: "d = run_job (w_now (queue_of p)) known j out (w_db (queue_of p))" by auto
  have "(j, c) \<in> set (w_runs (queue_of p))" using assms(2) by force
  from ws_finish [OF this, of known out] show ?thesis
    using assms(1,2) by (simp add: pool_ok_def queue_of_end d)
qed

lemma run_dropped:
  assumes "pool_ok known p" "(j, c, pc) \<in> set (pl_runs p)"
  shows "wstep known (queue_of p) (queue_of (end_run (j, c, pc) p))"
proof -
  have "(j, c) \<in> set (w_runs (queue_of p))" using assms(2) by force
  from ws_crash [OF this, of known] show ?thesis
    using assms queue_of_end [of p j c pc "pl_db p"] by (simp add: pool_ok_def) (simp add: queue_of_def)
qed

lemma queue_claim:
  assumes "claim (pl_now p) (pl_db p) = (Inr j, d')"
  shows "wstep known (queue_of p) ((queue_of p)\<lparr>w_db := d', w_runs := (j, pl_now p) # w_runs (queue_of p)\<rparr>)"
  using ws_claim [of "queue_of p" j d' known] assms by simp

lemma gstep_simulated:
  assumes ok: "pool_ok known p" and st: "gstep known p q"
  shows "(wstep known)\<^sup>*\<^sup>* (queue_of p) (queue_of q)"
  using st
proof cases
  case (w_job i j d')
  have "queue_of q = (queue_of p)\<lparr>w_db := d', w_runs := (j, pl_now p) # w_runs (queue_of p)\<rparr>"
    unfolding w_job by (simp add: queue_of_def spawn_run_def set_worker_def)
  then show ?thesis using queue_claim [OF w_job(4)] by auto
next
  case (w_lost i j d')
  let ?u = "(queue_of p)\<lparr>w_db := d', w_runs := (j, pl_now p) # w_runs (queue_of p)\<rparr>"
  have "wstep known ?u (?u\<lparr>w_runs := remove1 (j, pl_now p) (w_runs ?u)\<rparr>)" by (rule ws_crash) simp
  moreover have "?u\<lparr>w_runs := remove1 (j, pl_now p) (w_runs ?u)\<rparr> = queue_of q"
    unfolding w_lost by (simp add: queue_of_def pool_updates)
  ultimately show ?thesis using queue_claim [OF w_lost(4), of known]
    by (metis r_into_rtranclp rtranclp.rtrancl_into_rtrancl)
next
  case (s_jobs d')
  then show ?thesis using ws_sweep [of known "queue_of p"] by (auto simp: queue_of_def)
next
  case (s_sessions d')
  then show ?thesis using ws_other [of d' "queue_of p" known] by (auto simp: queue_of_def drop_sessions_def)
next
  case (s_flows d')
  then show ?thesis using ws_other [of d' "queue_of p" known] by (auto simp: queue_of_def drop_flows_def)
next
  case (r_mark j c msg)
  with ok have "phase_ok known (pl_db p) (j, c, Marking msg)" "distinct (map j_id (jobs (pl_db p)))"
    by (auto simp: pool_ok_def run_keys_distinct simp del: phase_ok.simps)
  then show ?thesis unfolding r_mark
    by (intro r_into_rtranclp run_recorded [OF ok r_mark(2)] final_statement(1)) simp_all
next
  case (r_requeue j c msg a)
  with ok have "phase_ok known (pl_db p) (j, c, Requeueing msg a)" "distinct (map j_id (jobs (pl_db p)))"
    by (auto simp: pool_ok_def run_keys_distinct simp del: phase_ok.simps)
  then show ?thesis unfolding r_requeue
    by (intro r_into_rtranclp run_recorded [OF ok r_requeue(2)] final_statement(2) [of _ known j c _ msg])
      (simp_all del: phase_ok.simps)
next
  case (r_done j c)
  with ok have "phase_ok known (pl_db p) (j, c, Completing)" "distinct (map j_id (jobs (pl_db p)))"
    by (auto simp: pool_ok_def run_keys_distinct simp del: phase_ok.simps)
  then show ?thesis unfolding r_done
    by (intro r_into_rtranclp run_recorded [OF ok r_done(2)] final_statement(3)) simp_all
next
  case (r_lost j c pc)
  then show ?thesis using run_dropped [OF ok r_lost(2)] by auto
qed simp_all

lemma estep_simulated:
  assumes "estep p q"
  shows "wstep known (queue_of p) (queue_of q) \<or> queue_of q = queue_of p"
  using assms
proof cases
  case (e_time t)
  then show ?thesis using ws_tick [of "queue_of p" t known] by (force simp: queue_of_def)
next
  case (e_enqueue b jid kind key payload i d')
  then show ?thesis using ws_enqueue [of b "queue_of p" jid kind key payload i d' known] by (simp add: queue_of_def)
next
  case (e_commit d')
  then show ?thesis using ws_other [of d' "queue_of p" known] by (simp add: queue_of_def)
qed (simp add: queue_of_def)

lemma pstep_simulated:
  assumes "pool_ok known p" "pstep known p q"
  shows "(wstep known)\<^sup>*\<^sup>* (queue_of p) (queue_of q)"
  using assms(2) by cases (auto simp: gstep_simulated [OF assms(1)] dest: estep_simulated [of _ _ known])


section \<open>The invariant\<close>

lemma start_pool_ok: "pool_start n p \<Longrightarrow> pool_ok known p"
  by (auto simp: pool_start_def run_start_def pool_ok_def one_lease_def live_goroutines_def queue_of_def)

lemma wsteps_one_lease: "(wstep known)\<^sup>*\<^sup>* u v \<Longrightarrow> one_lease u \<Longrightarrow> one_lease v"
  by (induction rule: rtranclp_induct) (auto intro: one_lease_step)

text \<open>A step that keeps or adds runs leaves the rows of the others in place, so their phases stay established.\<close>

lemma phases_over_step:
  assumes "pool_ok known p" "wstep known (queue_of p) w" "r \<in> set (pl_runs p)"
    "(fst r, fst (snd r)) \<in> set (w_runs w)"
  shows "phase_ok known (w_db w) r"
proof -
  have ok: "one_lease (queue_of p)" "phase_ok known (pl_db p) r" using assms(1,3) by (auto simp: pool_ok_def)
  have key: "(fst r, fst (snd r)) \<in> set (w_runs (queue_of p))" using assms(3) by auto
  show ?thesis
    using row_in_flight_kept [OF ok(1) assms(2) key assms(4)] phase_ok_kept [OF ok(2)] by simp
qed

lemma live_ends:
  "r \<in> set (pl_runs p) \<Longrightarrow> live_goroutines (end_run r p) + 1 = live_goroutines p"
  using length_pos_if_in_set [of r "pl_runs p"] by (simp add: live_goroutines_def end_run_def length_remove1)

lemma live_set_worker:
  "i < length (pl_workers p) \<Longrightarrow> pl_workers p ! i \<noteq> Exited \<Longrightarrow> pc \<noteq> Exited \<Longrightarrow>
    live_goroutines (set_worker i pc p) = live_goroutines p"
  using length_filter_update [of i "pl_workers p" "\<lambda>w. w \<noteq> Exited" pc] by (simp add: live_goroutines_def set_worker_def)

lemma live_exit_worker:
  "i < length (pl_workers p) \<Longrightarrow> pl_workers p ! i \<noteq> Exited \<Longrightarrow>
    live_goroutines (exit_worker i p) + 1 = live_goroutines p"
  using length_filter_update [of i "pl_workers p" "\<lambda>w. w \<noteq> Exited" Exited] by (simp add: live_goroutines_def exit_worker_def set_worker_def)

lemma live_others [simp]:
  "live_goroutines (set_phase r ph p) = live_goroutines p"
  "live_goroutines (spawn_run j p) = live_goroutines p + 1"
  "live_goroutines (p\<lparr>pl_db := d\<rparr>) = live_goroutines p"
  by (simp_all add: live_goroutines_def set_phase_def spawn_run_def)

lemma wg_sel [simp]:
  "pl_wg (set_worker i pc p) = pl_wg p" "pl_wg (exit_worker i p) = pl_wg p - 1"
  "pl_wg (set_phase r ph p) = pl_wg p" "pl_wg (spawn_run j p) = pl_wg p + 1" "pl_wg (end_run r p) = pl_wg p - 1"
  by (simp_all add: pool_updates)

lemma gstep_counts:
  assumes "gstep known p q" "pl_wg p = int (live_goroutines p)"
  shows "pl_wg q = int (live_goroutines q)"
proof -
  have ends: "int (live_goroutines p) - 1 = int (live_goroutines (end_run r (p\<lparr>pl_db := d\<rparr>)))" if "r \<in> set (pl_runs p)" for r d
    using live_ends [of r "p\<lparr>pl_db := d\<rparr>"] that assms(2) by simp
  have exits: "int (live_goroutines p) - 1 = int (live_goroutines (exit_worker i (p\<lparr>pl_db := d\<rparr>)))"
    if "i < length (pl_workers p)" "pl_workers p ! i \<noteq> Exited" for i d
    using live_exit_worker [of i "p\<lparr>pl_db := d\<rparr>"] that assms(2) by simp
  have sets: "live_goroutines (set_worker i pc (p\<lparr>pl_db := d\<rparr>)) = live_goroutines p"
    if "i < length (pl_workers p)" "pl_workers p ! i \<noteq> Exited" "pc \<noteq> Exited" for i pc d
    using live_set_worker [of i "p\<lparr>pl_db := d\<rparr>" pc] that by simp
  from assms(1) show ?thesis
  proof cases
    case (w_exit i)
    then show ?thesis using assms(2) exits [of i "pl_db p"] by auto
  next
    case (w_error i)
    then show ?thesis using assms(2) exits [of i "pl_db p"] sets [of i Polling "pl_db p"]
      by (auto simp: claim_failed_def)
  next
    case (w_lost i j d')
    then show ?thesis using assms(2) exits [of i d'] sets [of i Polling d'] by (simp add: claim_failed_def)
  next
    case s_exit
    then show ?thesis using assms(2) by (simp add: live_goroutines_def)
  next
    case s_tick
    then show ?thesis using assms(2) by (simp add: live_goroutines_def)
  next
    case (s_jobs d')
    then show ?thesis using assms(2) by (simp add: live_goroutines_def)
  next
    case (s_sessions d')
    then show ?thesis using assms(2) by (simp add: live_goroutines_def)
  next
    case (s_flows d')
    then show ?thesis using assms(2) by (simp add: live_goroutines_def)
  next
    case (r_lost j c pc)
    then show ?thesis using assms(2) ends [of "(j, c, pc)" "pl_db p"] by simp
  qed (use assms(2) in \<open>simp_all add: ends sets live_set_worker\<close>)
qed


lemma estep_counts:
  "estep p q \<Longrightarrow> pl_wg q - int (live_goroutines q) = pl_wg p - int (live_goroutines p)"
  by (auto simp: live_goroutines_def elim!: estepE)

text \<open>The runs after a step: those before it that the queue still has, unchanged, or one that moved on or is new.\<close>

lemma first_phase_ok: "phase_ok known d (j, c, first_phase known j)"
  by (auto simp: first_phase_def handled_def gave_up_def unknown_kind_def split: job_payload.split)

lemma handled_phase_ok:
  "handled known j \<Longrightarrow> phase_ok known d (j, c, case out of None \<Rightarrow> Completing | Some msg \<Rightarrow> Failing msg)"
  by (auto simp: handled_def gave_up_def split: job_payload.splits option.split)

lemma after_read_ok:
  "gave_up known j msg \<Longrightarrow> find (\<lambda>x. j_id x = j_id j) (jobs d) = Some x \<Longrightarrow>
    phase_ok known d (j, c, after_read msg (j_attempts x))"
  by (auto simp: after_read_def row_attempts_def not_le dest: find_SomeD)

lemma set_phase_ok:
  assumes "\<forall>r \<in> set (pl_runs p). phase_ok known (pl_db p) r" "phase_ok known (pl_db p) (j, c, ph)"
  shows "\<forall>r \<in> set (pl_runs (set_phase (j, c, old) ph p)). phase_ok known (pl_db (set_phase (j, c, old) ph p)) r"
  using assms by (auto simp: set_phase_def)

lemma end_run_ok:
  assumes ok: "pool_ok known p" and r: "(j, c, pc) \<in> set (pl_runs p)"
    and st: "wstep known (queue_of p) (queue_of (end_run (j, c, pc) (p\<lparr>pl_db := d\<rparr>)))"
  shows "\<forall>r \<in> set (remove1 (j, c, pc) (pl_runs p)). phase_ok known d r"
proof
  fix s assume s: "s \<in> set (remove1 (j, c, pc) (pl_runs p))"
  then have "s \<in> set (pl_runs p)" by (meson notin_set_remove1)
  moreover from s have "(fst s, fst (snd s)) \<in> set (w_runs (queue_of (end_run (j, c, pc) (p\<lparr>pl_db := d\<rparr>))))"
    by (simp add: end_run_def rev_image_eqI)
  ultimately have "phase_ok known (w_db (queue_of (end_run (j, c, pc) (p\<lparr>pl_db := d\<rparr>)))) s"
    by (rule phases_over_step [OF ok st])
  then show "phase_ok known d s" by (simp add: end_run_def)
qed

lemma other_write_ok:
  assumes ok: "pool_ok known p" and st: "wstep known (queue_of p) w"
    and "set (w_runs (queue_of p)) \<subseteq> set (w_runs w)"
  shows "\<forall>r \<in> set (pl_runs p). phase_ok known (w_db w) r"
  using phases_over_step [OF ok st] assms(3) by auto


lemma claim_phases:
  assumes "pool_ok known p" "claim (pl_now p) (pl_db p) = (Inr j, d')"
  shows "\<forall>r \<in> set (pl_runs p). phase_ok known d' r"
  using other_write_ok [OF assms(1) queue_claim [OF assms(2)]] by auto

lemma gstep_phases:
  assumes ok: "pool_ok known p" and st: "gstep known p q"
  shows "\<forall>r \<in> set (pl_runs q). phase_ok known (pl_db q) r"
proof -
  have now: "\<forall>r \<in> set (pl_runs p). phase_ok known (pl_db p) r" using ok by (simp add: pool_ok_def)
  from st show ?thesis
  proof cases
    case (w_job i j d')
    then show ?thesis using claim_phases [OF ok w_job(4)] by (auto simp: spawn_run_def set_worker_def)
  next
    case (w_lost i j d')
    then show ?thesis using claim_phases [OF ok w_lost(4)] by (auto simp: pool_updates)
  next
    case (s_jobs d')
    then show ?thesis using now other_write_ok [OF ok ws_sweep] by (auto simp: queue_of_def)
  next
    case (s_sessions d')
    then show ?thesis using now by (auto simp: drop_sessions_def intro: phase_ok_kept)
  next
    case (s_flows d')
    then show ?thesis using now by (auto simp: drop_flows_def intro: phase_ok_kept)
  next
    case (r_decode j c)
    then show ?thesis using set_phase_ok [OF now first_phase_ok] by simp
  next
    case (r_handled j c out)
    have "handled known j" using now r_handled(2) by force
    then show ?thesis unfolding r_handled(1) by (intro set_phase_ok [OF now] handled_phase_ok)
  next
    case (r_read j c msg x)
    have "gave_up known j msg" using now r_read(2) by force
    then show ?thesis unfolding r_read(1) by (intro set_phase_ok [OF now] after_read_ok r_read(3))
  next
    case (r_mark j c msg)
    then have "phase_ok known (pl_db p) (j, c, Marking msg)" "distinct (map j_id (jobs (pl_db p)))"
      using ok now by (auto simp: pool_ok_def run_keys_distinct simp del: phase_ok.simps)
    from end_run_ok [OF ok r_mark(2) run_recorded [OF ok r_mark(2) final_statement(1) [OF this(2,1) refl]]]
    show ?thesis unfolding r_mark(1) by (simp add: end_run_def)
  next
    case (r_requeue j c msg a)
    then have "phase_ok known (pl_db p) (j, c, Requeueing msg a)" "distinct (map j_id (jobs (pl_db p)))"
      using ok now by (auto simp: pool_ok_def run_keys_distinct simp del: phase_ok.simps)
    from end_run_ok [OF ok r_requeue(2) run_recorded [OF ok r_requeue(2) final_statement(2) [OF this(2,1) refl]]]
    show ?thesis unfolding r_requeue(1) by (simp add: end_run_def)
  next
    case (r_done j c)
    then have "phase_ok known (pl_db p) (j, c, Completing)" "distinct (map j_id (jobs (pl_db p)))"
      using ok now by (auto simp: pool_ok_def run_keys_distinct simp del: phase_ok.simps)
    from end_run_ok [OF ok r_done(2) run_recorded [OF ok r_done(2) final_statement(3) [OF this(2,1) refl]]]
    show ?thesis unfolding r_done(1) by (simp add: end_run_def)
  next
    case (r_lost j c pc)
    then show ?thesis using now by (auto simp: end_run_def dest: notin_set_remove1 simp del: phase_ok.simps)
  qed (use now in \<open>simp_all add: pool_updates del: phase_ok.simps\<close>)
qed

lemma estep_phases:
  assumes ok: "pool_ok known p" and st: "estep p q"
  shows "\<forall>r \<in> set (pl_runs q). phase_ok known (pl_db q) r"
proof -
  have now: "\<forall>r \<in> set (pl_runs p). phase_ok known (pl_db p) r" using ok by (simp add: pool_ok_def)
  from st show ?thesis
  proof cases
    case (e_enqueue b jid kind key payload i d')
    then show ?thesis using now enqueue_rows [OF e_enqueue(3)] by (auto intro: phase_ok_kept)
  next
    case (e_commit d')
    then show ?thesis using now by (auto intro: phase_ok_kept)
  qed (use now in simp_all)
qed

lemma pool_ok_step:
  assumes "pool_ok known p" "pstep known p q"
  shows "pool_ok known q"
proof -
  have "one_lease (queue_of q)"
    using pstep_simulated [OF assms] assms(1) by (auto simp: pool_ok_def intro: wsteps_one_lease)
  moreover have "\<forall>r \<in> set (pl_runs q). phase_ok known (pl_db q) r"
    using assms(2)
  proof cases
    case p_tick
    then show ?thesis using assms(1) by (simp add: pool_ok_def tick_fires_def)
  qed (use assms(1) gstep_phases estep_phases in blast)+
  moreover have "pl_wg q = int (live_goroutines q)"
    using assms(2)
  proof cases
    case p_go
    then show ?thesis using assms(1) gstep_counts by (auto simp: pool_ok_def)
  next
    case p_env
    then show ?thesis using assms(1) estep_counts [OF p_env] by (simp add: pool_ok_def)
  next
    case p_tick
    then show ?thesis using assms(1) by (simp add: pool_ok_def tick_fires_def live_goroutines_def)
  qed
  ultimately show ?thesis by (simp add: pool_ok_def)
qed

interpretation pools: invariant_system "pool_start n" "pstep known" "pool_ok known"
  for n known
  by unfold_locales (rule start_pool_ok, assumption, rule pool_ok_step)


section \<open>Shutdown\<close>

text \<open>
  The steps a cancelled pool can still take: a worker in a claim may get one more job, whose run decodes, is
  handled, reads the attempts and writes the outcome; a pause may end once; a tick may start one sweep.
\<close>

fun worker_work :: "worker_pc \<Rightarrow> nat" where
  "worker_work Exited = 0"
| "worker_work AtTop = 1"
| "worker_work Polling = 2"
| "worker_work Claiming = 6"

fun run_work :: "run_pc \<Rightarrow> nat" where
  "run_work Starting = 4"
| "run_work Handling = 3"
| "run_work (Failing msg) = 2"
| "run_work (Marking msg) = 1"
| "run_work (Requeueing msg a) = 1"
| "run_work Completing = 1"

fun sweeper_work :: "sweeper_pc \<Rightarrow> nat" where
  "sweeper_work Stopped = 0"
| "sweeper_work Waiting = 1"
| "sweeper_work SweepFlows = 2"
| "sweeper_work SweepSessions = 3"
| "sweeper_work SweepJobs = 4"

definition pool_work :: "pool \<Rightarrow> nat" where
  "pool_work p = sum_list (map worker_work (pl_workers p)) + sweeper_work (pl_sweeper p) +
     (if pl_tick p then 4 else 0) + sum_list (map (\<lambda>r. run_work (snd (snd r))) (pl_runs p))"

text \<open>
  \<open>drain known p n f q\<close>: the pool goes from \<open>p\<close> to \<open>q\<close> in n steps of its goroutines and f ticks of the
  clock, with anything around it in between.
\<close>

inductive drain :: "(string \<Rightarrow> bool) \<Rightarrow> pool \<Rightarrow> nat \<Rightarrow> nat \<Rightarrow> pool \<Rightarrow> bool" for known p where
  drain_none: "drain known p 0 0 p"
| drain_go: "drain known p n f q \<Longrightarrow> gstep known q r \<Longrightarrow> drain known p (Suc n) f r"
| drain_env: "drain known p n f q \<Longrightarrow> estep q r \<Longrightarrow> drain known p n f r"
| drain_tick: "drain known p n f q \<Longrightarrow> drain known p n (Suc f) (tick_fires q)"

lemma sum_upd: "i < length ws \<Longrightarrow> sum_list (map (g :: worker_pc \<Rightarrow> nat) (ws[i := pc])) + g (ws ! i) = sum_list (map g ws) + g pc"
proof (induction ws arbitrary: i)
  case (Cons w ws)
  then show ?case by (cases i) auto
qed simp

lemma sum_remove1: "x \<in> set xs \<Longrightarrow> sum_list (map (g :: 'a \<Rightarrow> nat) (remove1 x xs)) + g x = sum_list (map g xs)"
  by (induction xs) auto

lemma sum_phase:
  assumes "distinct xs" "r \<in> set xs" "g (h r) < (g r :: nat)"
  shows "sum_list (map g (map (\<lambda>x. if x = r then h r else x) xs)) < sum_list (map g xs)"
  using assms
proof (induction xs)
  case (Cons x xs)
  show ?case
  proof (cases "x = r")
    case True
    with Cons.prems have "map (\<lambda>x. if x = r then h r else x) xs = xs" by (intro map_idI) auto
    with True Cons.prems show ?thesis by (simp del: map_map)
  qed (use Cons in auto)
qed simp

lemma set_phase_work:
  assumes "one_lease (queue_of p)" "(j, c, old) \<in> set (pl_runs p)" "run_work ph < run_work old"
  shows "pool_work (set_phase (j, c, old) ph p) < pool_work p"
  using sum_phase [OF run_keys_distinct(2) [OF assms(1)] assms(2), of "\<lambda>r. run_work (snd (snd r))" "\<lambda>r. (fst r, fst (snd r), ph)"] assms(3)
  by (simp add: pool_work_def set_phase_def del: map_map cong: if_cong)

lemma end_run_work:
  assumes "(j, c, pc) \<in> set (pl_runs p)"
  shows "pool_work (end_run (j, c, pc) (p\<lparr>pl_db := d\<rparr>)) < pool_work p"
  using sum_remove1 [OF assms, of "\<lambda>r. run_work (snd (snd r))"]
  by (cases pc) (simp_all add: pool_work_def end_run_def)

lemma set_worker_work:
  "i < length (pl_workers p) \<Longrightarrow> worker_work pc < worker_work (pl_workers p ! i) \<Longrightarrow>
    pool_work (set_worker i pc (p\<lparr>pl_db := d\<rparr>)) < pool_work p"
  using sum_upd [of i "pl_workers p" worker_work pc] by (simp add: pool_work_def set_worker_def)

lemma phase_work:
  "run_work (first_phase known j) < run_work Starting"
  "run_work (case out of None \<Rightarrow> Completing | Some msg \<Rightarrow> Failing msg) < run_work Handling"
  "run_work (after_read msg a) < run_work (Failing msg)"
  by (auto simp: first_phase_def after_read_def split: job_payload.split option.split)

text \<open>Every step of a goroutine of a cancelled pool uses up work, and only a tick adds some.\<close>

lemma gstep_work:
  assumes ok: "one_lease (queue_of p)" and c: "pl_cancelled p" and st: "gstep known p q"
  shows "pool_work q < pool_work p"
proof -
  have work: "pool_work (exit_worker i (p\<lparr>pl_db := d\<rparr>)) = pool_work (set_worker i Exited (p\<lparr>pl_db := d\<rparr>))"
    "pool_work (spawn_run j (set_worker i AtTop (p\<lparr>pl_db := d\<rparr>))) = pool_work (set_worker i AtTop (p\<lparr>pl_db := d\<rparr>)) + 4"
    for i j d by (simp_all add: pool_work_def pool_updates)
  show ?thesis using st
  proof cases
    case (w_exit i)
    then show ?thesis using set_worker_work [of i p Exited "pl_db p"] work(1) [of i "pl_db p"] by auto
  next
    case (w_job i j d')
    then show ?thesis using sum_upd [of i "pl_workers p" worker_work AtTop]
      by (simp add: work(2)) (simp add: pool_work_def set_worker_def)
  next
    case (w_none i d')
    then show ?thesis using set_worker_work [of i p Polling "pl_db p"] by simp
  next
    case (w_error i)
    then show ?thesis using c set_worker_work [of i p Exited "pl_db p"] work(1) [of i "pl_db p"]
      by (simp add: claim_failed_def)
  next
    case (w_lost i j d')
    then show ?thesis using c set_worker_work [of i p Exited d'] work(1) [of i d'] by (simp add: claim_failed_def)
  next
    case (w_pause i)
    then show ?thesis using set_worker_work [of i p AtTop "pl_db p"] by simp
  next
    case (r_decode j c)
    then show ?thesis using set_phase_work [OF ok r_decode(2) phase_work(1)] by simp
  next
    case (r_handled j c out)
    then show ?thesis using set_phase_work [OF ok r_handled(2) phase_work(2)] by simp
  next
    case (r_read j c msg x)
    then show ?thesis using set_phase_work [OF ok r_read(2) phase_work(3)] by simp
  next
    case (r_lost j c pc)
    then show ?thesis using end_run_work [of j c pc p "pl_db p"] by simp
  qed (use c in \<open>simp_all add: end_run_work\<close>, simp_all add: pool_work_def)
qed

lemma estep_work: "estep p q \<Longrightarrow> pool_work q = pool_work p \<and> (pl_cancelled p \<longrightarrow> pl_cancelled q)"
  by (auto simp: pool_work_def elim!: estepE)

lemma gstep_cancelled: "gstep known p q \<Longrightarrow> pl_cancelled q = pl_cancelled p"
  by (auto simp: pool_updates elim!: gstepE split: if_splits)

lemma tick_work: "pool_work (tick_fires p) \<le> pool_work p + 4 \<and> pl_cancelled (tick_fires p) = pl_cancelled p"
  by (simp add: tick_fires_def pool_work_def)

lemma drain_work:
  assumes "drain known p n f q" "pool_ok known p" "pl_cancelled p"
  shows "n + pool_work q \<le> pool_work p + 4 * f \<and> pool_ok known q \<and> pl_cancelled q"
  using assms(1)
proof induction
  case (drain_go n f q r)
  then have "pool_work r < pool_work q" by (intro gstep_work) (auto simp: pool_ok_def)
  then show ?case using drain_go pool_ok_step [OF _ p_go] gstep_cancelled by fastforce
next
  case (drain_env n f q r)
  then show ?case using estep_work [of q r] pool_ok_step [OF _ p_env] by auto
next
  case (drain_tick n f q)
  then show ?case using tick_work [of q] pool_ok_step [OF _ p_tick] by auto
qed (use assms in simp)


lemma work_bound: "pool_work p \<le> 6 * length (pl_workers p) + 8 + 4 * length (pl_runs p)"
proof -
  have one: "worker_work w \<le> 6" "run_work pc \<le> 4" for w pc
    by (cases w; simp) (cases pc; simp)
  have worker: "sum_list (map worker_work ws) \<le> 6 * length ws" for ws
  proof (induction ws)
    case (Cons w ws)
    then show ?case using one(1) [of w] by simp
  qed simp
  have runs: "sum_list (map (\<lambda>r. run_work (snd (snd r))) rs) \<le> 4 * length rs" for rs :: "run list"
  proof (induction rs)
    case (Cons r rs)
    then show ?case using one(2) [of "snd (snd r)"] by simp
  qed simp
  have "sweeper_work (pl_sweeper p) \<le> 4" by (cases "pl_sweeper p") auto
  then show ?thesis using worker [of "pl_workers p"] runs [of "pl_runs p"] by (simp add: pool_work_def)
qed

text \<open>Nothing waits for ever: while the WaitGroup is above zero some goroutine can go on.\<close>

lemma goroutine_can_step:
  assumes ok: "pool_ok known p" and c: "pl_cancelled p" and "pl_wg p \<noteq> 0"
  shows "\<exists>q. gstep known p q"
proof -
  have "live_goroutines p \<noteq> 0" using ok assms(3) by (simp add: pool_ok_def)
  then have "pl_runs p \<noteq> [] \<or> pl_sweeper p \<noteq> Stopped \<or> filter (\<lambda>w. w \<noteq> Exited) (pl_workers p) \<noteq> []"
    by (auto simp: live_goroutines_def)
  then consider (worker) w where "w \<in> set (pl_workers p)" "w \<noteq> Exited"
    | (sweeper) "pl_sweeper p \<noteq> Stopped" | (run) r where "r \<in> set (pl_runs p)"
    by (cases "pl_runs p") (auto simp: filter_empty_conv)
  then show ?thesis
  proof cases
    case worker
    then obtain i where "i < length (pl_workers p)" "pl_workers p ! i \<noteq> Exited" by (auto simp: in_set_conv_nth)
    then show ?thesis using c w_exit [of i p known] w_error [of i p known]
      by (cases "pl_workers p ! i") auto
  next
    case sweeper
    then show ?thesis
      using c s_exit [of p known] s_jobs [of p "pl_db p" known] s_sessions [of p "pl_db p" known] s_flows [of p "pl_db p" known]
      by (cases "pl_sweeper p") auto
  next
    case run
    obtain j d pc where r: "r = (j, d, pc)" by (cases r) auto
    show ?thesis
    proof (cases "pc \<in> {Starting, Handling}")
      case True
      then show ?thesis using run r r_decode [of j d p known] r_handled [of j d p known None] by auto
    next
      case False
      then show ?thesis using run r r_lost [of j d pc p known] by auto
    qed
  qed
qed

lemma returned_empty:
  assumes "pool_ok known p" "run_returns p"
  shows "pl_runs p = [] \<and> pl_sweeper p = Stopped \<and> (\<forall>w \<in> set (pl_workers p). w = Exited)"
proof -
  have "live_goroutines p = 0" using assms by (simp add: pool_ok_def run_returns_def)
  then show ?thesis by (auto simp: live_goroutines_def filter_empty_conv split: if_splits)
qed

lemma can_return:
  assumes "drain known p n f q" "pool_ok known p" "pl_cancelled p"
  shows "\<exists>m r. drain known p m f r \<and> run_returns r"
  using assms(1)
proof (induction "pool_work q" arbitrary: q n rule: less_induct)
  case less
  have q: "pool_ok known q" "pl_cancelled q" using drain_work [OF less.prems assms(2,3)] by auto
  show ?case
  proof (cases "pl_wg q = 0")
    case False
    then obtain r where r: "gstep known q r" using goroutine_can_step [OF q] by blast
    then have "pool_work r < pool_work q" using q by (intro gstep_work) (auto simp: pool_ok_def)
    then show ?thesis using less.hyps drain_go [OF less.prems r] by blast
  qed (use less.prems in \<open>auto simp: run_returns_def\<close>)
qed

section \<open>Steps in a row\<close>

text \<open>The three statements of a sweep that all succeed are \<open>sweep\<close>.\<close>

lemma sweep_in_steps:
  assumes "pl_sweeper p = SweepJobs"
  shows "(gstep known)\<^sup>*\<^sup>* p (p\<lparr>pl_db := sweep (pl_now p) (pl_db p), pl_sweeper := Waiting\<rparr>)"
proof -
  let ?a = "p\<lparr>pl_db := requeue_expired (pl_now p) (pl_db p), pl_sweeper := SweepSessions\<rparr>"
  let ?b = "?a\<lparr>pl_db := drop_sessions (pl_now ?a) (pl_db ?a), pl_sweeper := SweepFlows\<rparr>"
  have "gstep known p ?a" using assms by (intro s_jobs) auto
  moreover have "gstep known ?a ?b" by (rule s_sessions) auto
  moreover have "gstep known ?b (?b\<lparr>pl_db := drop_flows (pl_now ?b) (pl_db ?b), pl_sweeper := Waiting\<rparr>)"
    by (rule s_flows) auto
  ultimately show ?thesis
    by (simp add: sweep_def)
qed

text \<open>A worker does not wait for the runs it started: with a due job it starts one more, however many there are.\<close>

lemma runs_not_bounded:
  assumes "i < length (pl_workers p)" "pl_workers p ! i = AtTop" "\<not> pl_cancelled p"
    and "j \<in> set (jobs (pl_db p))" "due (pl_now p) j"
  shows "\<exists>q. (gstep known)\<^sup>*\<^sup>* p q \<and> length (pl_runs q) = length (pl_runs p) + 1 \<and> pl_workers q ! i = AtTop"
proof -
  let ?a = "set_worker i Claiming p"
  from assms(4,5) claim_NoJob_iff [of "pl_now p" "pl_db p"] obtain k d' where c: "claim (pl_now p) (pl_db p) = (Inr k, d')"
    by (auto simp: claim_def split: list.splits)
  let ?b = "spawn_run k (set_worker i AtTop (?a\<lparr>pl_db := d'\<rparr>))"
  have "gstep known p ?a" using assms by (intro w_claim)
  moreover have "gstep known ?a ?b" using assms c by (intro w_job) (auto simp: set_worker_def)
  ultimately have "(gstep known)\<^sup>*\<^sup>* p ?b" by (meson converse_rtranclp_into_rtranclp r_into_rtranclp)
  then show ?thesis using assms by (intro exI [of _ ?b]) (simp add: spawn_run_def set_worker_def)
qed

section \<open>Properties\<close>


text \<open>
  C14. Shutdown terminates: after Close, or when the context of Run is cancelled, the goroutines together take at
  most 6 steps per worker, 4 per run in flight and 8 more, plus 4 per tick of the sweeper's
  clock, in every interleaving with requests; they are never stuck before Run returns; Run can return
  from every such state; and when it does, no run, worker or sweeper is left.
\<close>

theorem shutdown_drains:
  assumes "reachable (pool_start n) (pstep known) p" "pl_cancelled p" "drain known p m f q"
  shows "m \<le> 6 * length (pl_workers p) + 8 + 4 * length (pl_runs p) + 4 * f \<and>
    (\<not> run_returns q \<longrightarrow> (\<exists>r. gstep known q r)) \<and>
    (\<exists>k r. drain known p k f r \<and> run_returns r) \<and>
    (run_returns q \<longrightarrow> pl_runs q = [] \<and> pl_sweeper q = Stopped \<and> (\<forall>w \<in> set (pl_workers q). w = Exited))"
proof -
  have ok: "pool_ok known p" using assms(1) by (rule pools.reachable_inv)
  then have q: "m + pool_work q \<le> pool_work p + 4 * f" "pool_ok known q" "pl_cancelled q"
    using drain_work [OF assms(3) _ assms(2)] by auto
  then show ?thesis
    using work_bound [of p] goroutine_can_step [OF q(2,3)] can_return [OF assms(3) ok assms(2)] returned_empty [OF q(2)]
    by (auto simp: run_returns_def)
qed


section \<open>A pool at work\<close>

definition sample_pool :: pool where
  "sample_pool = run_start 1 False 0 (empty_db\<lparr>jobs := [sample_job]\<rparr>)"

definition sample_running :: pool where
  "sample_running = spawn_run (claimed 0 sample_job)
     (set_worker 0 AtTop (sample_pool\<lparr>pl_db := empty_db\<lparr>jobs := [claimed 0 sample_job]\<rparr>\<rparr>))"

definition sample_closed :: pool where
  "sample_closed = sample_running\<lparr>pl_cancelled := True\<rparr>"

lemma sample_pool_steps:
  "gstep (\<lambda>k. True) sample_pool (set_worker 0 Claiming sample_pool)"
  "gstep (\<lambda>k. True) (set_worker 0 Claiming sample_pool) sample_running"
proof -
  let ?a = "set_worker 0 Claiming sample_pool" and ?d = "empty_db\<lparr>jobs := [claimed 0 sample_job]\<rparr>"
  show "gstep (\<lambda>k. True) sample_pool ?a"
    by (rule w_claim) (simp_all add: sample_pool_def run_start_def)
  have "claim (pl_now ?a) (pl_db ?a) = (Inr (claimed 0 sample_job), ?d)"
    by (simp add: claim_def due_def sample_defs sample_pool_def run_start_def set_worker_def)
  then have "gstep (\<lambda>k. True) ?a (spawn_run (claimed 0 sample_job) (set_worker 0 AtTop (?a\<lparr>pl_db := ?d\<rparr>)))"
    by (intro w_job) (simp_all add: sample_pool_def run_start_def set_worker_def)
  then show "gstep (\<lambda>k. True) ?a sample_running"
    by (simp add: sample_running_def sample_pool_def run_start_def set_worker_def)
qed

lemma sample_pool_reachable:
  "reachable (pool_start 1) (pstep (\<lambda>k. True)) sample_running"
  "reachable (pool_start 1) (pstep (\<lambda>k. True)) sample_closed"
proof -
  have "pool_start 1 sample_pool" unfolding pool_start_def sample_pool_def by (intro exI conjI, rule refl) simp
  then show running: "reachable (pool_start 1) (pstep (\<lambda>k. True)) sample_running"
    using sample_pool_steps by (blast intro: reach_start reach_step p_go)
  have "pstep (\<lambda>k. True) sample_running sample_closed"
    unfolding sample_closed_def by (intro p_env e_cancel)
  with running show "reachable (pool_start 1) (pstep (\<lambda>k. True)) sample_closed" by (rule reach_step)
qed


theorem shutdown_drains_witness:
  "\<exists>k r. drain (\<lambda>k. True) sample_closed k 0 r \<and> run_returns r"
proof -
  have "pl_cancelled sample_closed" by (simp add: sample_closed_def)
  then show ?thesis using shutdown_drains [OF sample_pool_reachable(2) _ drain_none] by blast
qed

end
