(* ===== verification/Background.thy ===== *)
theory Background
  imports Setup Workers Frames
begin

text \<open>
  The jobs that main registers, and what a run of one may touch: the handler of its kind works under the tenant
  of its payload, and the worker records the outcome on the job's own row.
\<close>

section \<open>The registered handlers\<close>

text \<open>What the handlers take from outside: the object store, the image processor, the converters and Google.\<close>

record background =
  bk_media :: media_config
  bk_get :: "string \<Rightarrow> error + bytes"
  bk_put :: "string \<Rightarrow> bytes \<Rightarrow> error option"
  bk_process :: "string \<Rightarrow> bytes \<Rightarrow> string \<Rightarrow> error + processed"
  bk_tools :: tools
  bk_oauth :: "oauth option"
  bk_idp :: idp
  bk_nonces :: "bytes \<times> bytes"
  bk_text :: "error \<Rightarrow> string"
  bk_import_json :: "json \<Rightarrow> (uuid \<times> string \<times> string \<times> string) option"
  bk_variant_json :: "json \<Rightarrow> (uuid \<times> uuid \<times> string) option"

type_synonym job_handler = "uuid \<Rightarrow> job_data \<Rightarrow> unit act"

definition google_of :: "env \<Rightarrow> background \<Rightarrow> (uuid \<Rightarrow> bool \<Rightarrow> string act) option" where
  "google_of E B = map_option
     (\<lambda>P. get_google_token E (bk_idp B) P (fst (bk_nonces B)) (snd (bk_nonces B))) (bk_oauth B)"

definition import_handler :: "env \<Rightarrow> background \<Rightarrow> job_handler" where
  "import_handler E B =
     handle_import_job E (bk_tools B) (bk_text B) (bk_import_json B) noop_get (google_of E B)"

definition purge_handler :: job_handler where
  "purge_handler t dat = ret ()"

definition variants_handler :: "env \<Rightarrow> background \<Rightarrow> job_handler" where
  "variants_handler E B =
     variants_job E (bk_media B) (bk_variant_json B) (bk_get B) (bk_put B) (bk_process B)"

definition job_handlers :: "env \<Rightarrow> background \<Rightarrow> job_handler registry" where
  "job_handlers E B =
     register kind_variants (variants_handler E B)
       (register purge_job_kind purge_handler
         (register import_job_kind (import_handler E B) Map.empty))"

text \<open>A run of a claimed job from the decoding of its payload to the recorded outcome.\<close>

definition run_registered :: "env \<Rightarrow> background \<Rightarrow> time \<Rightarrow> job \<Rightarrow> db \<Rightarrow> db" where
  "run_registered E B now j d =
     (case j_payload j of
        BadPayload msg \<Rightarrow> fail_job now (j_id j) msg d
      | JobPayload t dat \<Rightarrow>
          (case job_handlers E B (j_kind j) of
             None \<Rightarrow> mark_failed now (j_id j) (no_handler j) d
           | Some h \<Rightarrow> (case h t dat d of
               (Inl e, d) \<Rightarrow> fail_job now (j_id j) (bk_text B e) d
             | (Inr _, d) \<Rightarrow> job_done now (j_id j) d)))"

lemma job_handlers_kinds:
  "job_handlers E B import_job_kind = Some (import_handler E B)"
  "job_handlers E B purge_job_kind = Some purge_handler"
  "job_handlers E B kind_variants = Some (variants_handler E B)"
  by (simp_all add: job_handlers_def register_def import_job_kind_def purge_job_kind_def kind_variants_def)

lemma job_handlers_cases:
  "job_handlers E B k = Some h \<Longrightarrow> h = import_handler E B \<or> h = purge_handler \<or> h = variants_handler E B"
  by (auto simp: job_handlers_def register_def split: if_splits)

text \<open>It is the run of the queue, on what the handler leaves and with its error.\<close>

lemma run_registered_run:
  "\<exists>d1 out. run_registered E B now j d = run_job now (registered (job_handlers E B)) j out d1 \<and>
    (d1 = d \<or> (\<exists>t dat h r. j_payload j = JobPayload t dat \<and> job_handlers E B (j_kind j) = Some h \<and> h t dat d = (r, d1)))"
proof (cases "j_payload j")
  case (BadPayload msg)
  then show ?thesis by (intro exI [of _ d] exI [of _ None]) (simp add: run_registered_def run_job_def)
next
  case (JobPayload t dat)
  show ?thesis
  proof (cases "job_handlers E B (j_kind j)")
    case None
    then show ?thesis using JobPayload
      by (intro exI [of _ d] exI [of _ None]) (simp add: run_registered_def run_job_def registered_def no_handler_def)
  next
    case (Some h)
    obtain r d1 where h: "h t dat d = (r, d1)" by fastforce
    then show ?thesis using JobPayload Some
      by (intro exI [of _ d1] exI [of _ "case r of Inl e \<Rightarrow> Some (bk_text B e) | Inr _ \<Rightarrow> None"])
        (auto simp: run_registered_def run_job_def registered_def split: sum.split)
  qed
qed

section \<open>What a handler keeps\<close>

text \<open>A relation that their writes keep is kept by the handlers.\<close>

context db_preserved
begin

lemma keeps_convert:
  assumes "\<And>x u drive. exporter = Some x \<Longrightarrow> keeps R (x u drive)"
  shows "keeps R (convert_source T msg get exporter im f key doc)"
proof -
  have "keeps R (\<lambda>d. case x (im_user im) True d of
      (Inl e, d) \<Rightarrow> (Inr (Inl (google_reconsent @ '': '' @ msg e)), d)
    | (Inr access, d) \<Rightarrow> (Inr (gdoc_export T doc access), d))" if "exporter = Some x" for x
    by (intro keeps_outcome keeps_done assms that)
  then show ?thesis
    unfolding convert_source_def by (auto intro: keeps_comp split: option.split sum.split)
qed

lemma keeps_import_handler:
  assumes "\<And>x u drive. google_of E B = Some x \<Longrightarrow> keeps R (x u drive)"
    and "\<And>iid u. keeps (tx_rel R) (update_import (tx_of E False \<lparr>sc_tenant = t, sc_platform = False\<rparr>) iid u)"
  shows "keeps R (import_handler E B t dat)"
proof -
  have load: "keeps (tx_rel R) (get_import_by_id q iid)" for q iid
    unfolding get_import_by_id_def by (intro keeps_stmt)
  show ?thesis
    unfolding import_handler_def handle_import_job_def Let_def if_distribR [symmetric]
    by (auto intro!: keeps_comp keeps_outcome keeps_done keeps_choice keeps_scoped_ro load keeps_convert keeps_scoped assms
        split: option.split)
qed

lemma keeps_variants_handler:
  assumes "\<And>iid w h vs. keeps (tx_rel R)
      (update_post_image_variants (tx_of E False \<lparr>sc_tenant = t, sc_platform = False\<rparr>) iid w h vs)"
  shows "keeps R (variants_handler E B t dat)"
proof -
  have load: "keeps (tx_rel R) (get_post_image_by_id q iid)" for q iid
    unfolding get_post_image_by_id_def by (intro keeps_stmt)
  have stored: "keeps R (write_variants E M t iid p key)" for M iid p key
    unfolding write_variants_def by (intro keeps_scoped assms)
  show ?thesis
    unfolding variants_handler_def variants_job_def
    by (auto intro!: keeps_comp keeps_outcome keeps_done keeps_choice keeps_scoped_ro load stored
        split: option.split sum.split)
qed

end

section \<open>What a handler may change\<close>

text \<open>The images and imports of one tenant, and the tokens of Google accounts.\<close>

definition job_confined :: "uuid \<Rightarrow> db \<Rightarrow> db \<Rightarrow> bool" where
  "job_confined t d d' \<longleftrightarrow>
     tenants d' = tenants d \<and> users d' = users d \<and> memberships d' = memberships d \<and> identities d' = identities d \<and>
     sessions d' = sessions d \<and> posts d' = posts d \<and> invitations d' = invitations d \<and> jobs d' = jobs d \<and>
     oauth_flows d' = oauth_flows d \<and>
     (\<forall>u. u \<noteq> t \<longrightarrow> filter (\<lambda>x. pi_tenant x = u) (post_images d') = filter (\<lambda>x. pi_tenant x = u) (post_images d) \<and>
       filter (\<lambda>x. im_tenant x = u) (doc_imports d') = filter (\<lambda>x. im_tenant x = u) (doc_imports d))"

interpretation confined: db_preserved "job_confined t" for t
  by unfold_locales (auto simp: job_confined_def)

lemma confined_tokens: "d' = d\<lparr>oauth_tokens := oauth_tokens d'\<rparr> \<Longrightarrow> job_confined t d d'"
  by (cases d; cases d') (simp add: job_confined_def)

lemma google_confined: "google_of E B = Some x \<Longrightarrow> keeps (job_confined t) (x u drive)"
  by (auto simp: google_of_def keeps_def intro: confined_tokens google_tokens.only_tokens prod.collapse [symmetric])

text \<open>Writes to one row of the tenant in scope.\<close>

lemma import_write_confined:
  "keeps (tx_rel (job_confined t)) (update_import (tx_of E False \<lparr>sc_tenant = t, sc_platform = False\<rparr>) iid u)"
  unfolding update_import_def
  by (intro confined.tx.keeps_comp confined.keeps_affected confined.keeps_write)
    (auto simp: job_confined_def import_at_def visible_scope import_with_def intro!: filter_upd_rows split: if_splits)

lemma image_write_confined:
  "keeps (tx_rel (job_confined t)) (update_post_image_variants (tx_of E False \<lparr>sc_tenant = t, sc_platform = False\<rparr>) iid w h vs)"
  unfolding update_post_image_variants_def
  by (intro confined.tx.keeps_comp confined.keeps_affected confined.keeps_write)
    (auto simp: job_confined_def image_at_def visible_scope intro!: filter_upd_rows)

lemma handler_confined:
  assumes "job_handlers E B k = Some h"
  shows "keeps (job_confined t) (h t dat)"
  using job_handlers_cases [OF assms]
  by (auto simp: purge_handler_def intro: confined.keeps_ret confined.keeps_import_handler google_confined
      import_write_confined confined.keeps_variants_handler image_write_confined)

section \<open>Properties\<close>

text \<open>
  C16. A job stays in its tenant: the run of a claimed job, whatever its kind, payload and outcome and whatever the
  object store, the converters and Google answer, changes images and imports of the tenant of its payload
  only, no tenant, user, membership, identity, session, invitation, flow or post of anyone, and of the
  queue only its own row.
\<close>

theorem job_walls:
  assumes "run_registered E B now j d = d'"
  shows "tenants d' = tenants d \<and> users d' = users d \<and> memberships d' = memberships d \<and> identities d' = identities d \<and>
    sessions d' = sessions d \<and> posts d' = posts d \<and> invitations d' = invitations d \<and> oauth_flows d' = oauth_flows d \<and>
    (\<forall>u. (\<forall>dat. j_payload j \<noteq> JobPayload u dat) \<longrightarrow>
       filter (\<lambda>x. pi_tenant x = u) (post_images d') = filter (\<lambda>x. pi_tenant x = u) (post_images d) \<and>
       filter (\<lambda>x. im_tenant x = u) (doc_imports d') = filter (\<lambda>x. im_tenant x = u) (doc_imports d)) \<and>
    map job_key (jobs d') = map job_key (jobs d) \<and> (\<forall>x \<in> set (jobs d). j_id x \<noteq> j_id j \<longrightarrow> x \<in> set (jobs d'))"
proof -
  obtain d1 out where run: "d' = run_job now (registered (job_handlers E B)) j out d1"
    and d1: "d1 = d \<or> (\<exists>t dat h r. j_payload j = JobPayload t dat \<and> job_handlers E B (j_kind j) = Some h \<and> h t dat d = (r, d1))"
    using run_registered_run [of E B now j d] assms by metis
  have rows: "only_row (j_id j) d1 d'" unfolding run by (rule only_row_run)
  have rest: "d' = d1\<lparr>jobs := jobs d'\<rparr>"
    unfolding run by (auto simp: run_job_def fail_job_def mark_failed_def job_done_def split: job_payload.split option.split)
  have conf: "job_confined t d d1" if p: "j_payload j = JobPayload t dat" for t dat
    using d1
  proof
    assume "d1 = d"
    then show ?thesis by (simp add: confined.R_refl)
  next
    assume "\<exists>t dat h r. j_payload j = JobPayload t dat \<and> job_handlers E B (j_kind j) = Some h \<and> h t dat d = (r, d1)"
    then obtain h r where h: "job_handlers E B (j_kind j) = Some h" "h t dat d = (r, d1)" using p by auto
    from keepsD [OF handler_confined [OF h(1)] h(2)] show ?thesis .
  qed
  have same: "tenants d' = tenants d1" "users d' = users d1" "memberships d' = memberships d1"
    "identities d' = identities d1" "sessions d' = sessions d1" "posts d' = posts d1" "invitations d' = invitations d1"
    "oauth_flows d' = oauth_flows d1" "post_images d' = post_images d1" "doc_imports d' = doc_imports d1"
    by (subst rest, simp)+
  show ?thesis
  proof (cases "j_payload j")
    case (BadPayload m)
    then have "d1 = d" using d1 by auto
    then show ?thesis using rows unfolding same by (simp add: only_row_def)
  next
    case (JobPayload t dat)
    from conf [OF this] show ?thesis using rows JobPayload unfolding same
      by (auto simp: job_confined_def only_row_def)
  qed
qed


text \<open>The image of a confirmed upload, as the job of the confirmation finds it.\<close>

lemma confirmed_job:
  assumes "confirm_act E M iid jid sc pid key sz mime d = (Inr True, d1)"
    and "claim now d1 = (Inr j, d2)" "j_id j = jid" "sc_tenant sc \<noteq> nil_uuid"
  obtains im where "j_payload j = JobPayload (sc_tenant sc) (VariantData (sc_tenant sc) iid key)" "j_kind j = kind_variants"
    "find (image_at (tx_of E' ro \<lparr>sc_tenant = sc_tenant sc, sc_platform = False\<rparr>) iid) (post_images d2) = Some im"
    "pi_key im = key" "pi_tenant im = sc_tenant sc" "pi_id im = iid"
    "\<exists>x \<in> set (jobs d2). j_id x = jid"
proof -
  let ?q = "tx_of E False sc" and ?t = "sc_tenant sc"
  let ?im = "image_row ?q iid ?t pid key (mc_cdn M @ ''/'' @ key) 0 0 sz mime"
  let ?j = "new_job ?q jid kind_variants (nullif_empty key) (JobPayload ?t (VariantData ?t iid key))"
  have "runs (confirm M iid jid ?q ?t pid key sz mime) d True d1"
    using assms(1) by (simp add: confirm_act_def scoped_rw_runs)
  then have new: "\<forall>x \<in> set (post_images d). pi_id x \<noteq> iid" "\<forall>x \<in> set (jobs d). j_id x \<noteq> jid"
    and d1: "d1 = d\<lparr>post_images := post_images d @ [?im], jobs := jobs d @ [?j]\<rparr>"
    by (auto simp: runs_confirm split: if_splits)
  from assms(2) obtain r where r: "r \<in> set (jobs d1)" "j = claimed now r"
    "d2 = d1\<lparr>jobs := upd_rows (\<lambda>x. j_id x = j_id r) (claimed now) (jobs d1)\<rparr>" by (rule claim_InrE)
  then have "j_id r = jid" using assms(3) by simp
  then have "r = ?j" using r(1) new(2) d1 by auto
  have im: "pi_id ?im = iid" "pi_tenant ?im = ?t" "pi_key ?im = key" by (simp_all add: image_row_def)
  have "find (image_at (tx_of E' ro \<lparr>sc_tenant = ?t, sc_platform = False\<rparr>) iid) (post_images d) = None"
    using new(1) by (auto simp: find_None_iff image_at_def)
  then have "find (image_at (tx_of E' ro \<lparr>sc_tenant = ?t, sc_platform = False\<rparr>) iid) (post_images d2) = Some ?im"
    using im assms(4) by (simp add: r(3) d1 find_append_new) (simp add: image_at_def visible_scope)
  moreover have "j_payload j = JobPayload ?t (VariantData ?t iid key)" "j_kind j = kind_variants"
    using r(2) \<open>r = ?j\<close> by (simp_all add: claimed_def new_job_def)
  moreover have "\<exists>x \<in> set (jobs d2). j_id x = jid"
    using r \<open>j_id r = jid\<close> by (intro bexI [of _ "claimed now r"]) (auto intro: in_upd_rows_changed)
  ultimately show ?thesis using im that by blast
qed

text \<open>
  C17. A confirmed upload gets its variants: when the job that a confirmation enqueued is claimed and run, and the store
  has the original, the processor accepts it and the variants are stored, the image of the upload has
  the sizes of the original and the entries of its variants, and the job is Done.
\<close>

theorem confirmed_image_processed:
  assumes "confirm_act E M iid jid sc pid key sz mime d = (Inr True, d1)" "sc_tenant sc \<noteq> nil_uuid"
    and "claim now d1 = (Inr j, d2)" "j_id j = jid"
    and "bk_get B key = Inr orig" "bk_process B (ext_from_name E' key) orig key = Inr p"
    and "put_variants (bk_put B) (pr_variants p) = None"
  shows "(\<exists>im \<in> set (post_images (run_registered E' B now' j d2)). pi_id im = iid \<and> pi_tenant im = sc_tenant sc \<and>
      pi_key im = key \<and> pi_width im = pr_width p \<and> pi_height im = pr_height p \<and>
      pi_variants im = build_variants p (mc_cdn (bk_media B)) key) \<and>
    (\<exists>x \<in> set (jobs (run_registered E' B now' j d2)). j_id x = jid \<and> j_state x = Done)"
proof -
  let ?sc = "\<lparr>sc_tenant = sc_tenant sc, sc_platform = False\<rparr>"
  let ?f = "\<lambda>im. im\<lparr>pi_width := pr_width p, pi_height := pr_height p, pi_variants := build_variants p (mc_cdn (bk_media B)) key\<rparr>"
  note job = confirmed_job [OF assms(1,3,4,2)]
  obtain im where j: "j_payload j = JobPayload (sc_tenant sc) (VariantData (sc_tenant sc) iid key)" "j_kind j = kind_variants"
    and im: "find (image_at (tx_of E' True ?sc) iid) (post_images d2) = Some im" "pi_key im = key" "pi_tenant im = sc_tenant sc" "pi_id im = iid"
    and row: "\<exists>x \<in> set (jobs d2). j_id x = jid"
    by (rule job)
  let ?d = "d2\<lparr>post_images := upd_rows (image_at (tx_of E' False ?sc) iid) ?f (post_images d2)\<rparr>"
  have "scoped E' ?sc (\<lambda>q. get_post_image_by_id q iid) d2 = (Inr im, d2)"
    using im(1) by (simp add: scoped_def run_tx_def get_post_image_by_id_def and_then_def)
  then have "variants_handler E' B (sc_tenant sc) (VariantData (sc_tenant sc) iid key) d2 = (Inr (), ?d)"
    using im(2) assms(5-7)
    by (simp add: variants_handler_def variants_job_def variant_payload_def write_variants_def scoped_rw_def run_tx_def
        update_post_image_variants_def)
  then have run: "run_registered E' B now' j d2 = job_done now' (j_id j) ?d"
    using j by (simp add: run_registered_def job_handlers_kinds)
  have "?f im \<in> set (post_images ?d)"
    using find_SomeD [OF im(1)] by (auto simp: image_at_def visible_scope intro!: in_upd_rows_changed)
  then have "\<exists>im \<in> set (post_images (run_registered E' B now' j d2)). pi_id im = iid \<and> pi_tenant im = sc_tenant sc \<and>
      pi_key im = key \<and> pi_width im = pr_width p \<and> pi_height im = pr_height p \<and>
      pi_variants im = build_variants p (mc_cdn (bk_media B)) key"
    unfolding run using im by (intro bexI [of _ "?f im"]) (simp_all add: job_done_def)
  moreover obtain x where "x \<in> set (jobs d2)" "j_id x = jid" using row by blast
  then have "x\<lparr>j_state := Done, j_updated := now'\<rparr> \<in> set (jobs (run_registered E' B now' j d2))"
    unfolding run using assms(4) by (auto simp: job_done_def intro!: in_upd_rows_changed)
  then have "\<exists>x \<in> set (jobs (run_registered E' B now' j d2)). j_id x = jid \<and> j_state x = Done"
    using \<open>j_id x = jid\<close> by (intro bexI) auto
  ultimately show ?thesis by blast
qed


section \<open>A job at work\<close>

definition sample_processed :: processed where
  "sample_processed = \<lparr>pr_width = 640, pr_height = 480,
     pr_variants = [\<lparr>vr_label = ''480'', vr_key = ''k-480.webp'', vr_data = ''w'', vr_width = 480, vr_height = 360\<rparr>]\<rparr>"

definition sample_background :: background where
  "sample_background = \<lparr>bk_media = sample_media, bk_get = (\<lambda>k. Inr ''x''), bk_put = (\<lambda>k b. None),
     bk_process = (\<lambda>ext b k. Inr sample_processed), bk_tools = sample_tools, bk_oauth = None, bk_idp = sample_idp,
     bk_nonces = ([], []), bk_text = (\<lambda>e. []), bk_import_json = (\<lambda>j. None), bk_variant_json = (\<lambda>j. None)\<rparr>"

lemma sample_claim:
  obtains j d2 where "claim 100 sample_uploaded = (Inr j, d2)" "j_id j = 21"
proof -
  have js: "map (\<lambda>j. (j_id j, due 100 j)) (jobs sample_uploaded) = [(21, True)]" by code_simp
  then have rows: "\<exists>j \<in> set (jobs sample_uploaded). due 100 j" "\<forall>j \<in> set (jobs sample_uploaded). j_id j = 21" by auto
  then obtain j d2 where c: "claim 100 sample_uploaded = (Inr j, d2)"
    using claim_NoJob_iff [of 100 sample_uploaded] by (auto simp: claim_def split: list.splits)
  then have "j_id j = 21" using rows(2) by (auto elim: claim_InrE)
  with c show thesis by (rule that)
qed

theorem job_walls_witness:
  "posts (run_registered sample_env sample_background 100 sample_job sample_uploaded) = posts sample_uploaded \<and>
   filter (\<lambda>x. pi_tenant x = 2) (post_images (run_registered sample_env sample_background 100 sample_job sample_uploaded)) =
     filter (\<lambda>x. pi_tenant x = 2) (post_images sample_uploaded)"
proof -
  have "\<forall>dat. j_payload sample_job \<noteq> JobPayload 2 dat" by (simp add: sample_job_def new_job_def)
  then show ?thesis using job_walls [OF refl, of sample_env sample_background 100 sample_job sample_uploaded] by blast
qed

theorem confirmed_image_processed_witness:
  "\<exists>j d2. claim 100 sample_uploaded = (Inr j, d2) \<and>
     (\<exists>im \<in> set (post_images (run_registered sample_env sample_background 100 j d2)). pi_id im = 20 \<and> pi_width im = 640)"
proof -
  obtain j d2 where c: "claim 100 sample_uploaded = (Inr j, d2)" "j_id j = 21" by (rule sample_claim)
  have b: "bk_get sample_background ''k.png'' = Inr ''x''"
    "bk_process sample_background (ext_from_name sample_env ''k.png'') ''x'' ''k.png'' = Inr sample_processed"
    "put_variants (bk_put sample_background) (pr_variants sample_processed) = None"
    by (simp_all add: sample_background_def sample_processed_def)
  have w: "pr_width sample_processed = 640" by (simp add: sample_processed_def)
  have "sc_tenant sample_scope_one \<noteq> nil_uuid" by simp
  from confirmed_image_processed [OF sample_confirm this c b, of 100] c(1) w show ?thesis by metis
qed

end
