(* ===== verification/Schema.thy ===== *)
theory Schema
  imports Background
begin

text \<open>
  The constraints of migrations/ as a predicate on the whole database: the keys and unique indexes of each
  table, its CHECKs and the rows that its foreign keys name. Theory Db and its successors check a
  constraint where a statement can violate it; here is that those checks and the cascades keep all of them.
\<close>

section \<open>Tables\<close>

definition tids :: "db \<Rightarrow> uuid set" where
  "tids d = t_id ` set (tenants d)"

definition uids :: "db \<Rightarrow> uuid set" where
  "uids d = us_id ` set (users d)"

abbreviation post_key :: "post \<Rightarrow> uuid \<times> uuid" where
  "post_key p \<equiv> (p_tenant p, p_id p)"

definition pids :: "db \<Rightarrow> (uuid \<times> uuid) set" where
  "pids d = post_key ` set (posts d)"

lemma ids_other_table [simp]:
  "tids (d\<lparr>users := us\<rparr>) = tids d" "tids (d\<lparr>memberships := ms\<rparr>) = tids d" "tids (d\<lparr>identities := is\<rparr>) = tids d"
  "tids (d\<lparr>sessions := ss\<rparr>) = tids d" "tids (d\<lparr>posts := ps\<rparr>) = tids d" "tids (d\<lparr>post_images := ims\<rparr>) = tids d"
  "tids (d\<lparr>invitations := vs\<rparr>) = tids d" "tids (d\<lparr>doc_imports := ds\<rparr>) = tids d" "tids (d\<lparr>jobs := js\<rparr>) = tids d"
  "tids (d\<lparr>oauth_flows := fs\<rparr>) = tids d" "tids (d\<lparr>oauth_tokens := ks\<rparr>) = tids d"
  "uids (d\<lparr>tenants := ts\<rparr>) = uids d" "uids (d\<lparr>memberships := ms\<rparr>) = uids d" "uids (d\<lparr>identities := is\<rparr>) = uids d"
  "uids (d\<lparr>sessions := ss\<rparr>) = uids d" "uids (d\<lparr>posts := ps\<rparr>) = uids d" "uids (d\<lparr>post_images := ims\<rparr>) = uids d"
  "uids (d\<lparr>invitations := vs\<rparr>) = uids d" "uids (d\<lparr>doc_imports := ds\<rparr>) = uids d" "uids (d\<lparr>jobs := js\<rparr>) = uids d"
  "uids (d\<lparr>oauth_flows := fs\<rparr>) = uids d" "uids (d\<lparr>oauth_tokens := ks\<rparr>) = uids d"
  "pids (d\<lparr>tenants := ts\<rparr>) = pids d" "pids (d\<lparr>users := us\<rparr>) = pids d" "pids (d\<lparr>memberships := ms\<rparr>) = pids d"
  "pids (d\<lparr>identities := is\<rparr>) = pids d" "pids (d\<lparr>sessions := ss\<rparr>) = pids d" "pids (d\<lparr>post_images := ims\<rparr>) = pids d"
  "pids (d\<lparr>invitations := vs\<rparr>) = pids d" "pids (d\<lparr>doc_imports := ds\<rparr>) = pids d" "pids (d\<lparr>jobs := js\<rparr>) = pids d"
  "pids (d\<lparr>oauth_flows := fs\<rparr>) = pids d" "pids (d\<lparr>oauth_tokens := ks\<rparr>) = pids d"
  by (simp_all add: tids_def uids_def pids_def)

lemma ids_insert [simp]:
  "tids (d\<lparr>tenants := tenants d @ [t]\<rparr>) = insert (t_id t) (tids d)"
  "uids (d\<lparr>users := users d @ [u]\<rparr>) = insert (us_id u) (uids d)"
  "pids (d\<lparr>posts := posts d @ [p]\<rparr>) = insert (post_key p) (pids d)"
  by (auto simp: tids_def uids_def pids_def)

definition tenants_fit :: "tenant list \<Rightarrow> bool" where
  "tenants_fit ts \<longleftrightarrow> distinct (map t_id ts) \<and> distinct (map t_slug ts) \<and>
     (\<forall>t \<in> set ts. valid_slug (t_slug t) \<and> t_version t \<le> max_bigint)"

definition users_fit :: "(string \<Rightarrow> string) \<Rightarrow> user list \<Rightarrow> bool" where
  "users_fit L us \<longleftrightarrow> distinct (map us_id us) \<and> distinct (map (\<lambda>u. L (us_email u)) us)"

definition members_fit :: "uuid set \<Rightarrow> uuid set \<Rightarrow> membership list \<Rightarrow> bool" where
  "members_fit T U ms \<longleftrightarrow> distinct (map (\<lambda>m. (m_tenant m, m_user m)) ms) \<and>
     (\<forall>m \<in> set ms. m_tenant m \<in> T \<and> m_user m \<in> U \<and> known_role (m_role m))"

definition identities_fit :: "uuid set \<Rightarrow> identity list \<Rightarrow> bool" where
  "identities_fit U is \<longleftrightarrow> distinct (map (\<lambda>i. (id_provider i, id_subject i)) is) \<and> (\<forall>i \<in> set is. id_user i \<in> U)"

definition sessions_fit :: "uuid set \<Rightarrow> session list \<Rightarrow> bool" where
  "sessions_fit U ss \<longleftrightarrow> distinct (map s_hash ss) \<and> (\<forall>s \<in> set ss. s_user s \<in> U)"

definition posts_fit :: "uuid set \<Rightarrow> uuid set \<Rightarrow> post list \<Rightarrow> bool" where
  "posts_fit T U ps \<longleftrightarrow> distinct (map p_id ps) \<and> distinct (map (\<lambda>p. (p_tenant p, p_slug p)) ps) \<and>
     (\<forall>p \<in> set ps. p_tenant p \<in> T \<and> p_author p \<in> U \<and> p_metadata p \<noteq> None)"

definition images_fit :: "uuid set \<Rightarrow> (uuid \<times> uuid) set \<Rightarrow> post_image list \<Rightarrow> bool" where
  "images_fit T P ims \<longleftrightarrow> distinct (map pi_id ims) \<and> distinct (map (\<lambda>im. (pi_tenant im, pi_key im)) ims) \<and>
     (\<forall>im \<in> set ims. pi_tenant im \<in> T \<and> (pi_tenant im, pi_post im) \<in> P)"

definition invitations_fit :: "uuid set \<Rightarrow> invitation list \<Rightarrow> bool" where
  "invitations_fit T is \<longleftrightarrow> distinct (map i_id is) \<and> (\<forall>i \<in> set is. i_tenant i \<in> T \<and> known_role (i_role i))"

definition imports_fit :: "uuid set \<Rightarrow> uuid set \<Rightarrow> (uuid \<times> uuid) set \<Rightarrow> doc_import list \<Rightarrow> bool" where
  "imports_fit T U P is \<longleftrightarrow> distinct (map im_id is) \<and>
     (\<forall>i \<in> set is. im_tenant i \<in> T \<and> im_user i \<in> U \<and>
        (\<forall>p \<in> set_option (im_post i). (im_tenant i, p) \<in> P))"

definition jobs_fit :: "job list \<Rightarrow> bool" where
  "jobs_fit js \<longleftrightarrow> distinct (map j_id js) \<and>
     distinct (map (\<lambda>j. (j_kind j, j_dedupe j)) (filter (\<lambda>j. j_dedupe j \<noteq> None) js))"

definition flows_fit :: "oauth_flow list \<Rightarrow> bool" where
  "flows_fit fs \<longleftrightarrow> distinct (map f_id fs) \<and> (\<forall>f \<in> set fs. known_provider (f_provider f))"

definition tokens_fit :: "uuid set \<Rightarrow> oauth_token list \<Rightarrow> bool" where
  "tokens_fit U ks \<longleftrightarrow> distinct (map (\<lambda>k. (k_user k, k_provider k)) ks) \<and>
     (\<forall>k \<in> set ks. k_user k \<in> U \<and> known_provider (k_provider k))"

text \<open>\<open>L\<close> is SQL \<open>lower\<close>, by which emails are unique.\<close>

definition schema_ok :: "(string \<Rightarrow> string) \<Rightarrow> db \<Rightarrow> bool" where
  "schema_ok L d \<longleftrightarrow>
     tenants_fit (tenants d) \<and> users_fit L (users d) \<and> members_fit (tids d) (uids d) (memberships d) \<and>
     identities_fit (uids d) (identities d) \<and> sessions_fit (uids d) (sessions d) \<and>
     posts_fit (tids d) (uids d) (posts d) \<and> images_fit (tids d) (pids d) (post_images d) \<and>
     invitations_fit (tids d) (invitations d) \<and> imports_fit (tids d) (uids d) (pids d) (doc_imports d) \<and>
     jobs_fit (jobs d) \<and> flows_fit (oauth_flows d) \<and> tokens_fit (uids d) (oauth_tokens d)"

lemmas fit_defs = tenants_fit_def users_fit_def members_fit_def identities_fit_def sessions_fit_def posts_fit_def
  images_fit_def invitations_fit_def imports_fit_def jobs_fit_def flows_fit_def tokens_fit_def

lemma schema_empty: "schema_ok L empty_db"
  by (simp add: schema_ok_def empty_db_def fit_defs)

lemma has_ids: "has_tenant d i \<longleftrightarrow> i \<in> tids d" "has_user d i \<longleftrightarrow> i \<in> uids d" "has_post d t i \<longleftrightarrow> (t, i) \<in> pids d"
  by (auto simp: has_tenant_def has_user_def has_post_def tids_def uids_def pids_def)

text \<open>More rows to refer to do no harm.\<close>

lemma fit_mono:
  "members_fit T U ms \<Longrightarrow> T \<subseteq> T' \<Longrightarrow> U \<subseteq> U' \<Longrightarrow> members_fit T' U' ms"
  "identities_fit U is \<Longrightarrow> U \<subseteq> U' \<Longrightarrow> identities_fit U' is"
  "sessions_fit U ss \<Longrightarrow> U \<subseteq> U' \<Longrightarrow> sessions_fit U' ss"
  "posts_fit T U ps \<Longrightarrow> T \<subseteq> T' \<Longrightarrow> U \<subseteq> U' \<Longrightarrow> posts_fit T' U' ps"
  "images_fit T P ims \<Longrightarrow> T \<subseteq> T' \<Longrightarrow> P \<subseteq> P' \<Longrightarrow> images_fit T' P' ims"
  "invitations_fit T js \<Longrightarrow> T \<subseteq> T' \<Longrightarrow> invitations_fit T' js"
  "imports_fit T U P ds \<Longrightarrow> T \<subseteq> T' \<Longrightarrow> U \<subseteq> U' \<Longrightarrow> P \<subseteq> P' \<Longrightarrow> imports_fit T' U' P' ds"
  "tokens_fit U ks \<Longrightarrow> U \<subseteq> U' \<Longrightarrow> tokens_fit U' ks"
  unfolding fit_defs by (auto split: option.splits)

text \<open>Fewer rows are no problem to the table itself.\<close>

lemma fit_del:
  "tenants_fit ts \<Longrightarrow> tenants_fit (del_rows P1 ts)"
  "members_fit T U ms \<Longrightarrow> members_fit T U (del_rows P2 ms)"
  "sessions_fit U ss \<Longrightarrow> sessions_fit U (del_rows P3 ss)"
  "posts_fit T U ps \<Longrightarrow> posts_fit T U (del_rows P4 ps)"
  "images_fit T Q ims \<Longrightarrow> images_fit T Q (del_rows P5 ims)"
  "invitations_fit T js \<Longrightarrow> invitations_fit T (del_rows P6 js)"
  "imports_fit T U Q ds \<Longrightarrow> imports_fit T U Q (del_rows P7 ds)"
  "flows_fit fs \<Longrightarrow> flows_fit (del_rows P8 fs)"
  unfolding fit_defs by (auto intro: distinct_map_del_rows)

section \<open>What keeps the schema\<close>

definition fits :: "(string \<Rightarrow> string) \<Rightarrow> db \<Rightarrow> db \<Rightarrow> bool" where
  "fits L d d' \<longleftrightarrow> (schema_ok L d \<longrightarrow> schema_ok L d')"

interpretation fits: db_preserved "fits L" for L
  by unfold_locales (simp_all add: fits_def)

lemma schema_members:
  "schema_ok L d \<Longrightarrow> members_fit (tids d) (uids d) ms \<Longrightarrow> schema_ok L (d\<lparr>memberships := ms\<rparr>)"
  by (simp add: schema_ok_def tids_def uids_def pids_def)

lemma fits_write:
  assumes "\<And>d x d'. schema_ok L d \<Longrightarrow> f d = Inr (x, d') \<Longrightarrow> schema_ok L d'"
  shows "keeps (tx_rel (fits L)) (write_stmt q f)"
  by (rule fits.keeps_write) (use assms in \<open>simp add: fits_def\<close>)

lemma map_upd_key [simp]: "(\<And>r. g (f r) = g r) \<Longrightarrow> map g (upd_rows P f rs) = map g rs"
  by (rule map_upd_rows) simp

lemma image_upd_key [simp]: "(\<And>r. g (f r) = g r) \<Longrightarrow> g ` set (upd_rows P f rs) = g ` set rs"
  by (metis map_upd_rows set_map)

lemma fresh_key: "(\<And>x. x \<in> A \<Longrightarrow> g x \<noteq> k) \<Longrightarrow> k \<notin> g ` A"
  by blast

subsection \<open>Accounts\<close>

lemma fits_users:
  assumes "tx_lower q = L"
  shows "keeps (tx_rel (fits L)) (create_user q uid email display pw)"
    "keeps (tx_rel (fits L)) (set_super_admin q uid on)"
proof -
  show "keeps (tx_rel (fits L)) (create_user q uid email display pw)"
    unfolding create_user_def
  proof (intro fits_write)
    fix d x d'
    assume ok: "schema_ok L d" and "(if \<exists>u \<in> set (users d). us_id u = uid \<or> tx_lower q (us_email u) = tx_lower q email
      then Inl unique_violation else Inr ((), d\<lparr>users := users d @
       [\<lparr>us_id = uid, us_email = email, us_password = pw, us_display = display, us_super = False,
         us_created = tx_now q\<rparr>]\<rparr>)) = Inr (x, d')"
    then have new: "\<forall>u \<in> set (users d). us_id u \<noteq> uid \<and> L (us_email u) \<noteq> L email"
      and d': "d' = d\<lparr>users := users d @ [\<lparr>us_id = uid, us_email = email, us_password = pw, us_display = display,
         us_super = False, us_created = tx_now q\<rparr>]\<rparr>"
      using assms by (auto split: if_splits)
    have "uids d \<subseteq> uids d'" "users_fit L (users d')"
      using ok new by (auto simp: d' schema_ok_def users_fit_def)
    with ok show "schema_ok L d'"
      by (auto simp: schema_ok_def d' intro: fit_mono)
  qed
  show "keeps (tx_rel (fits L)) (set_super_admin q uid on)"
    unfolding set_super_admin_def
    by (intro fits_write) (auto simp: schema_ok_def users_fit_def uids_def)
qed

lemma fits_members:
  "keeps (tx_rel (fits L)) (add_membership q t u role)"
  "keeps (tx_rel (fits L)) (add_membership_if_absent q t u role)"
  "keeps (tx_rel (fits L)) (set_membership_role q t u role)"
  "keeps (tx_rel (fits L)) (remove_membership q t u)"
  unfolding add_membership_def add_membership_if_absent_def set_membership_role_def remove_membership_def Let_def
  by (intro fits.tx.keeps_comp fits.keeps_affected fits_write;
      auto simp: schema_ok_def has_ids of_member_def members_fit_def filter_empty_conv
        intro!: distinct_map_del_rows fresh_key elim!: in_upd_rowsE split: if_splits)+

lemma fits_sessions:
  "keeps (tx_rel (fits L)) (insert_session q h u sc exp)"
  "keeps (tx_rel (fits L)) (delete_session_by_token_hash q h)"
  "keeps (tx_rel (fits L)) (set_session_scope q h sc)"
  unfolding insert_session_def delete_session_by_token_hash_def set_session_scope_def
  by (intro fits.tx.keeps_comp fits.keeps_affected fits_write;
      auto simp: schema_ok_def has_ids sessions_fit_def intro!: distinct_map_del_rows fresh_key elim!: in_upd_rowsE split: if_splits)+

lemma fits_invitations:
  "keeps (tx_rel (fits L)) (insert_invitation q iid t email role tok exp)"
  "keeps (tx_rel (fits L)) (consume_invitation_by_email q em)"
  "keeps (tx_rel (fits L)) (consume_pending_invitation q em tid)"
  "keeps (tx_rel (fits L)) (consume_pending_invitation_by_token q tk)"
  unfolding insert_invitation_def consume_invitation_by_email_def consume_pending_invitation_def
    consume_pending_invitation_by_token_def Let_def
  by (intro fits.tx.keeps_comp fits.keeps_row fits_write;
      auto simp: schema_ok_def has_ids invitations_fit_def intro!: fresh_key elim!: in_upd_rowsE split: if_splits list.splits)+

lemma fits_oauth:
  "keeps (tx_rel (fits L)) (insert_oauth_flow q f)"
  "keeps (tx_rel (fits L)) (consume_oauth_flow q st sh)"
  "keeps (tx_rel (fits L)) (insert_identity q p s u)"
  unfolding insert_oauth_flow_def consume_oauth_flow_def insert_identity_def
  by (intro fits.tx.keeps_comp fits.keeps_row fits_write;
      auto simp: schema_ok_def has_ids flows_fit_def identities_fit_def is_identity_def
        intro!: distinct_map_del_rows fresh_key split: if_splits)+

lemma fits_tokens: "keeps (tx_rel (fits L)) (upsert_oauth_token q t)"
proof -
  have key: "k_user (token_update t r) = k_user r" "k_provider (token_update t r) = k_provider r" for r
    by (simp_all add: token_update_def)
  have "tokens_fit U ks \<Longrightarrow> tokens_fit U (upd_rows P (token_update t) ks)" for U ks P
    by (auto simp: tokens_fit_def key elim!: in_upd_rowsE)
  moreover have "tokens_fit U (ks @ [t])"
    if "tokens_fit U ks" "\<forall>x \<in> set ks. \<not> of_token (k_user t) (k_provider t) x" "k_user t \<in> U" "known_provider (k_provider t)"
    for U ks
    using that by (auto simp: tokens_fit_def of_token_def)
  ultimately show ?thesis
    unfolding upsert_oauth_token_def
    by (intro fits_write) (auto simp: schema_ok_def has_ids split: if_splits)
qed

subsection \<open>Content\<close>

lemma fits_posts:
  "keeps (tx_rel (fits L)) (create_post q p)"
  "keeps (tx_rel (fits L)) (set_post_status q i st at html)"
proof -
  have row: "p_id (post_row q p) = p_id p" "p_tenant (post_row q p) = p_tenant p" "p_slug (post_row q p) = p_slug p"
    "p_author (post_row q p) = p_author p" "\<exists>m. p_metadata (post_row q p) = Some m"
    by (simp_all add: post_row_def)
  have "posts_fit T U (ps @ [post_row q p])"
    if "posts_fit T U ps" "\<forall>x \<in> set ps. p_id x \<noteq> p_id p \<and> (p_tenant x = p_tenant p \<longrightarrow> p_slug x \<noteq> p_slug p)"
      "p_tenant p \<in> T" "p_author p \<in> U" for T U ps
    using that by (auto simp: posts_fit_def row)
  then show "keeps (tx_rel (fits L)) (create_post q p)"
    unfolding create_post_def
    by (intro fits_write) (auto simp: schema_ok_def has_ids intro: fit_mono split: if_splits)
  have "posts_fit T U (upd_rows P (post_with_status q st at html) ps)" if "posts_fit T U ps" for T U ps P
    using that by (auto simp: posts_fit_def post_with_status_def elim!: in_upd_rowsE)
  moreover have "pids (d\<lparr>posts := upd_rows P (post_with_status q st at html) (posts d)\<rparr>) = pids d" for d P
    by (simp add: pids_def post_with_status_def)
  ultimately show "keeps (tx_rel (fits L)) (set_post_status q i st at html)"
    unfolding set_post_status_def
    by (intro fits.tx.keeps_comp fits.keeps_row fits_write) (auto simp: schema_ok_def split: option.splits)
qed

text \<open>A new slug that no other post of the tenant has.\<close>

lemma fits_update: "keeps (tx_rel (fits L)) (update_post q p)"
  unfolding update_post_def
proof (intro fits.tx.keeps_comp fits.keeps_row fits_write)
  fix d x d'
  let ?P = "post_at q (p_id p)" and ?f = "updated_post q p"
  assume ok: "schema_ok L d" and run: "(case find ?P (posts d) of None \<Rightarrow> Inr (None, d)
    | Some old \<Rightarrow> if \<exists>x \<in> set (posts d). p_id x \<noteq> p_id old \<and> p_tenant x = p_tenant old \<and> p_slug x = p_slug p
        then Inl unique_violation
        else Inr (Some (?f old), d\<lparr>posts := upd_rows ?P ?f (posts d)\<rparr>)) = Inr (x, d')"
  show "schema_ok L d'"
  proof (cases "find ?P (posts d)")
    case (Some old)
    then have old: "old \<in> set (posts d)" "?P old" using find_SomeD [OF Some] by simp_all
    have d': "d' = d\<lparr>posts := upd_rows ?P ?f (posts d)\<rparr>"
      and free: "\<forall>x \<in> set (posts d). p_id x \<noteq> p_id old \<longrightarrow> p_tenant x = p_tenant old \<longrightarrow> p_slug x \<noteq> p_slug p"
      using run Some by (auto split: if_splits)
    have posts: "posts_fit (tids d) (uids d) (posts d)" using ok by (simp add: schema_ok_def)
    then have ids: "distinct (map p_id (posts d))" by (simp add: posts_fit_def)
    have one: "?P x \<longleftrightarrow> x = old" if "x \<in> set (posts d)" for x
      using key_unique [OF ids that old(1)] old(2) that by (auto simp: post_at_def)
    have other: "p_id x \<noteq> p_id old" if "x \<in> set (posts d)" "x \<noteq> old" for x
      using key_unique [OF ids that(1) old(1)] that(2) by blast
    have "distinct (map (\<lambda>p. (p_tenant p, p_slug p)) (upd_rows ?P ?f (posts d)))"
      using posts ids
      by (intro distinct_upd_one [where r = old])
        (auto simp: posts_fit_def one updated_post_def distinct_map dest: other free [rule_format])
    then have "posts_fit (tids d) (uids d) (upd_rows ?P ?f (posts d))"
      using posts by (auto simp: posts_fit_def updated_post_def elim!: in_upd_rowsE)
    moreover have "pids d' = pids d" by (simp add: d' pids_def updated_post_def)
    ultimately show ?thesis using ok by (simp add: d' schema_ok_def)
  qed (use run ok in auto)
qed

text \<open>
  A post that goes takes its images and the references of imports with it, a tenant everything it has.
\<close>

lemma images_fit_sub:
  assumes "images_fit T P ims" "\<And>im. im \<in> set ims \<Longrightarrow> \<not> Q im \<Longrightarrow> (pi_tenant im, pi_post im) \<in> P \<Longrightarrow> pi_tenant im \<in> T' \<and> (pi_tenant im, pi_post im) \<in> P'"
  shows "images_fit T' P' (del_rows Q ims)"
  using assms by (auto simp: images_fit_def intro: distinct_map_del_rows)

lemma imports_fit_sub:
  assumes "imports_fit T U P ds"
    and "\<And>i. i \<in> set ds \<Longrightarrow> im_tenant i \<in> T'"
    and "\<And>i p. i \<in> set ds \<Longrightarrow> im_post i = Some p \<Longrightarrow> \<not> gone p \<Longrightarrow> (im_tenant i, p) \<in> P'"
  shows "imports_fit T' U P' (unlink_imports gone ds)"
  using assms by (auto simp: imports_fit_def unlink_imports_def elim!: in_upd_rowsE split: option.splits)

lemma fits_delete_post: "keeps (tx_rel (fits L)) (delete_post q pid)"
  unfolding delete_post_def Let_def
proof (intro fits_write)
  fix d d' :: db and x
  let ?gone = "\<lambda>i. \<exists>p \<in> set (posts d). post_at q pid p \<and> p_id p = i"
  assume ok: "schema_ok L d" and "Inr ((), d\<lparr>posts := del_rows (post_at q pid) (posts d),
      post_images := del_rows (\<lambda>im. ?gone (pi_post im)) (post_images d),
      doc_imports := unlink_imports ?gone (doc_imports d)\<rparr>) = (Inr (x, d') :: error + unit \<times> db)"
  then have sel: "posts d' = del_rows (post_at q pid) (posts d)" "tids d' = tids d" "uids d' = uids d"
    "post_images d' = del_rows (\<lambda>im. ?gone (pi_post im)) (post_images d)"
    "doc_imports d' = unlink_imports ?gone (doc_imports d)" "tenants d' = tenants d" "users d' = users d"
    "memberships d' = memberships d" "identities d' = identities d" "sessions d' = sessions d" "jobs d' = jobs d"
    "invitations d' = invitations d" "oauth_flows d' = oauth_flows d" "oauth_tokens d' = oauth_tokens d"
    by auto
  note parts = ok [unfolded schema_ok_def]
  have stay: "(t, i) \<in> pids d'" if "(t, i) \<in> pids d" "\<not> ?gone i" for t i
    using that by (auto simp: sel(1) pids_def)
  have "images_fit (tids d) (pids d') (post_images d')"
    unfolding sel
    by (rule images_fit_sub [of "tids d" "pids d"]) (use parts stay in \<open>auto simp: images_fit_def\<close>)
  moreover have "imports_fit (tids d) (uids d) (pids d') (doc_imports d')"
    unfolding sel
    by (rule imports_fit_sub [of "tids d" _ "pids d"]) (use parts stay in \<open>auto simp: imports_fit_def\<close>)
  ultimately show "schema_ok L d'"
    using parts by (simp add: schema_ok_def sel fit_del)
qed

lemma fits_delete_tenant: "keeps (tx_rel (fits L)) (delete_tenant q i)"
  unfolding delete_tenant_def Let_def
proof (intro fits_write)
  fix d d' :: db and x
  let ?gone = "\<lambda>j. \<exists>p \<in> set (posts d). p_tenant p = i \<and> p_id p = j"
  let ?d = "d\<lparr>tenants := del_rows (\<lambda>t. t_id t = i) (tenants d),
      memberships := del_rows (\<lambda>m. m_tenant m = i) (memberships d), posts := del_rows (\<lambda>p. p_tenant p = i) (posts d),
      post_images := del_rows (\<lambda>im. pi_tenant im = i \<or> ?gone (pi_post im)) (post_images d),
      invitations := del_rows (\<lambda>v. i_tenant v = i) (invitations d),
      doc_imports := unlink_imports ?gone (del_rows (\<lambda>m. im_tenant m = i) (doc_imports d))\<rparr>"
  assume ok: "schema_ok L d" and "(if \<exists>t \<in> set (tenants d). t_id t = i then Inr ((), ?d) else Inr ((), d)) =
      (Inr (x, d') :: error + unit \<times> db)"
  then have "d' = ?d \<or> d' = d" by (auto split: if_splits)
  moreover have "schema_ok L D" if "D = ?d" for D
  proof -
    from that have sel: "tenants D = del_rows (\<lambda>t. t_id t = i) (tenants d)" "users D = users d" "uids D = uids d"
      "memberships D = del_rows (\<lambda>m. m_tenant m = i) (memberships d)" "posts D = del_rows (\<lambda>p. p_tenant p = i) (posts d)"
      "post_images D = del_rows (\<lambda>im. pi_tenant im = i \<or> ?gone (pi_post im)) (post_images d)"
      "invitations D = del_rows (\<lambda>v. i_tenant v = i) (invitations d)"
      "doc_imports D = unlink_imports ?gone (del_rows (\<lambda>m. im_tenant m = i) (doc_imports d))"
      "identities D = identities d" "sessions D = sessions d" "jobs D = jobs d" "oauth_flows D = oauth_flows d"
      "oauth_tokens D = oauth_tokens d"
      by simp_all
    note parts = ok [unfolded schema_ok_def]
    have t: "t \<in> tids D" if "t \<in> tids d" "t \<noteq> i" for t using that by (auto simp: tids_def sel(1))
    have p: "(t, j) \<in> pids D" if "(t, j) \<in> pids d" "t \<noteq> i" for t j using that by (auto simp: pids_def sel(5))
    have "members_fit (tids D) (uids d) (memberships D)" "invitations_fit (tids D) (invitations D)"
      "posts_fit (tids D) (uids d) (posts D)"
      using parts t unfolding sel by (auto simp: members_fit_def invitations_fit_def posts_fit_def intro: distinct_map_del_rows)
    moreover have "images_fit (tids D) (pids D) (post_images D)"
      unfolding sel
      by (rule images_fit_sub [of "tids d" "pids d"]) (use parts t p in \<open>auto simp: images_fit_def\<close>)
    moreover have "imports_fit (tids D) (uids d) (pids D) (doc_imports D)"
      unfolding sel
      by (rule imports_fit_sub [of "tids d" _ "pids d"]) (use parts t p in \<open>auto simp: imports_fit_def intro: distinct_map_del_rows\<close>)
    ultimately show ?thesis using parts unfolding schema_ok_def by (simp add: sel fit_del)
  qed
  ultimately show "schema_ok L d'" using ok by blast
qed

lemma fits_tenants:
  "keeps (tx_rel (fits L)) (create_tenant q i slug name)"
  "keeps (tx_rel (fits L)) (bump_content_version q i)"
  "keeps (tx_rel (fits L)) (update_tenant q i name settings)"
proof -
  have "tenants_fit (ts @ [\<lparr>t_id = i, t_slug = slug, t_name = name, t_settings = s, t_version = 0, t_created = c, t_updated = u\<rparr>])"
    if "tenants_fit ts" "\<forall>t \<in> set ts. t_id t \<noteq> i \<and> t_slug t \<noteq> slug" "valid_slug slug" for ts s c u
    using that by (auto simp: tenants_fit_def max_bigint_def)
  then show "keeps (tx_rel (fits L)) (create_tenant q i slug name)"
    unfolding create_tenant_def
    by (intro fits_write) (auto simp: schema_ok_def intro: fit_mono split: if_splits)
  have up: "tenants_fit (upd_rows (\<lambda>t. t_id t = i) f ts)"
    if "tenants_fit ts" "find (\<lambda>t. t_id t = i) ts = Some t" "t_version t \<noteq> max_bigint"
      "\<And>t. t_id (f t) = t_id t \<and> t_slug (f t) = t_slug t \<and> t_version (f t) = t_version t + 1" for ts t f
  proof -
    have t: "t \<in> set ts" "t_id t = i" using find_SomeD [OF that(2)] by simp_all
    have "t_version x + 1 \<le> max_bigint" if x: "x \<in> set ts" "t_id x = i" for x
    proof -
      have "distinct (map t_id ts)" using \<open>tenants_fit ts\<close> by (simp add: tenants_fit_def)
      then have "x = t" by (rule key_unique) (use x t in simp_all)
      then show ?thesis using \<open>tenants_fit ts\<close> t(1) \<open>t_version t \<noteq> max_bigint\<close> by (auto simp: tenants_fit_def order.strict_iff_order)
    qed
    then show ?thesis using that(1,4) by (auto simp: tenants_fit_def elim!: in_upd_rowsE)
  qed
  have ids: "tids (d\<lparr>tenants := upd_rows P f (tenants d)\<rparr>) = tids d" if "\<And>t. t_id (f t) = t_id t" for d :: db and P f
    using that by (simp add: tids_def)
  show "keeps (tx_rel (fits L)) (bump_content_version q i)" "keeps (tx_rel (fits L)) (update_tenant q i name settings)"
    unfolding bump_content_version_def update_tenant_def
    by (intro fits.tx.keeps_comp fits.keeps_row fits_write;
        auto simp: schema_ok_def ids bumped_def tenant_with_def intro!: up split: option.splits if_splits)+
qed

lemma fits_images:
  "keeps (tx_rel (fits L)) (create_post_image q iid t p key url w h sz mime)"
  "keeps (tx_rel (fits L)) (insert_post_image_on_conflict q iid t p key url mime sz)"
  "keeps (tx_rel (fits L)) (delete_post_image q iid)"
  "keeps (tx_rel (fits L)) (update_post_image_variants q iid w h vs)"
proof -
  have new: "images_fit T P (ims @ [image_row q iid t p key url w h sz mime])"
    if "images_fit T P ims" "\<forall>x \<in> set ims. pi_id x \<noteq> iid" "\<forall>x \<in> set ims. pi_tenant x = t \<longrightarrow> pi_key x \<noteq> key" "t \<in> T" "(t, p) \<in> P"
    for T P ims url w h
    using that by (auto simp: images_fit_def image_row_def)
  then show "keeps (tx_rel (fits L)) (create_post_image q iid t p key url w h sz mime)"
    "keeps (tx_rel (fits L)) (insert_post_image_on_conflict q iid t p key url mime sz)"
    unfolding create_post_image_def insert_post_image_on_conflict_def
    by (intro fits_write; auto simp: schema_ok_def has_ids split: if_splits)+
  have "images_fit T P (upd_rows Q (\<lambda>im. im\<lparr>pi_width := w, pi_height := h, pi_variants := vs\<rparr>) ims)"
    if "images_fit T P ims" for T P Q ims
    using that by (auto simp: images_fit_def elim!: in_upd_rowsE)
  then show "keeps (tx_rel (fits L)) (delete_post_image q iid)" "keeps (tx_rel (fits L)) (update_post_image_variants q iid w h vs)"
    unfolding delete_post_image_def update_post_image_variants_def
    by (intro fits_write; auto simp: schema_ok_def fit_del)+
qed

lemma imports_fit_upd:
  assumes "imports_fit T U P ds" "\<And>i. im_id (f i) = im_id i \<and> im_tenant (f i) = im_tenant i \<and> im_user (f i) = im_user i"
    and "\<And>i p. i \<in> set ds \<Longrightarrow> Q i \<Longrightarrow> im_post (f i) = Some p \<Longrightarrow> im_post i = Some p \<or> (im_tenant i, p) \<in> P"
  shows "imports_fit T U P (upd_rows Q f ds)"
proof -
  have "(im_tenant i, p) \<in> P" if "i \<in> set ds" "Q i" "im_post (f i) = Some p" for i p
    using assms(1) assms(3) [OF that] that(1) by (auto simp: imports_fit_def)
  then show ?thesis using assms(1,2) by (auto simp: imports_fit_def elim!: in_upd_rowsE)
qed

lemma fits_imports:
  "keeps (tx_rel (fits L)) (create_import q iid t u pid fmt key)"
  "keeps (tx_rel (fits L)) (set_import_post_id q iid j)"
  "keeps (tx_rel (fits L)) (update_import q iid up)"
proof -
  show "keeps (tx_rel (fits L)) (create_import q iid t u pid fmt key)"
    unfolding create_import_def
    by (intro fits_write) (auto simp: schema_ok_def has_ids imports_fit_def intro!: fresh_key split: if_splits option.splits)
  show "keeps (tx_rel (fits L)) (set_import_post_id q iid j)" "keeps (tx_rel (fits L)) (update_import q iid up)"
    unfolding set_import_post_id_def update_import_def
    by (intro fits.tx.keeps_comp fits.keeps_affected fits_write;
        auto simp: schema_ok_def has_ids import_with_def coalesce_def intro!: imports_fit_upd split: if_splits option.splits)+
qed

end
