(* ===== verification/Integrity.thy ===== *)
theory Integrity
  imports Schema Server Limiter
begin

text \<open>
  Every operation of the server keeps the schema: the requests, the jobs, the statements of the workers
  and the seed; so every state that the program can bring about satisfies it.
\<close>

section \<open>The queue\<close>

lemma jobs_fit_keys: "jobs_fit js \<longleftrightarrow> distinct (map fst (map job_key js)) \<and>
    distinct (map snd (filter (\<lambda>k. snd (snd k) \<noteq> None) (map job_key js)))"
  by (simp add: jobs_fit_def job_key_def filter_map comp_def)

lemma jobs_fit_same: "jobs_fit js \<Longrightarrow> map job_key js' = map job_key js \<Longrightarrow> jobs_fit js'"
  by (simp add: jobs_fit_keys)

lemma fits_jobs_upd:
  assumes "\<And>j. job_key (f j) = job_key j"
  shows "fits L d (d\<lparr>jobs := upd_rows P f (jobs d)\<rparr>)"
  unfolding fits_def
proof
  assume ok: "schema_ok L d"
  have "map job_key (upd_rows P f (jobs d)) = map job_key (jobs d)" by (rule map_upd_rows) (rule assms)
  then have "jobs_fit (upd_rows P f (jobs d))"
    by (rule jobs_fit_same [rotated]) (use ok in \<open>simp add: schema_ok_def\<close>)
  with ok show "schema_ok L (d\<lparr>jobs := upd_rows P f (jobs d)\<rparr>)" by (simp add: schema_ok_def)
qed

lemma fits_queue:
  "fits L d (job_done now jid d)" "fits L d (mark_failed now jid msg d)" "fits L d (fail_job now jid msg d)"
  "fits L d (requeue_expired now d)" "fits L d (snd (claim now d))"
  by (auto simp: job_done_def mark_failed_def fail_job_def requeue_expired_def claim_def job_key_def fits.R_refl
      claimed_def requeued_def intro!: fits_jobs_upd split: option.split list.split)

lemma fits_sweep: "fits L d (drop_sessions now d)" "fits L d (drop_flows now d)" "fits L d (sweep now d)"
proof -
  show s: "fits L d (drop_sessions now d)" "fits L d (drop_flows now d)" for d
    by (auto simp: fits_def schema_ok_def drop_sessions_def drop_flows_def fit_del)
  show "fits L d (sweep now d)"
    unfolding sweep_def by (blast intro: s fits_queue(4) fits.R_trans)
qed

lemma fits_enqueue:
  "keeps (tx_rel (fits L)) (enqueue q jid kind key payload)"
  "keeps (tx_rel (fits L)) (enqueue_batch q kind ps)"
proof -
  have "jobs_fit (js @ [new_job q jid kind key payload])"
    if "jobs_fit js" "\<forall>j \<in> set js. \<not> same_job kind key j" "\<forall>j \<in> set js. j_id j \<noteq> jid" for js key
    using that by (auto simp: jobs_fit_def new_job_def same_job_def)
  then show "keeps (tx_rel (fits L)) (enqueue q jid kind key payload)"
    unfolding enqueue_def
    by (intro fits.tx.keeps_comp fits_write) (auto simp: schema_ok_def split: if_splits)
  have "jobs_fit (js @ map (\<lambda>(i, p). new_job q i kind None p) ps)"
    if "jobs_fit js" "distinct (map fst ps)" "\<forall>j \<in> set js. j_id j \<notin> set (map fst ps)" for js
  proof -
    have "map j_id (map (\<lambda>(i, p). new_job q i kind None p) ps) = map fst ps"
      "filter (\<lambda>j. j_dedupe j \<noteq> None) (map (\<lambda>(i, p). new_job q i kind None p) ps) = []"
      by (auto simp: new_job_def filter_empty_conv)
    then show ?thesis using that by (auto simp: jobs_fit_def simp del: map_map set_map) (auto simp: new_job_def)
  qed
  then show "keeps (tx_rel (fits L)) (enqueue_batch q kind ps)"
    unfolding enqueue_batch_def
    by (intro fits_write) (auto simp: schema_ok_def split: if_splits)
qed

section \<open>Services\<close>

lemma fits_reads:
  "keeps (tx_rel (fits L)) (get_post_by_id q i)" "keeps (tx_rel (fits L)) (list_post_summaries q st au)"
  "keeps (tx_rel (fits L)) (get_post_image_by_id q i)" "keeps (tx_rel (fits L)) (get_import_by_id q i)"
  "keeps (tx_rel (fits L)) (get_tenant q i)" "keeps (tx_rel (fits L)) (list_tenants q)"
  "keeps (tx_rel (fits L)) (list_tenant_members q i)" "keeps (tx_rel (fits L)) (get_user_by_email q em)"
  "keeps (tx_rel (fits L)) (has_pending_invitation q em)" "keeps (tx_rel (fits L)) (get_identity q p s)"
  "keeps (tx_rel (fits L)) (get_oauth_token_by_user q u p)"
  unfolding get_post_by_id_def list_post_summaries_def get_post_image_by_id_def get_import_by_id_def get_tenant_def
    list_tenants_def list_tenant_members_def get_user_by_email_def has_pending_invitation_def get_identity_def
    get_oauth_token_by_user_def
  by (intro fits.keeps_stmt)+

lemma fits_probe: "keeps (tx_rel (fits L)) (probe_slug q t base slug n)"
proof (induction q t base slug n rule: probe_slug.induct)
  case (1 q t base slug n)
  show ?case
    unfolding probe_slug.simps [of q t base slug n] slug_exists_def
    by (intro fits.keeps_stmt) (use 1 in auto)
qed

lemma fits_maybe: "keeps (tx_rel (fits L)) m \<Longrightarrow> keeps (tx_rel (fits L)) (maybe_row m)"
  unfolding maybe_row_def by (intro fits.keeps_stmt)

lemma fits_unique: "keeps (tx_rel (fits L)) (unique_slug E q t base)"
  unfolding unique_slug_def Let_def by (rule fits_probe)

lemma fits_purges:
  "keeps (tx_rel (fits L)) (purge q jid t p)"
  "keeps (tx_rel (fits L)) (purge_site q jid t v)"
  unfolding purge_def purge_site_def by (intro fits.keeps_stmt fits_tenants fits_enqueue)+

lemmas fits_stmt = fits.keeps_stmt fits_reads fits_maybe fits_unique fits_purges fits_members fits_sessions fits_invitations
  fits_oauth fits_tokens fits_posts fits_update fits_delete_post fits_delete_tenant fits_tenants fits_images fits_imports
  fits_enqueue

lemmas fits_act = fits.keeps_comp fits.keeps_scoped fits.keeps_scoped_ro fits_stmt

lemma fits_content:
  "keeps (fits L) (svc_create E cfg pid a inp)"
  "keeps (fits L) (svc_update E cfg jid a pid upd)"
  "keeps (fits L) (transition E cfg jid a pid st publishing)"
  "keeps (fits L) (svc_delete E a pid)"
  "keeps (fits L) (svc_get E a pid)"
  "keeps (fits L) (svc_list E a f)"
  "keeps (fits L) (media_delete E a iid)"
  "keeps (fits L) (confirm_act E C iid jid sc pid key sz mime)"
  "keeps (fits L) (load_import E a iid)"
  "keeps (fits L) (apply_link E a iid p)"
  unfolding svc_create_def svc_update_def transition_def svc_delete_def svc_get_def svc_list_def media_delete_def
    confirm_act_def confirm_def load_import_def apply_link_def Let_def case_prod_beta
  by (intro fits_act)+

lemma fits_import:
  "keeps (fits L) (import_start E exts put I iid oid jid a src)"
  "keeps (fits L) (import_get E a iid)"
  "keeps (fits L) (import_apply E I pid a iid)"
  unfolding import_start_def import_get_def import_apply_def apply_draft_def Let_def case_prod_beta
  by ((intro fits_act fits_content | simp split: source_kind.split option.split | intro conjI allI impI)+)

lemma fits_site:
  "keeps (fits L) (tenant_update_act E jid i name settings)"
  "keeps (fits L) (tenant_delete_act E jid i)"
  unfolding tenant_update_act_def tenant_delete_act_def by (intro fits_act)+

lemma fits_session:
  "keeps (fits L) (issue E raw uid ttl sc)"
  "keeps (fits L) (login E A raw em pw)"
  "keeps (fits L) (logout E tok)"
  unfolding login_def check_credentials_def issue_def logout_def Let_def
  by ((intro fits_act | simp split: option.split | intro conjI allI impI)+)

abbreviation lower_in :: "env \<Rightarrow> string \<Rightarrow> string" where
  "lower_in E \<equiv> to_lower (e_sql_lower E)"

lemma fits_create_user: "keeps (tx_rel (fits (lower_in E))) (create_user (tx_of E ro sc) uid em nm pw)"
  by (rule fits_users) simp

lemma fits_signup: "keeps (fits (lower_in E)) (signup E A salt uid em pw)"
  unfolding signup_def pending_invitation_def Let_def by (intro fits_act fits_create_user)

lemma fits_link: "keeps (tx_rel (fits L)) (link_identity_tx q uid p s)"
proof -
  have "keeps (tx_rel (fits L)) (\<lambda>x. case get_identity q p s x of
      (Inr i, x) \<Rightarrow> if id_user i = uid then (Inr (), x) else (Inl e1, x) | (Inl _, x) \<Rightarrow> (Inl e2, x))" for e1 e2
    using fits_reads(10) [of L q p s] by (auto simp: keeps_def split: prod.split sum.split) (metis snd_conv)+
  then show ?thesis
    unfolding link_identity_tx_def by (intro fits_act) auto
qed

lemma fits_sign_in:
  "keeps (fits L) (oauth_start E X alike P st verifier fid name redirect tok extra)"
  "keeps (fits L) (store_oauth_token E X P n1 n2 uid nm p t)"
  "keeps (fits (lower_in E)) (resolve_identity E uid prov c)"
  unfolding oauth_start_def store_oauth_token_def resolve_identity_def Let_def
  by (intro fits_act fits_link fits_create_user | simp split: option.split prod.split | intro conjI allI impI)+

lemma fits_callback: "keeps (fits (lower_in E)) (oauth_callback E X P uid n1 n2 raw st code tok)"
  unfolding oauth_callback_def callback_rest_def
  by (intro fits_act fits_sign_in fits_session | simp split: option.split sum.split | intro conjI allI impI)+

section \<open>Handlers\<close>

lemma fits_accounts:
  "keeps (fits (lower_in E)) (handle_signup S E M c)" "keeps (fits (lower_in E)) (handle_oauth_callback S E M c)"
  "keeps (fits L) (handle_login S E M c)" "keeps (fits L) (handle_oauth_start S E M c)"
  "keeps (fits L) (handle_logout S E M c)" "keeps (fits L) (handle_me S E M c)" "keeps (fits L) (handle_set_tenant S E M c)"
proof -
  show "keeps (fits L) (handle_logout S E M c)"
    using fits_session(3) by (simp add: handle_logout_def keeps_def)
  have "keeps (fits L) (membership_views u)" for u by (simp add: membership_views_def keeps_def fits.R_refl)
  then show "keeps (fits L) (handle_me S E M c)"
    unfolding handle_me_def Let_def by (intro fits.keeps_answer)
  have "keeps (fits L) (\<lambda>d. (if p d then say r else answer (scoped_rw E unscoped (\<lambda>q. set_session_scope q h sc)) k) d)" for p r h sc k
    using fits.keeps_say fits.keeps_answer [OF fits.keeps_scoped [OF fits_sessions(3)]] by (simp add: keeps_def)
  then show "keeps (fits L) (handle_set_tenant S E M c)"
    unfolding handle_set_tenant_def Let_def if_distribR [symmetric]
    by (intro fits.keeps_body fits.keeps_if fits.keeps_say) (simp add: if_distribR)
qed (unfold handle_signup_def handle_login_def handle_oauth_start_def handle_oauth_callback_def case_prod_beta,
    (intro fits.keeps_handler fits.keeps_if fits.keeps_option fits_signup fits_callback fits_session fits_sign_in)+)

lemma fits_editing:
  "keeps (fits L) (handle_posts_list S E M c)" "keeps (fits L) (handle_posts_get S E M c)"
  "keeps (fits L) (handle_posts_html S E M c)" "keeps (fits L) (handle_posts_create S E M c)"
  "keeps (fits L) (handle_posts_update S E M c)" "keeps (fits L) (handle_posts_delete S E M c)"
  "keeps (fits L) (handle_posts_publish S E M c)" "keeps (fits L) (handle_posts_unpublish S E M c)"
  "keeps (fits L) (handle_media_presign S E M c)" "keeps (fits L) (handle_media_confirm S E M c)"
  "keeps (fits L) (handle_media_delete S E M c)" "keeps (fits L) (handle_imports_status S E M c)"
  "keeps (fits L) (handle_imports_apply S E M c)"
  unfolding handle_posts_list_def handle_posts_get_def handle_posts_html_def posts_handlers handle_media_presign_def
    handle_media_confirm_def handle_media_delete_def handle_imports_status_def svc_publish_def svc_unpublish_def
    Let_def case_prod_beta
  by (intro fits.keeps_handler fits.keeps_if fits.keeps_lift fits_content fits_import)+

lemma fits_upload: "keeps (fits L) (handle_imports_start S E M c)"
  unfolding handle_imports_start_def Let_def
  by (intro fits.keeps_handler fits.keeps_if)
    (auto split: upload.split intro!: fits.keeps_handler fits.keeps_if fits_import)

lemma fits_managing:
  "keeps (fits L) (handle_members_list S E M c)" "keeps (fits L) (handle_members_invite S E M c)"
  "keeps (fits L) (handle_members_set_role S E M c)" "keeps (fits L) (handle_members_remove S E M c)"
  "keeps (fits L) (handle_tenants_list S E M c)" "keeps (fits L) (handle_tenants_create S E M c)"
  "keeps (fits L) (handle_tenants_get S E M c)" "keeps (fits L) (handle_tenants_update S E M c)"
  "keeps (fits L) (handle_tenants_delete S E M c)"
  unfolding handle_members_list_def handle_members_invite_def handle_members_set_role_def handle_members_remove_def
    handle_tenants_list_def handle_tenants_create_def handle_tenants_get_def handle_tenants_update_def
    handle_tenants_delete_def Let_def case_prod_beta
  by (intro fits.keeps_handler fits.keeps_if fits.keeps_option fits.keeps_scoped fits.keeps_scoped_ro fits_stmt fits_site)+

lemma handler_fits: "handler_of ep = Some h \<Longrightarrow> keeps (fits (lower_in E)) (h S E M c)"
  by (cases ep) (auto simp: fits_accounts fits_editing fits_upload fits_managing)

section \<open>Requests\<close>

text \<open>Whatever the route, the wrappers leave the database alone or run one handler on it.\<close>

definition handled :: "server \<Rightarrow> env \<Rightarrow> mint \<Rightarrow> db \<Rightarrow> db \<Rightarrow> bool" where
  "handled S E M d d' \<longleftrightarrow> d' = d \<or> (\<exists>ep h c rep. handler_of ep = Some h \<and> h S E M c d = (rep, d'))"

lemma limited_handled:
  assumes "limited K E key k s = (rep, s')" "\<And>x x' rep'. k x = (rep', x') \<Longrightarrow> handled S E M (st_db x) (st_db x')"
  shows "handled S E M (st_db s) (st_db s')"
  using assms(1) by (auto simp: limited_def handled_def dest!: assms(2) [unfolded handled_def] split: prod.splits if_splits)

lemma cors_handled:
  assumes "cors S r k s = (rep, s')" "\<And>x x' rep'. k x = (rep', x') \<Longrightarrow> handled S E M (st_db x) (st_db x')"
  shows "handled S E M (st_db s) (st_db s')"
  using assms(1) by (auto simp: cors_def Let_def handled_def dest!: assms(2) [unfolded handled_def] split: prod.splits if_splits)

lemma endpoint_handled:
  assumes "run_endpoint S E M ep c s = (rep, s')"
  shows "handled S E M (st_db s) (st_db s')"
proof (cases "handler_of ep")
  case None
  then show ?thesis using assms
    by (auto simp: run_endpoint_def run_public_def handled_def Let_def split: if_splits prod.splits)
next
  case (Some h)
  then show ?thesis using assms run_handler [OF Some]
    by (auto simp: run_endpoint_def handled_def Let_def split: prod.splits)
qed

lemma through_handled:
  assumes "through K S E M ep ws seen c s = (rep, s')"
  shows "handled S E M (st_db s) (st_db s')"
  using assms
proof (induction ws arbitrary: seen c s rep s')
  case Nil
  then show ?case by (auto intro: endpoint_handled)
next
  case (Cons w ws)
  have same: "handled S E M (st_db x) (st_db x)" for x :: "'a site" by (simp add: handled_def)
  show ?case
  proof (cases w)
    case Base
    with Cons show ?thesis by (auto elim: cors_handled)
  next
    case IpRate
    with Cons show ?thesis by (auto elim: limited_handled)
  next
    case AuthRate
    with Cons show ?thesis by (auto simp: Let_def elim!: limited_handled split: if_splits)
  next
    case CaptureBody
    with Cons same show ?thesis by (auto split: payload.splits)
  next
    case Session
    with Cons same show ?thesis by (auto simp: Let_def split: option.splits)
  qed
qed

lemma serve_handled: "serve K S E M r s = (rep, s') \<Longrightarrow> handled S E M (st_db s) (st_db s')"
  by (auto simp: serve_def handled_def split: option.splits prod.splits if_splits
      dest!: through_handled [unfolded handled_def])

lemma serve_fits: "serve K S E M r s = (rep, s') \<Longrightarrow> fits (lower_in E) (st_db s) (st_db s')"
  by (auto simp: handled_def fits.R_refl dest!: serve_handled intro: keepsD [OF handler_fits])

section \<open>Jobs and the seed\<close>

lemma fits_google:
  assumes "google_of E B = Some x"
  shows "keeps (fits L) (x u drive)"
proof -
  have "keeps (fits L) (get_google_token E X P n1 n2 u drive)" for X P n1 n2
    unfolding get_google_token_def
    by (intro fits_act fits.keeps_sum fits_sign_in; simp split: list.split; intro conjI allI impI fits_act fits.keeps_sum fits_sign_in)
  then show ?thesis using assms by (auto simp: google_of_def)
qed

lemma handler_fit: "job_handlers E B k = Some h \<Longrightarrow> keeps (fits L) (h t dat)"
  by (auto dest!: job_handlers_cases simp: purge_handler_def
      intro: fits.keeps_ret fits.keeps_import_handler fits_google fits_imports fits.keeps_variants_handler fits_images)

lemma fits_run: "fits L d (run_registered E B now j d)"
proof -
  have rest: "fits L d1 (run_job now known j out d1)" for known out d1
    by (auto simp: run_job_def intro: fits_queue split: job_payload.split option.split)
  obtain d1 out where run: "run_registered E B now j d = run_job now (registered (job_handlers E B)) j out d1"
    and d1: "d1 = d \<or> (\<exists>t dat h r. j_payload j = JobPayload t dat \<and> job_handlers E B (j_kind j) = Some h \<and> h t dat d = (r, d1))"
    using run_registered_run [of E B now j d] by metis
  have "fits L d d1" using d1 by (auto simp: fits.R_refl intro: keepsD [OF handler_fit])
  then show ?thesis unfolding run by (rule fits.R_trans [OF _ rest])
qed

lemma members_fit_put:
  "members_fit T U ms \<Longrightarrow> fst r \<in> T \<Longrightarrow> snd r \<in> U \<Longrightarrow> known_role role \<Longrightarrow> members_fit T U (put_membership role r ms)"
  by (cases r) (auto simp: members_fit_def put_membership_def of_member_def elim!: in_upd_rowsE)

lemma members_fit_puts:
  "members_fit T U ms \<Longrightarrow> \<forall>r \<in> set rs. fst r \<in> T \<and> snd r \<in> U \<Longrightarrow> rs \<noteq> [] \<longrightarrow> known_role role \<Longrightarrow>
    members_fit T U (foldl (\<lambda>ms r. put_membership role r ms) ms rs)"
  by (induction rs arbitrary: ms) (auto intro: members_fit_put)

lemma fits_seed_membership: "keeps (tx_rel (fits L)) (seed_membership q slug em role)"
  unfolding seed_membership_def
proof (rule fits_write)
  fix d d' :: db and x
  let ?rows = "[(t_id t, us_id u). t \<leftarrow> tenants d, t_slug t = slug, u \<leftarrow> users d, tx_lower q (us_email u) = tx_lower q em]"
  assume ok: "schema_ok L d"
    and run: "(let rows = ?rows in if rows \<noteq> [] \<and> \<not> known_role role then Inl check_violation
      else Inr ((), d\<lparr>memberships := foldl (\<lambda>ms r. put_membership role r ms) (memberships d) rows\<rparr>)) = Inr (x, d')"
  have rows: "\<forall>r \<in> set ?rows. fst r \<in> tids d \<and> snd r \<in> uids d" by (auto simp: tids_def uids_def)
  have known: "?rows \<noteq> [] \<longrightarrow> known_role role"
    and d': "d' = d\<lparr>memberships := foldl (\<lambda>ms r. put_membership role r ms) (memberships d) ?rows\<rparr>"
    using run unfolding Let_def by (simp_all only: split: if_split_asm) blast+
  show "schema_ok L d'" unfolding d'
    by (rule schema_members [OF ok members_fit_puts [OF _ rows known]]) (use ok in \<open>simp add: schema_ok_def\<close>)
qed

lemma fits_seed: "keeps (fits (lower_in E)) (seed_run E A salt uid tid V)"
proof -
  have user: "keeps (tx_rel (fits (tx_lower q))) (seed_user q uid em hash super)" for q em hash super
  proof -
    have "users_fit (tx_lower q) (upd_rows P (\<lambda>u. u\<lparr>us_password := Some hash, us_super := super, us_display := nm\<rparr>) us)"
      if "users_fit (tx_lower q) us" for P us nm
      using that by (auto simp: users_fit_def)
    moreover have "uids (d\<lparr>users := upd_rows P (\<lambda>u. u\<lparr>us_password := Some hash, us_super := super, us_display := nm\<rparr>) (users d)\<rparr>) = uids d"
      for d P nm by (simp add: uids_def)
    moreover have "users_fit (tx_lower q) (us @ [u])"
      if "users_fit (tx_lower q) us" "\<forall>x \<in> set us. us_id x \<noteq> us_id u" "\<forall>x \<in> set us. tx_lower q (us_email x) \<noteq> tx_lower q (us_email u)" for us u
      using that by (auto simp: users_fit_def)
    ultimately show ?thesis
      unfolding seed_user_def Let_def
      by (intro fits_write) (auto simp: schema_ok_def intro: fit_mono split: if_splits)
  qed
  have site: "keeps (tx_rel (fits L)) (seed_tenant q tid slug nm)" for L q slug nm
  proof -
    have "tenants_fit (ts @ [\<lparr>t_id = tid, t_slug = slug, t_name = nm, t_settings = s, t_version = 0, t_created = c, t_updated = u\<rparr>])"
      if "tenants_fit ts" "\<forall>t \<in> set ts. t_slug t \<noteq> slug" "\<forall>t \<in> set ts. t_id t \<noteq> tid" "valid_slug slug" for ts s c u
      using that by (auto simp: tenants_fit_def max_bigint_def)
    then show ?thesis
      unfolding seed_tenant_def
      by (intro fits_write) (auto simp: schema_ok_def intro: fit_mono split: if_splits)
  qed
  have "keeps (tx_rel (fits (lower_in E))) (seed_user (tx_of E ro sc) uid em hash super)" for ro sc em hash super
    using user [of "tx_of E ro sc"] by simp
  then show ?thesis
    unfolding seed_run_def seed_act_def Let_def by (intro fits_act site fits_seed_membership)
qed

section \<open>The whole program\<close>

text \<open>
  What changes the state of a server and its database: requests, the statements of the workers (a claim, a
  run, which may be of any job, and the three of a sweep), the janitor of the limiter and the seed command. \<open>L\<close> is the
  database's \<open>lower\<close>; all else differs from step to step.
\<close>

inductive sys_step :: "(string \<Rightarrow> string) \<Rightarrow> 'b site \<Rightarrow> 'b site \<Rightarrow> bool" for L where
  sy_request: "lower_in E = L \<Longrightarrow> serve K S E M r s = (rep, s') \<Longrightarrow> sys_step L s s'"
| sy_claim: "sys_step L s (s\<lparr>st_db := snd (claim now (st_db s))\<rparr>)"
| sy_run: "lower_in E = L \<Longrightarrow> sys_step L s (s\<lparr>st_db := run_registered E B now j (st_db s)\<rparr>)"
| sy_requeue: "sys_step L s (s\<lparr>st_db := requeue_expired now (st_db s)\<rparr>)"
| sy_sessions: "sys_step L s (s\<lparr>st_db := drop_sessions now (st_db s)\<rparr>)"
| sy_flows: "sys_step L s (s\<lparr>st_db := drop_flows now (st_db s)\<rparr>)"
| sy_janitor: "sys_step L s (s\<lparr>st_limits := janitor now (st_limits s)\<rparr>)"
| sy_seed: "lower_in E = L \<Longrightarrow> sys_step L s (s\<lparr>st_db := snd (seed_run E A salt uid tid V (st_db s))\<rparr>)"

definition sys_start :: "'b site \<Rightarrow> bool" where
  "sys_start s \<longleftrightarrow> st_db s = empty_db"

lemma sys_step_fits: "sys_step L s s' \<Longrightarrow> fits L (st_db s) (st_db s')"
proof (induction rule: sys_step.induct)
  case (sy_request E K S M r s rep s')
  then show ?case using serve_fits by blast
next
  case (sy_seed E s A salt uid tid V)
  then show ?case using fits_seed by (auto simp: keeps_def)
qed (simp_all add: fits_queue fits_sweep fits_run fits.R_refl)

interpretation integrity: invariant_system sys_start "sys_step L" "\<lambda>s. schema_ok L (st_db s)" for L
  by unfold_locales (auto simp: sys_start_def schema_empty fits_def dest!: sys_step_fits)


section \<open>A seeded server\<close>

definition sample_environ :: environ where
  "sample_environ = [''DATABASE_URL'' \<mapsto> ''postgres:'', ''SEED_EMAIL'' \<mapsto> ''a@example.com'', ''SEED_PASSWORD'' \<mapsto> ''secret'']"

definition sample_seeded :: "unit site" where
  "sample_seeded = \<lparr>st_db = snd (seed_run sample_env sample_hasher ''salt'' 7 8 sample_environ empty_db),
     st_limits = (\<lambda>k. None), st_cache = resolver_new 10\<rparr>"

lemma sample_seeded_reachable: "reachable sys_start (sys_step (lower_in sample_env)) sample_seeded"
proof -
  let ?s = "\<lparr>st_db = empty_db, st_limits = (\<lambda>k. None), st_cache = resolver_new 10\<rparr> :: unit site"
  have "reachable sys_start (sys_step (lower_in sample_env)) ?s"
    by (rule reach_start) (simp add: sys_start_def)
  moreover have "sys_step (lower_in sample_env) ?s (?s\<lparr>st_db :=
      snd (seed_run sample_env sample_hasher ''salt'' 7 8 sample_environ (st_db ?s))\<rparr>)"
    by (rule sy_seed) simp
  ultimately show ?thesis unfolding sample_seeded_def by (simp add: reach_step)
qed

lemma sample_seed:
  "seed_act E 7 8 em h super slug nm ''owner'' empty_db = (Inr (), empty_db
     \<lparr>users := [\<lparr>us_id = 7, us_email = em, us_password = Some h, us_display = display_name em, us_super = super, us_created = e_pgnow E\<rparr>],
      tenants := [\<lparr>t_id = 8, t_slug = slug, t_name = nm, t_settings = JObj [], t_version = 0, t_created = e_pgnow E, t_updated = e_pgnow E\<rparr>],
      memberships := [\<lparr>m_tenant = 8, m_user = 7, m_role = ''owner''\<rparr>]\<rparr>)"
  if "valid_slug slug"
  using that
  by (simp add: seed_act_def scoped_rw_def run_tx_def and_then_def seed_user_def seed_tenant_def seed_membership_def Let_def
      put_membership_def of_member_def known_role_def empty_db_def)

lemma sample_seeded_db:
  "map t_slug (tenants (st_db sample_seeded)) = [''demo'']"
  "map (\<lambda>m. (m_tenant m, m_user m)) (memberships (st_db sample_seeded)) = [(8, 7)]"
proof -
  have "valid_slug ''demo''" by code_simp
  moreover have "trim_space ''a@example.com'' = ''a@example.com''"
    by (intro trim_space_visible) (simp add: visible_char_def)
  moreover have "lower_of sample_env ''a@example.com'' \<noteq> []" by code_simp
  ultimately have "st_db sample_seeded = snd (seed_act sample_env 7 8 (lower_of sample_env ''a@example.com'')
      (hash_password sample_hasher ''salt'' ''secret'') True ''demo'' ''Demo Blog'' ''owner'' empty_db)"
    by (simp add: sample_seeded_def seed_run_def sample_environ_def getenv_def str_env_def Let_def fail_def)
  then show "map t_slug (tenants (st_db sample_seeded)) = [''demo'']"
    "map (\<lambda>m. (m_tenant m, m_user m)) (memberships (st_db sample_seeded)) = [(8, 7)]"
    using sample_seed [OF \<open>valid_slug ''demo''\<close>] by (simp_all add: empty_db_def)
qed


end
