(* ===== verification/Publishing.thy ===== *)
theory Publishing
  imports Integrity
begin

text \<open>
  From the editor to the reader: what a request to publish or unpublish a post means for the next public
  request for it, through the routes, the services, the database and the cache of slugs.
\<close>

section \<open>A guarded request that is answered\<close>

lemma cors_passes:
  assumes "cors S r k s = (rep, s')" "hr_method r \<noteq> ''OPTIONS''"
  obtains rep' where "k s = (rep', s')" "rp_status rep' = rp_status rep" "rp_out rep' = rp_out rep"
  using assms by (auto simp: cors_def Let_def split: if_splits prod.splits)

lemma limited_passes:
  assumes "limited K E key k s = (rep, s')" "rp_status rep \<noteq> 429"
  obtains m where "k (s\<lparr>st_limits := m\<rparr>) = (rep, s')"
  using assms by (auto simp: limited_def write_error_def reply_of_def split: prod.splits if_splits)

text \<open>A reply of 200 from a guarded route is the handler's, for the actor of the session.\<close>

lemma serve_answer:
  assumes "serve K S E M r s = (rep, s')" "route_of r = Some (m, ps, ws, ep)" "\<not> open_endpoint ep" "rp_status rep = 200"
  obtains h c a where "handler_of ep = Some h" "cx_actor c = a" "cx_request c = r"
    "authenticate E (session_token (sv_cookie S) r) (st_db s) = Some a"
    "st_db s' = snd (h S E M c (st_db s))" "rp_out rep = rp_out (fst (h S E M c (st_db s)))"
    "rp_status (fst (h S E M c (st_db s))) = 200" "st_cache s' = st_cache s"
proof -
  note rt = route_ofD [OF assms(2)]
  have get: "hr_method r \<noteq> ''OPTIONS''" using rt(2) routes_methods [OF rt(1)] by (auto simp: on_route_def)
  from routes_guarded [OF rt(1) assms(3)] obtain h where h: "handler_of ep = Some h"
    and ws: "ws = [Base, Session] \<or> ws = [Base, IpRate, Session]" by auto
  define c where "c = bare_call r (case match_path ps (hr_path r) of None \<Rightarrow> [] | Some vs \<Rightarrow> vs)"
  have c: "cx_request c = r" by (simp add: c_def bare_call_def)
  have run: "through K S E M ep ws None c s = (rep, s')" using assms(1,2) by (simp add: serve_def c_def)
  have "\<exists>x rep'. through K S E M ep [Session] None c x = (rep', s') \<and> rp_status rep' = 200 \<and> rp_out rep' = rp_out rep \<and>
      st_db x = st_db s \<and> st_cache x = st_cache s"
    using ws
  proof
    assume "ws = [Base, Session]"
    with run c have "cors S r (through K S E M ep [Session] None c) s = (rep, s')" by simp
    then show ?thesis using get by (rule cors_passes) (use assms(4) in auto)
  next
    assume "ws = [Base, IpRate, Session]"
    with run c have "cors S r (limited K E (''mutation|'' @ client_ip r) (through K S E M ep [Session] None c)) s = (rep, s')"
      by (simp only: through.simps through_limited)
    then obtain rep' where l: "limited K E (''mutation|'' @ client_ip r) (through K S E M ep [Session] None c) s = (rep', s')"
        "rp_status rep' = rp_status rep" "rp_out rep' = rp_out rep"
      using get by (rule cors_passes)
    have "rp_status rep' \<noteq> 429" using l(2) assms(4) by simp
    with l(1) obtain m where "through K S E M ep [Session] None c (s\<lparr>st_limits := m\<rparr>) = (rep', s')" by (rule limited_passes)
    then show ?thesis using l(2,3) assms(4) by (intro exI [of _ "s\<lparr>st_limits := m\<rparr>"] exI [of _ rep']) simp
  qed
  then obtain x rep' where x: "through K S E M ep [Session] None c x = (rep', s')" "rp_status rep' = 200" "rp_out rep' = rp_out rep"
    "st_db x = st_db s" "st_cache x = st_cache s" by blast
  let ?tok = "session_token (sv_cookie S) r"
  from x(1,2) c obtain a where a: "authenticate E ?tok (st_db x) = Some a"
    by (auto simp: Let_def write_error_def reply_of_def split: option.splits)
  then have "rep' = fst (h S E M (c\<lparr>cx_actor := a, cx_token := ?tok\<rparr>) (st_db x)) \<and>
      s' = x\<lparr>st_db := snd (h S E M (c\<lparr>cx_actor := a, cx_token := ?tok\<rparr>) (st_db x))\<rparr>"
    using x(1) c by (simp add: Let_def run_handler [OF h])
  then show ?thesis using that [OF h, of "c\<lparr>cx_actor := a, cx_token := ?tok\<rparr>" a] a x c by simp
qed

section \<open>The public route of a post\<close>

definition asks_for :: "request \<Rightarrow> string \<Rightarrow> string \<Rightarrow> bool" where
  "asks_for r site slug \<longleftrightarrow> hr_method r = ''GET'' \<and> hr_path r = [''public'', site, ''posts'', slug] \<and> hr_if_none_match r = []"

lemma public_route:
  assumes "asks_for r site slug" "site \<noteq> []" "slug \<noteq> []"
  shows "route_of r = Some (''GET'', [Lit ''public'', Val, Lit ''posts'', Val], [Base], PubGet)"
  using assms by (simp add: asks_for_def route_of_def routes_def public_routes_def on_route_def)

text \<open>The cached tenant of a slug is the given one, or there is none and the database is asked.\<close>

definition cache_agrees :: "time \<Rightarrow> string \<Rightarrow> uuid \<Rightarrow> resolver \<Rightarrow> bool" where
  "cache_agrees now slug t rv \<longleftrightarrow> (case cached now slug rv of None \<Rightarrow> True | Some x \<Rightarrow> fst x = t)"

lemma resolves:
  assumes "cache_agrees now slug t rv" "valid_slug slug" "b \<in> set (tenants d)" "t_id b = t" "t_slug b = slug"
    and "distinct (map t_slug (tenants d))"
  shows "\<exists>v rv'. resolve_slug E now now2 slug d rv = (Inr (t, v), rv')"
proof -
  have "find (\<lambda>x. t_slug x = slug) (tenants d) = Some b"
    using assms(3,5) key_unique [OF assms(6)] by (intro find_one) auto
  then have "lookup_slug E slug d = Inr (t, t_version b)"
    using assms(4) by (simp add: lookup_slug_def scoped_def run_tx_def tenant_by_slug_def and_then_def)
  then show ?thesis using assms(1,2) by (auto simp: resolve_slug_def cache_agrees_def split: option.splits)
qed

lemma public_get:
  assumes "asks_for r (t_slug b) slug" "slug \<noteq> []" "b \<in> set (tenants (st_db s))" "tenants_fit (tenants (st_db s))"
    and "cache_agrees (e_now E) (t_slug b) (t_id b) (st_cache s)"
    and "fst (get_tenant_post E (sv_pub S) [] slug (t_id b) (st_db s)) = Inr resp"
  shows "rp_status (fst (serve K S E M r s)) = rs_status resp \<and> rp_out (fst (serve K S E M r s)) = PublicOut resp"
proof -
  have fit: "valid_slug (t_slug b)" "distinct (map t_slug (tenants (st_db s)))"
    using assms(3,4) by (auto simp: tenants_fit_def)
  then have "t_slug b \<noteq> []" by auto
  note route = public_route [OF assms(1) this assms(2)]
  obtain v rv where "resolve_slug E (e_now E) (e_now E) (t_slug b) (st_db s) (st_cache s) = (Inr (t_id b, v), rv)"
    using resolves [OF assms(5) fit(1) assms(3) refl refl fit(2)] by blast
  then have "api_get E (e_now E) (e_now E) (sv_pub S) [] (t_slug b) slug (st_db s) (st_cache s) = (Inr resp, rv)"
    using assms(6) by (simp add: api_get_def with_tenant_def)
  then show ?thesis
    using assms(1) route \<open>t_slug b \<noteq> []\<close> assms(2)
    by (auto simp: serve_def asks_for_def bare_call_def run_endpoint_def run_public_def pub_resp_def reply_of_def
        cors_def Let_def)
qed

text \<open>A slug without a published post has no page.\<close>

lemma no_post_no_page:
  assumes "\<forall>p \<in> set (posts d). p_tenant p = t \<longrightarrow> p_slug p = slug \<longrightarrow> p_status p \<noteq> PostPublished" "slug \<noteq> []"
  shows "fst (get_tenant_post E a [] slug t d) = Inr (error_response 404 ''post not found'')"
proof -
  have "find (\<lambda>p. published_at_slug q t slug p \<and> has_user d (p_author p)) (posts d) = None" for q
    using assms(1) by (auto simp: find_None_iff published_at_slug_def)
  then show ?thesis
    using assms(2) by (simp add: get_tenant_post_def or_not_found_def handle_def and_then_def scoped_def run_tx_def get_query_def ret_def)
qed

section \<open>What a transition leaves behind\<close>

lemma transition_row:
  assumes "transition E cfg jid a pid st publishing d = (Inr p, d')" "distinct (map p_id (posts d))"
  shows "p \<in> set (posts d')" "p_status p = st" "p_published p = (if publishing then Some (e_now E) else None)"
    "render E cfg (p_markdown p) (p_metadata p) = Inr (p_html p)"
proof -
  from transition_effect [OF assms(1)] obtain old html f where old: "find (post_at (rw_tx E a) pid) (posts d) = Some old"
    "render E cfg (p_markdown old) (p_metadata old) = Inr html" "f old = restated E st publishing html old" "p = f old"
    "runs (purge (rw_tx E a) jid (tenant_of_actor a) p) (row_becomes (rw_tx E a) pid f d) () d'" by metis
  have "posts d' = upd_rows (post_at (rw_tx E a) pid) f (posts d)"
    using purge_posts [OF old(5)] by (simp add: row_becomes_def)
  moreover have "old \<in> set (posts d)" "post_at (rw_tx E a) pid old" using find_SomeD [OF old(1)] by simp_all
  ultimately show "p \<in> set (posts d')" using old(4) by (auto intro: in_upd_rows_changed)
  show "p_status p = st" "p_published p = (if publishing then Some (e_now E) else None)"
    "render E cfg (p_markdown p) (p_metadata p) = Inr (p_html p)"
    using old by (simp_all add: restated_def)
qed

lemma published_answer:
  assumes "serve K S E M r s = (rep, s')" "route_of r = Some (m, ps, ws, ep)" "rp_status rep = 200"
    and "ep = PostsPublish \<and> st = PostPublished \<and> publishing \<or> ep = PostsUnpublish \<and> st = PostDraft \<and> \<not> publishing"
  obtains a pid p where "transition E (sv_posts S) (mt_job M) a pid st publishing (st_db s) = (Inr p, st_db s')"
    "rp_out rep = PostOut (post_out_from p)" "st_cache s' = st_cache s"
proof -
  have "\<not> open_endpoint ep" using assms(4) by (auto simp: open_endpoint_def)
  from serve_answer [OF assms(1,2) this assms(3)] obtain h c where h: "handler_of ep = Some h"
    "st_db s' = snd (h S E M c (st_db s))" "rp_out rep = rp_out (fst (h S E M c (st_db s)))"
    "rp_status (fst (h S E M c (st_db s))) = 200" "st_cache s' = st_cache s" by metis
  have no: "rp_status (service_error e) \<noteq> 200" for e
    by (auto simp: service_error_def map_error_def write_error_def reply_of_def)
  from h(1) assms(4) have "h S E M c = with_id S c ''invalid post id'' (\<lambda>pid.
      answer (transition E (sv_posts S) (mt_job M) (cx_actor c) pid st publishing) (\<lambda>p. reply_of 200 (PostOut (post_out_from p))))"
    by (auto simp: handle_posts_publish_def handle_posts_unpublish_def svc_publish_def svc_unpublish_def)
  with h that show ?thesis
    by (auto simp: with_id_def say_def write_error_def reply_of_def answer_or_def no
        split: option.splits prod.splits sum.splits)
qed

section \<open>Properties\<close>

text \<open>
  C5. Publishing reaches the reader: in a database that satisfies its schema, when a request to publish a post is answered
  with 200, the public request for the site and slug of that post that comes next, under whatever
  clock, and with a cache that does not name another tenant, is answered with 200 and the post as the editor saw it: its title,
  excerpt, author, time and the HTML rendered from its markdown.
\<close>

theorem published_is_public:
  assumes "schema_ok (lower_in E) (st_db s)" "serve K S E M r s = (rep, s')" "rp_status rep = 200"
    and "route_of r = Some (m, ps, ws, PostsPublish)" "rp_out rep = PostOut po"
    and "b \<in> set (tenants (st_db s'))" "t_id b = po_tenant po" "po_tenant po \<noteq> nil_uuid" "po_slug po \<noteq> []"
    and "asks_for r' (t_slug b) (po_slug po)" "cache_agrees (e_now E') (t_slug b) (po_tenant po) (st_cache s)"
  shows "\<exists>u images tag. u \<in> set (users (st_db s')) \<and> us_id u = po_author po \<and>
    rp_status (fst (serve K S E' M' r' s')) = 200 \<and>
    rp_out (fst (serve K S E' M' r' s')) = PublicOut (ok_response (PostBody
      \<lparr>pb_slug = po_slug po, pb_title = po_title po, pb_excerpt = po_excerpt po, pb_html = po_html po,
       pb_author = us_display u, pb_published = Some (e_now E), pb_images = images\<rparr>) tag) \<and>
    render E (sv_posts S) (po_markdown po) (po_metadata po) = Inr (po_html po)"
proof -
  obtain a pid p where p: "transition E (sv_posts S) (mt_job M) a pid PostPublished True (st_db s) = (Inr p, st_db s')"
    "rp_out rep = PostOut (post_out_from p)" "st_cache s' = st_cache s"
    by (rule published_answer [OF assms(2,4,3), of PostPublished True]) auto
  have po: "po = post_out_from p" using p(2) assms(5) by simp
  have ok: "schema_ok (lower_in E) (st_db s')" using serve_fits [OF assms(2)] assms(1) by (simp add: fits_def)
  have "distinct (map p_id (posts (st_db s)))" using assms(1) by (simp add: schema_ok_def posts_fit_def)
  note row = transition_row [OF p(1) this]
  have keys: "distinct (map (\<lambda>p. (p_tenant p, p_slug p)) (posts (st_db s')))" "distinct (map us_id (users (st_db s')))"
    "tenants_fit (tenants (st_db s'))" "p_author p \<in> uids (st_db s')"
    using ok row(1) by (auto simp: schema_ok_def posts_fit_def users_fit_def)
  then obtain u where u: "u \<in> set (users (st_db s'))" "us_id u = p_author p" by (auto simp: uids_def)
  have sel: "po_slug po = p_slug p" "po_tenant po = p_tenant p" "po_title po = p_title p" "po_excerpt po = p_excerpt p"
    "po_html po = p_html p" "po_author po = p_author p" "po_markdown po = p_markdown p"
    "po_metadata po = Some (case p_metadata p of None \<Rightarrow> JObj [] | Some m \<Rightarrow> m)"
    by (simp_all add: po post_out_from_def)
  have "p_slug p \<noteq> []" "p_tenant p \<noteq> nil_uuid" using assms(8,9) sel by simp_all
  note served = published_post_served [OF keys(1,2) row(1,2) u this, THEN conjunct1, of E' "sv_pub S"]
  have agrees: "cache_agrees (e_now E') (t_slug b) (t_id b) (st_cache s')" using assms(7,11) p(3) by simp
  have "render E (sv_posts S) (po_markdown po) (po_metadata po) = Inr (po_html po)"
    using row(4) by (simp add: sel metadata_default)
  then show ?thesis
    using public_get [OF assms(10,9,6) keys(3) agrees served [folded sel(1,2), folded assms(7)]] u row(3)
    by (simp add: sel ok_response_def) blast
qed

text \<open>
  C6. What is taken back is gone: when a request to unpublish a post is answered with 200, the public request
  for its site and slug that comes next is answered with 404.
\<close>

theorem unpublished_is_gone:
  assumes "schema_ok (lower_in E) (st_db s)" "serve K S E M r s = (rep, s')" "rp_status rep = 200"
    and "route_of r = Some (m, ps, ws, PostsUnpublish)" "rp_out rep = PostOut po"
    and "b \<in> set (tenants (st_db s'))" "t_id b = po_tenant po" "po_slug po \<noteq> []"
    and "asks_for r' (t_slug b) (po_slug po)" "cache_agrees (e_now E') (t_slug b) (po_tenant po) (st_cache s)"
  shows "rp_status (fst (serve K S E' M' r' s')) = 404"
proof -
  obtain a pid p where p: "transition E (sv_posts S) (mt_job M) a pid PostDraft False (st_db s) = (Inr p, st_db s')"
    "rp_out rep = PostOut (post_out_from p)" "st_cache s' = st_cache s"
    by (rule published_answer [OF assms(2,4,3), of PostDraft False]) auto
  have po: "po_slug po = p_slug p" "po_tenant po = p_tenant p" using p(2) assms(5) by (simp_all add: post_out_from_def)
  have ok: "schema_ok (lower_in E) (st_db s')" using serve_fits [OF assms(2)] assms(1) by (simp add: fits_def)
  have "distinct (map p_id (posts (st_db s)))" using assms(1) by (simp add: schema_ok_def posts_fit_def)
  note row = transition_row [OF p(1) this]
  have keys: "distinct (map (\<lambda>p. (p_tenant p, p_slug p)) (posts (st_db s')))" "tenants_fit (tenants (st_db s'))"
    using ok by (simp_all add: schema_ok_def posts_fit_def)
  have "x = p" if "x \<in> set (posts (st_db s'))" "p_tenant x = t_id b" "p_slug x = po_slug po" for x
    using key_unique [OF keys(1) that(1) row(1)] that po assms(7) by simp
  then have "\<forall>x \<in> set (posts (st_db s')). p_tenant x = t_id b \<longrightarrow> p_slug x = po_slug po \<longrightarrow> p_status x \<noteq> PostPublished"
    using row(2) by auto
  note gone = no_post_no_page [OF this assms(8)]
  have "cache_agrees (e_now E') (t_slug b) (t_id b) (st_cache s')" using assms(7,10) p(3) by simp
  from public_get [OF assms(9,8,6) keys(2) this gone] show ?thesis by (simp add: error_response_def)
qed

section \<open>A post on its way\<close>

definition sample_newsroom :: "post_status \<Rightarrow> time option \<Rightarrow> unit site" where
  "sample_newsroom st at = (sample_office ''editor'')\<lparr>st_db := (st_db (sample_office ''editor''))
     \<lparr>posts := [sample_post\<lparr>p_id := 5, p_status := st, p_published := at\<rparr>]\<rparr>\<rparr>"

definition sample_send :: "string \<Rightarrow> request" where
  "sample_send what = sample_promotion\<lparr>hr_method := ''POST'', hr_path := [''admin'', ''posts'', ''five'', what]\<rparr>"

definition sample_reader :: request where
  "sample_reader = sample_promotion\<lparr>hr_method := ''GET'', hr_path := [''public'', ''acme'', ''posts'', ''hello''],
     hr_authorization := []\<rparr>"

lemma sample_asks: "asks_for sample_reader ''acme'' ''hello''"
  by (simp add: asks_for_def sample_reader_def sample_promotion_def)

lemma newsroom_fits: "schema_ok (lower_in sample_env) (st_db (sample_newsroom st at))"
proof -
  have "valid_slug ''acme''" by code_simp
  moreover have "lower_in sample_env ''a@example.com'' \<noteq> lower_in sample_env ''b@example.com''"
    unfolding sample_env_def env.select_convs by code_simp
  ultimately show ?thesis
    by (simp add: schema_ok_def fit_defs tids_def uids_def pids_def sample_newsroom_def sample_office_def sample_tenant_def
        sample_user_def sample_post_def empty_db_def known_role_def max_bigint_def)
qed

lemma sample_send_route:
  "route_of (sample_send ''publish'') =
     Some (''POST'', admin_path ''posts'' [Val, Lit ''publish''], [Base, IpRate, Session], PostsPublish)"
  "route_of (sample_send ''unpublish'') =
     Some (''POST'', admin_path ''posts'' [Val, Lit ''unpublish''], [Base, IpRate, Session], PostsUnpublish)"
  by (simp_all add: route_of_def routes_def public_routes_def auth_routes_def session_routes_def on_route_def
      sample_send_def sample_promotion_def)

lemma newsroom_auth: "authenticate sample_env ''tok'' (st_db (sample_newsroom st at)) = Some sample_admin"
  by (simp add: authenticate_def verify_session_def scoped_def run_tx_def get_session_by_token_hash_def token_hash_def
      and_then_def handle_def resolve_actor_def is_super_admin_def membership_role_def of_member_def parse_role_def
      office_defs sample_admin_def sample_newsroom_def)

definition sample_sent :: "post_status \<Rightarrow> bool \<Rightarrow> post" where
  "sample_sent st publishing = sample_post\<lparr>p_id := 5, p_status := st,
     p_published := (if publishing then Some 100 else None), p_updated := 50\<rparr>"

lemma newsroom_transition:
  "\<exists>js. transition sample_env sample_cfg 52 sample_admin 5 st publishing (st_db (sample_newsroom old at)) =
     (Inr (sample_sent st publishing), (st_db (sample_newsroom old at))
       \<lparr>tenants := [sample_tenant\<lparr>t_version := 5, t_updated := 50\<rparr>], posts := [sample_sent st publishing], jobs := js\<rparr>)"
proof -
  have "trim_space ''hi'' = ''hi''" by (intro trim_space_visible) (simp add: visible_char_def)
  then show ?thesis
    by (simp add: transition_def void_def and_then_def Let_def scoped_rw_def run_tx_def
        get_post_by_id_def handle_def set_post_status_def post_with_status_def purge_def bump_content_version_def
        enqueue_def bumped_def nullif_uuid post_at_def visible_def max_bigint_def blog_defs
        purge_job_kind_def sample_newsroom_def sample_office_def sample_sent_def can_def sample_admin_def less_eq_role_def
        scope_from_actor_def)
qed

lemma newsroom_sent:
  assumes "what = ''publish'' \<and> st = PostPublished \<and> publishing \<or> what = ''unpublish'' \<and> st = PostDraft \<and> \<not> publishing"
  obtains rep s' where
    "serve open_limits sample_server sample_env sample_mint (sample_send what) (sample_newsroom old at) = (rep, s')"
    "rp_status rep = 200" "rp_out rep = PostOut (post_out_from (sample_sent st publishing))"
    "tenants (st_db s') = [sample_tenant\<lparr>t_version := 5, t_updated := 50\<rparr>]"
proof -
  have tok: "session_token ''sid'' (sample_send w) = ''tok''" for w
    using sample_token by (simp add: session_token_def sample_send_def sample_promotion_def cong: if_cong)
  have sel: "sv_cookie sample_server = ''sid''" "sv_posts sample_server = sample_cfg" "mt_job sample_mint = 52"
    "sv_uuid sample_server ''five'' = Some 5" by (simp_all add: sample_server_def sample_mint_def)
  have req: "hr_origin (sample_send w) = []" "hr_path (sample_send w) = [''admin'', ''posts'', ''five'', w]"
    "hr_method (sample_send w) = ''POST''" for w
    by (simp_all add: sample_send_def sample_promotion_def)
  obtain js js' where
    on: "transition sample_env sample_cfg 52 sample_admin 5 PostPublished True (st_db (sample_newsroom old at)) =
      (Inr (sample_sent PostPublished True), (st_db (sample_newsroom old at))
        \<lparr>tenants := [sample_tenant\<lparr>t_version := 5, t_updated := 50\<rparr>], posts := [sample_sent PostPublished True], jobs := js\<rparr>)"
    and off: "transition sample_env sample_cfg 52 sample_admin 5 PostDraft False (st_db (sample_newsroom old at)) =
      (Inr (sample_sent PostDraft False), (st_db (sample_newsroom old at))
        \<lparr>tenants := [sample_tenant\<lparr>t_version := 5, t_updated := 50\<rparr>], posts := [sample_sent PostDraft False], jobs := js'\<rparr>)"
    using newsroom_transition by blast
  note run = serve_def sample_send_route req cors_def limited_def allow_def open_limits_def Let_def bare_call_def run_handler
    sel tok newsroom_auth handle_posts_publish_def handle_posts_unpublish_def svc_publish_def svc_unpublish_def
    with_id_def path_id_def answer_or_def reply_of_def on off
  show thesis
    using assms
  proof (elim disjE conjE)
    assume "what = ''publish''" "st = PostPublished" publishing
    then show thesis by - (rule that, simp add: run, simp_all)
  next
    assume "what = ''unpublish''" "st = PostDraft" "\<not> publishing"
    then show thesis by - (rule that, simp add: run, simp_all)
  qed
qed

lemma newsroom_reader: "cache_agrees now slug t (st_cache (sample_newsroom st at))"
  by (simp add: cache_agrees_def cached_def sample_newsroom_def sample_office_def resolver_new_def)

lemma sample_sent_sel:
  "po_tenant (post_out_from (sample_sent st publishing)) = 1" "po_slug (post_out_from (sample_sent st publishing)) = ''hello''"
  by (simp_all add: post_out_from_def sample_sent_def sample_post_def)

lemma published_is_public_witness:
  "\<exists>rep s' body tag.
     serve open_limits sample_server sample_env sample_mint (sample_send ''publish'') (sample_newsroom PostDraft None) = (rep, s') \<and>
     rp_out (fst (serve open_limits sample_server sample_env sample_mint sample_reader s')) =
       PublicOut (ok_response (PostBody body) tag) \<and> pb_title body = ''Hello''"
proof -
  obtain rep s' where run: "serve open_limits sample_server sample_env sample_mint (sample_send ''publish'') (sample_newsroom PostDraft None) = (rep, s')"
    "rp_status rep = 200" "rp_out rep = PostOut (post_out_from (sample_sent PostPublished True))"
    "tenants (st_db s') = [sample_tenant\<lparr>t_version := 5, t_updated := 50\<rparr>]"
    by (rule newsroom_sent [of "''publish''" PostPublished True]) auto
  have b: "sample_tenant\<lparr>t_version := 5, t_updated := 50\<rparr> \<in> set (tenants (st_db s'))" using run(4) by simp
  have "po_title (post_out_from (sample_sent PostPublished True)) = ''Hello''"
    by (simp add: post_out_from_def sample_sent_def sample_post_def)
  with published_is_public [OF newsroom_fits run(1,2) sample_send_route(1) run(3) b, of sample_reader sample_env sample_mint]
    run(1) show ?thesis
    by (auto simp: sample_tenant_def sample_sent_sel sample_asks newsroom_reader)
qed

lemma unpublished_is_gone_witness:
  "\<exists>rep s'. serve open_limits sample_server sample_env sample_mint (sample_send ''unpublish'')
       (sample_newsroom PostPublished (Some 10)) = (rep, s') \<and>
     rp_status (fst (serve open_limits sample_server sample_env sample_mint sample_reader s')) = 404"
proof -
  obtain rep s' where run: "serve open_limits sample_server sample_env sample_mint (sample_send ''unpublish'')
      (sample_newsroom PostPublished (Some 10)) = (rep, s')"
    "rp_status rep = 200" "rp_out rep = PostOut (post_out_from (sample_sent PostDraft False))"
    "tenants (st_db s') = [sample_tenant\<lparr>t_version := 5, t_updated := 50\<rparr>]"
    by (rule newsroom_sent [of "''unpublish''" PostDraft False]) auto
  have b: "sample_tenant\<lparr>t_version := 5, t_updated := 50\<rparr> \<in> set (tenants (st_db s'))" using run(4) by simp
  from unpublished_is_gone [OF newsroom_fits run(1,2) sample_send_route(2) run(3) b, of sample_reader sample_env sample_mint]
    run(1) show ?thesis
    by (auto simp: sample_tenant_def sample_sent_sel sample_asks newsroom_reader)
qed

end
