(* ===== verification/Hashing.thy ===== *)
theory Hashing
  imports Auth
begin

text \<open>
  internal/auth/password.go: the limiter of concurrent password hashes, and the requests that compete for it.
  Theory Auth has what a hash is; here is who computes one and when.
\<close>

section \<open>The limiter\<close>

record limiter =
  lm_cap :: nat
  lm_used :: nat

definition new_limiter :: "nat \<Rightarrow> limiter" where
  "new_limiter n = \<lparr>lm_cap = n, lm_used = 0\<rparr>"

text \<open>\<open>None\<close>: the channel is full, and the caller waits.\<close>

definition acquire :: "limiter \<Rightarrow> limiter option" where
  "acquire l = (if lm_used l < lm_cap l then Some (l\<lparr>lm_used := lm_used l + 1\<rparr>) else None)"

definition release :: "limiter \<Rightarrow> limiter" where
  "release l = l\<lparr>lm_used := lm_used l - 1\<rparr>"

definition argon2_concurrency :: nat where
  "argon2_concurrency = 4"

definition dummy_password :: string where
  "dummy_password = ''openblog-internal-dummy-hash''"

text \<open>
  \<open>hashPassword\<close> alone with a limiter: it hashes with a free slot, which it gives back; with none it
  waits until its context ends with the given error.
\<close>

definition hash_limited :: "hasher \<Rightarrow> error \<Rightarrow> limiter \<Rightarrow> bytes \<Rightarrow> string \<Rightarrow> (error + string) \<times> limiter" where
  "hash_limited A ctx_err l salt pw =
     (case acquire l of
        None \<Rightarrow> (Inl ctx_err, l)
      | Some l' \<Rightarrow> (Inr (hash_password A salt pw), release l'))"

definition HashPassword :: "hasher \<Rightarrow> error \<Rightarrow> bytes \<Rightarrow> string \<Rightarrow> error + string" where
  "HashPassword A ctx_err salt pw = fst (hash_limited A ctx_err (new_limiter 1) salt pw)"

definition dummy_hash :: "hasher \<Rightarrow> error \<Rightarrow> bytes \<Rightarrow> string option" where
  "dummy_hash A ctx_err salt =
     (case fst (hash_limited A ctx_err (new_limiter 1) salt dummy_password) of Inl e \<Rightarrow> None | Inr h \<Rightarrow> Some h)"

lemma acquire_release: "acquire l = Some l' \<Longrightarrow> release l' = l"
  by (auto simp: acquire_def release_def split: if_splits)

lemma hash_limited_new:
  "0 < n \<Longrightarrow> hash_limited A e (new_limiter n) salt pw = (Inr (hash_password A salt pw), new_limiter n)"
  by (simp add: hash_limited_def acquire_def release_def new_limiter_def)

text \<open>
  The hash of the seed command is the one that login verifies, and the dummy hash exists (the panic is dead);
  no password other than the dummy's own key would pass it.
\<close>

lemma HashPassword_eq: "HashPassword A e salt pw = Inr (hash_password A salt pw)"
  by (simp add: HashPassword_def hash_limited_new)

lemma dummy_hash_eq: "dummy_hash A e salt = Some (hash_password A salt dummy_password)"
  by (simp add: dummy_hash_def hash_limited_new)

section \<open>Requests in competition\<close>

text \<open>
  A request hashes a new password, or verifies a stored hash, or, for an unknown identity or an account
  without a password, burns the same work on the dummy hash. The first of these computes the dummy hash,
  under a limiter of its own, while others that need it wait for \<open>sync.OnceValue\<close>.
\<close>

datatype hash_kind = NewPassword | StoredHash | NoHash

datatype hash_pc = Arrived hash_kind | Dummying | Acquiring | Hashing | Answered

datatype once = NotYet | Computing | Ready

record hashers =
  hp_limiter :: limiter
  hp_dummy :: once
  hp_requests :: "hash_pc list"

definition set_request :: "nat \<Rightarrow> hash_pc \<Rightarrow> hashers \<Rightarrow> hashers" where
  "set_request i pc h = h\<lparr>hp_requests := (hp_requests h)[i := pc]\<rparr>"

inductive hmove :: "hashers \<Rightarrow> hashers \<Rightarrow> bool" where
  h_stored: "i < length (hp_requests h) \<Longrightarrow> hp_requests h ! i = Arrived k \<Longrightarrow> k \<noteq> NoHash \<Longrightarrow>
     hmove h (set_request i Acquiring h)"
| h_ready: "i < length (hp_requests h) \<Longrightarrow> hp_requests h ! i = Arrived NoHash \<Longrightarrow> hp_dummy h = Ready \<Longrightarrow>
     hmove h (set_request i Acquiring h)"
| h_dummy: "i < length (hp_requests h) \<Longrightarrow> hp_requests h ! i = Arrived NoHash \<Longrightarrow> hp_dummy h = NotYet \<Longrightarrow>
     hmove h ((set_request i Dummying h)\<lparr>hp_dummy := Computing\<rparr>)"
| h_made: "i < length (hp_requests h) \<Longrightarrow> hp_requests h ! i = Dummying \<Longrightarrow>
     hmove h ((set_request i Acquiring h)\<lparr>hp_dummy := Ready\<rparr>)"
| h_acquire: "i < length (hp_requests h) \<Longrightarrow> hp_requests h ! i = Acquiring \<Longrightarrow>
     acquire (hp_limiter h) = Some l \<Longrightarrow> hmove h ((set_request i Hashing h)\<lparr>hp_limiter := l\<rparr>)"
| h_done: "i < length (hp_requests h) \<Longrightarrow> hp_requests h ! i = Hashing \<Longrightarrow>
     hmove h ((set_request i Answered h)\<lparr>hp_limiter := release (hp_limiter h)\<rparr>)"

text \<open>A request whose context ends stops waiting; requests arrive at any time.\<close>

inductive hstep :: "hashers \<Rightarrow> hashers \<Rightarrow> bool" where
  hs_move: "hmove h g \<Longrightarrow> hstep h g"
| hs_cancel: "i < length (hp_requests h) \<Longrightarrow> hp_requests h ! i = Acquiring \<Longrightarrow>
     hstep h (set_request i Answered h)"
| hs_arrive: "hstep h (h\<lparr>hp_requests := hp_requests h @ [Arrived k]\<rparr>)"

definition hstart :: "hashers \<Rightarrow> bool" where
  "hstart h \<longleftrightarrow> h = \<lparr>hp_limiter = new_limiter argon2_concurrency, hp_dummy = NotYet, hp_requests = []\<rparr>"

definition hashing_now :: "hashers \<Rightarrow> nat" where
  "hashing_now h = length (filter (\<lambda>r. r = Hashing) (hp_requests h))"

definition dummying_now :: "hashers \<Rightarrow> nat" where
  "dummying_now h = length (filter (\<lambda>r. r = Dummying) (hp_requests h))"

inductive_cases hmoveE: "hmove h g"

section \<open>The invariant\<close>

definition slots_ok :: "hashers \<Rightarrow> bool" where
  "slots_ok h \<longleftrightarrow> lm_cap (hp_limiter h) = argon2_concurrency \<and> lm_used (hp_limiter h) = hashing_now h \<and>
     hashing_now h \<le> argon2_concurrency \<and> dummying_now h = (if hp_dummy h = Computing then 1 else 0)"

lemma counts_set:
  assumes "i < length (hp_requests h)"
  shows "hashing_now (set_request i pc h) + (if hp_requests h ! i = Hashing then 1 else 0) =
      hashing_now h + (if pc = Hashing then 1 else 0)"
    and "dummying_now (set_request i pc h) + (if hp_requests h ! i = Dummying then 1 else 0) =
      dummying_now h + (if pc = Dummying then 1 else 0)"
  using length_filter_update [OF assms, of "\<lambda>r. r = Hashing" pc]
    length_filter_update [OF assms, of "\<lambda>r. r = Dummying" pc]
  by (simp_all add: hashing_now_def dummying_now_def set_request_def)

lemma counts_upd [simp]:
  "hashing_now (h\<lparr>hp_limiter := l\<rparr>) = hashing_now h" "dummying_now (h\<lparr>hp_limiter := l\<rparr>) = dummying_now h"
  "hashing_now (h\<lparr>hp_dummy := b\<rparr>) = hashing_now h" "dummying_now (h\<lparr>hp_dummy := b\<rparr>) = dummying_now h"
  "hp_limiter (set_request i pc h) = hp_limiter h" "hp_dummy (set_request i pc h) = hp_dummy h"
  by (simp_all add: hashing_now_def dummying_now_def set_request_def)

lemma dummying_pos: "i < length (hp_requests h) \<Longrightarrow> hp_requests h ! i = Dummying \<Longrightarrow> dummying_now h \<noteq> 0"
  using nth_mem [of i "hp_requests h"] by (auto simp: dummying_now_def filter_empty_conv)

lemma slots_ok_move:
  assumes "slots_ok h" "hmove h g"
  shows "slots_ok g"
  using assms(2)
proof cases
  case (h_made i)
  then have "hp_dummy h = Computing" using assms(1) dummying_pos [of i h] by (auto simp: slots_ok_def split: if_splits)
  then show ?thesis using h_made assms(1) counts_set [of i h Acquiring] by (simp add: slots_ok_def)
next
  case (h_acquire i l)
  then show ?thesis using assms(1) counts_set [of i h Hashing]
    by (auto simp: slots_ok_def acquire_def split: if_splits)
next
  case (h_done i)
  then show ?thesis using assms(1) counts_set [of i h Answered]
    by (auto simp: slots_ok_def release_def)
next
  case (h_dummy i)
  then show ?thesis using assms(1) counts_set [of i h Dummying] by (simp add: slots_ok_def)
next
  case (h_ready i)
  then show ?thesis using assms(1) counts_set [of i h Acquiring] by (simp add: slots_ok_def)
next
  case (h_stored i k)
  then show ?thesis using assms(1) counts_set [of i h Acquiring] by (simp add: slots_ok_def)
qed

lemma slots_ok_step:
  assumes "slots_ok h" "hstep h g"
  shows "slots_ok g"
  using assms(2)
proof cases
  case hs_move
  then show ?thesis by (rule slots_ok_move [OF assms(1)])
next
  case (hs_cancel i)
  then show ?thesis using assms(1) counts_set [of i h Answered] by (simp add: slots_ok_def)
qed (use assms(1) in \<open>simp add: slots_ok_def hashing_now_def dummying_now_def\<close>)

lemma slots_ok_start: "hstart h \<Longrightarrow> slots_ok h"
  by (simp add: hstart_def slots_ok_def new_limiter_def hashing_now_def dummying_now_def)

interpretation slots: invariant_system hstart hstep slots_ok
  by unfold_locales (rule slots_ok_start, assumption, rule slots_ok_step)

text \<open>Whoever is not answered can go on, or waits for one that can.\<close>

lemma someone_moves:
  assumes ok: "slots_ok h" and i: "i < length (hp_requests h)" "hp_requests h ! i \<noteq> Answered"
  shows "\<exists>g. hmove h g"
proof (cases "hp_requests h ! i")
  case (Arrived k)
  show ?thesis
  proof (cases "k = NoHash \<and> hp_dummy h = Computing")
    case True
    then have "filter (\<lambda>r. r = Dummying) (hp_requests h) \<noteq> []" using ok by (auto simp: slots_ok_def dummying_now_def)
    then obtain d where "d < length (hp_requests h)" "hp_requests h ! d = Dummying"
      by (auto simp: filter_empty_conv in_set_conv_nth)
    then show ?thesis using h_made by blast
  next
    case False
    then show ?thesis using i Arrived h_stored [of i h k] h_ready [of i h] h_dummy [of i h]
      by (cases "hp_dummy h") auto
  qed
next
  case Acquiring
  show ?thesis
  proof (cases "acquire (hp_limiter h)")
    case None
    then have "hashing_now h \<noteq> 0" using ok by (auto simp: slots_ok_def acquire_def argon2_concurrency_def split: if_splits)
    then obtain d where "d < length (hp_requests h)" "hp_requests h ! d = Hashing"
      by (auto simp: hashing_now_def filter_empty_conv in_set_conv_nth)
    then show ?thesis using h_done by blast
  qed (use i Acquiring h_acquire [of i h] in blast)
qed (use i h_made [of i h] h_done [of i h] in auto)

section \<open>Properties\<close>


definition sample_hashers :: hashers where
  "sample_hashers = \<lparr>hp_limiter = new_limiter 4, hp_dummy = NotYet, hp_requests = [Arrived NoHash]\<rparr>"


end
