(* ===== verification/Variants.thy ===== *)
theory Variants
  imports Background Hashing
begin

text \<open>
  internal/media/variants_vips.go and variants.go: the processor of builds with libvips, under its semaphore, and
  what readers see of the variants it makes or, without it, of the placeholders.
\<close>

section \<open>The processor\<close>

text \<open>
  libvips through govips: the loader with the first page only, the size of an image, a thumbnail of a width with what
  it leaves of the image it is made from, and the WebP export at quality 80.
\<close>

record 'i libvips =
  lv_load :: "bytes \<Rightarrow> error + 'i"
  lv_width :: "'i \<Rightarrow> int"
  lv_height :: "'i \<Rightarrow> int"
  lv_thumbnail :: "'i \<Rightarrow> nat \<Rightarrow> error + 'i \<times> 'i"
  lv_webp :: "'i \<Rightarrow> nat \<Rightarrow> error + bytes"

definition vips_concurrency :: nat where
  "vips_concurrency = 2"

definition vips_sem :: limiter where
  "vips_sem = new_limiter vips_concurrency"

fun vips_variants :: "'i libvips \<Rightarrow> string \<Rightarrow> 'i \<Rightarrow> nat list \<Rightarrow> error + variant_result list" where
  "vips_variants V base img [] = Inr []"
| "vips_variants V base img (sz # szs) =
     (case lv_thumbnail V img sz of
        Inl e \<Rightarrow> Inl e
      | Inr (resized, img') \<Rightarrow>
          (case lv_webp V resized 80 of
             Inl e \<Rightarrow> Inl e
           | Inr dat \<Rightarrow>
               (case vips_variants V base img' szs of
                  Inl e \<Rightarrow> Inl e
                | Inr vs \<Rightarrow> Inr (\<lparr>vr_label = itoa sz, vr_key = base @ ''-'' @ itoa sz @ ''.webp'', vr_data = dat,
                    vr_width = lv_width V resized, vr_height = lv_height V resized\<rparr> # vs))))"

text \<open>
  \<open>Process\<close> with a semaphore: with no free slot it waits until its context ends with the given error.
\<close>

definition vips_process ::
  "env \<Rightarrow> 'i libvips \<Rightarrow> error \<Rightarrow> limiter \<Rightarrow> string \<Rightarrow> bytes \<Rightarrow> string \<Rightarrow> (error + processed) \<times> limiter" where
  "vips_process E V ctx_err l ext original key =
     (case acquire l of
        None \<Rightarrow> (Inl ctx_err, l)
      | Some l' \<Rightarrow>
          ((case lv_load V original of
              Inl e \<Rightarrow> Inl e
            | Inr img \<Rightarrow>
                map_sum id
                  (\<lambda>vs. \<lparr>pr_width = lv_width V img, pr_height = lv_height V img, pr_variants = vs\<rparr>)
                  (vips_variants V (trim_suffix key (ext_from_name E key)) img variant_sizes)),
           release l'))"

text \<open>
  \<open>ResizeVariants\<close>: the data by label, for the widths asked for. The error of \<open>strconv.Atoi\<close> is dropped: a
  label that is no number is width 0, and one out of range is the nearest int64.
\<close>

definition variant_width :: "string \<Rightarrow> int" where
  "variant_width label =
     (let neg = has_prefix label ''-'';
          ds = (if neg \<or> has_prefix label ''+'' then drop 1 label else label)
      in case go_atoi label of
           Some w \<Rightarrow> w
         | None \<Rightarrow> if ds = [] \<or> \<not> list_all is_digit ds then 0 else if neg then - (2 ^ 63) else 2 ^ 63 - 1)"

definition resize_variants ::
  "(string \<Rightarrow> bytes \<Rightarrow> string \<Rightarrow> error + processed) \<Rightarrow> bytes \<Rightarrow> int list \<Rightarrow> error + (string \<Rightarrow> bytes option)" where
  "resize_variants process original sizes =
     (case process [] original [] of
        Inl e \<Rightarrow> Inl e
      | Inr p \<Rightarrow> Inr (foldl (\<lambda>out v.
          if list_ex (\<lambda>s. s = variant_width (vr_label v)) sizes then out(vr_label v \<mapsto> vr_data v) else out)
          Map.empty (pr_variants p)))"

section \<open>Lemmas\<close>

text \<open>Every path gives the slot back, and a free slot means that libvips runs.\<close>

lemma vips_slot: "snd (vips_process E V e l ext orig key) = l"
  by (auto simp: vips_process_def acquire_release split: option.split)

lemma vips_labels:
  "vips_variants V base img szs = Inr vs \<Longrightarrow>
     map vr_label vs = map itoa szs \<and> map vr_key vs = map (\<lambda>sz. base @ ''-'' @ itoa sz @ ''.webp'') szs"
  by (induction szs arbitrary: img vs) (auto split: sum.splits prod.splits)

lemma vips_processE:
  assumes "vips_process E V e l ext orig key = (Inr p, l')"
  obtains img where "lv_load V orig = Inr img" "l' = l"
    "vips_variants V (trim_suffix key (ext_from_name E key)) img variant_sizes = Inr (pr_variants p)"
    "pr_width p = lv_width V img" "pr_height p = lv_height V img"
proof -
  have "l' = l" using vips_slot [of E V e l ext orig key] assms by simp
  let ?base = "trim_suffix key (ext_from_name E key)"
  obtain l1 where free: "acquire l = Some l1" using assms by (auto simp: vips_process_def split: option.splits)
  obtain img where img: "lv_load V orig = Inr img"
    using assms free by (cases "lv_load V orig") (simp_all add: vips_process_def)
  then obtain vs where "vips_variants V ?base img variant_sizes = Inr vs"
    using assms free by (cases "vips_variants V ?base img variant_sizes") (simp_all add: vips_process_def)
  moreover from this have "p = \<lparr>pr_width = lv_width V img, pr_height = lv_height V img, pr_variants = vs\<rparr>"
    using assms free img by (simp add: vips_process_def)
  ultimately show ?thesis using that [OF img \<open>l' = l\<close>] by simp
qed

lemma atoi_sizes: "go_atoi (itoa 480) = Some 480" "go_atoi (itoa 800) = Some 800" "go_atoi (itoa 1200) = Some 1200"
  by code_simp+

lemma resolve_absolute: "u \<noteq> [] \<Longrightarrow> \<not> has_prefix u ''/'' \<Longrightarrow> resolve_url u origin = u"
  by (simp add: resolve_url_def)

text \<open>Three variants in the order of their widths.\<close>

lemma shown_in_order:
  assumes "map fst vs = map itoa [480, 800, 1200]" "sorted_wrt (<) (map (v_width \<circ> snd) vs)"
    and "\<forall>v \<in> set vs. 0 < v_width (snd v) \<and> v_url (snd v) \<noteq> [] \<and> \<not> has_prefix (v_url (snd v)) ''/''"
  shows "image_from_variants vs origin = Some
    \<lparr>ii_url = v_url (snd (last vs)), ii_width = v_width (snd (last vs)), ii_height = v_height (snd (last vs)),
     ii_srcset = map (\<lambda>v. v_url (snd v) @ '' '' @ int_string (v_width (snd v)) @ ''w'') vs\<rparr>"
proof -
  from assms(1) obtain a b c where vs: "vs = [(itoa 480, a), (itoa 800, b), (itoa 1200, c)]"
    by (auto simp: map_eq_Cons_conv)
  then have "List.map_filter variant_pair vs = [(v_width a, a), (v_width b, b), (v_width c, c)]"
    using assms(3) by (simp add: map_filter_simps variant_pair_def atoi_sizes)
  then show ?thesis
    using assms(2,3) by (simp add: image_from_variants_def Let_def resolve_absolute vs)
qed

lemma build_three:
  assumes "map vr_label vs = map itoa [480, 800, 1200]" "pr_variants p = vs"
  shows "build_variants p cdn key = map (\<lambda>v. (vr_label v, variant_entry cdn key v)) vs"
proof -
  from assms(1) obtain a b c where "vs = [a, b, c]" "vr_label a = itoa 480" "vr_label b = itoa 800" "vr_label c = itoa 1200"
    by (auto simp: map_eq_Cons_conv)
  then show ?thesis using assms(2) by (simp add: build_variants_def)
qed

text \<open>
  Without libvips the entries name the original three times, and readers are offered it as three sizes: of one
  width where its header could be read, else of the widths of the labels, which it does not have.
\<close>

lemma pending_shown:
  assumes "cdn \<noteq> []" "\<not> has_prefix cdn ''/''" "decode_size orig = (w, h)" "0 < w"
  shows "image_from_variants (build_variants (noop_process E decode_size ext orig key) cdn key) origin = Some
    \<lparr>ii_url = cdn @ ''/'' @ key, ii_width = w, ii_height = h,
     ii_srcset = replicate 3 (cdn @ ''/'' @ key @ '' '' @ int_string w @ ''w'')\<rparr>"
proof -
  let ?p = "noop_process E decode_size ext orig key"
  have "map vr_label (pr_variants ?p) = map itoa [480, 800, 1200]"
    using assms(3) by (simp add: noop_process_def variant_sizes_def Let_def)
  note entries = build_three [OF this refl]
  have "\<not> has_prefix (cdn @ ''/'' @ key) ''/''" using assms(1,2) by (cases cdn) (auto simp: has_prefix_def)
  then show ?thesis
    unfolding entries using assms(1,3,4)
    by (simp add: noop_process_def variant_sizes_def Let_def variant_entry_def image_from_variants_def
        map_filter_simps variant_pair_def atoi_sizes resolve_absolute numeral_3_eq_3)
qed

section \<open>Properties\<close>


text \<open>A library that makes every thumbnail as wide as asked.\<close>

definition sample_vips :: "int libvips" where
  "sample_vips = \<lparr>lv_load = (\<lambda>b. Inr 2000), lv_width = id, lv_height = id,
     lv_thumbnail = (\<lambda>i sz. Inr (int sz, i)), lv_webp = (\<lambda>i quality. Inr ''webp'')\<rparr>"


end
