(* ===== verification/Storage.thy ===== *)
theory Storage
  imports Media
begin

text \<open>
  internal/media/r2.go: the client through which the worker reads originals from the object store and writes
  variants. A request is signed in its headers, over its method, host, path, time and the hash of its body.
  What net/url and net/http do with a URL and a request is the record \<open>web\<close>.
\<close>

section \<open>The client\<close>

record r2_client =
  rc_endpoint :: string
  rc_bucket :: string
  rc_access :: string
  rc_secret :: string

definition new_r2_client :: "media_config \<Rightarrow> r2_client" where
  "new_r2_client M = \<lparr>rc_endpoint = mc_endpoint M, rc_bucket = mc_bucket M, rc_access = mc_access M, rc_secret = mc_secret M\<rparr>"

record http_request =
  hq_method :: string
  hq_url :: string
  hq_headers :: "(string \<times> string) list"
  hq_body :: bytes

record http_reply =
  hr_status :: nat
  hr_text :: string
  hr_body :: "error + bytes"

text \<open>
  \<^item> \<open>wb_render\<close>: \<open>String\<close> of a parsed URL whose Path was set;
  \<^item> \<open>wb_target\<close>: the host and escaped path of a request for a URL, or the error of \<open>http.NewRequest\<close>;
  \<^item> \<open>wb_do\<close>: the answer of the store, or the error of \<open>Do\<close> (the timeout of 60 seconds included).
\<close>

record web =
  wb_render :: "url \<Rightarrow> string \<Rightarrow> string"
  wb_target :: "string \<Rightarrow> error + (string \<times> string)"
  wb_do :: "http_request \<Rightarrow> error + http_reply"

text \<open>\<open>None\<close>: the endpoint does not parse, and the code dereferences a nil URL, which ends the process.\<close>

definition object_url :: "env \<Rightarrow> web \<Rightarrow> r2_client \<Rightarrow> string \<Rightarrow> string option" where
  "object_url E W c key =
     map_option (\<lambda>ep. wb_render W ep (''/'' @ rc_bucket c @ ''/'' @ key)) (e_url E (rc_endpoint c))"

section \<open>Signing\<close>

definition signed_headers :: string where
  "signed_headers = ''host;x-amz-content-sha256;x-amz-date''"

definition canonical_headers :: "string \<Rightarrow> string \<Rightarrow> string \<Rightarrow> string" where
  "canonical_headers host payload stamp =
     ''host:'' @ host @ [CHR 0x0A] @ ''x-amz-content-sha256:'' @ payload @ [CHR 0x0A] @
     ''x-amz-date:'' @ stamp @ [CHR 0x0A]"

definition signed_request :: "string \<Rightarrow> string \<Rightarrow> string \<Rightarrow> string \<Rightarrow> string \<Rightarrow> string" where
  "signed_request meth host path payload stamp =
     go_join [meth, if path = [] then ''/'' else path, [], canonical_headers host payload stamp,
       signed_headers, payload] [CHR 0x0A]"

definition sign_v4 :: "env \<Rightarrow> string \<Rightarrow> string \<Rightarrow> string \<Rightarrow> string \<Rightarrow> string \<Rightarrow> bytes \<Rightarrow> (string \<times> string) list" where
  "sign_v4 E access secret meth host path body =
     (let now = e_now E; payload = hex_sha256 E body; scope = credential_scope now ''auto'';
          string_to_sign = go_join [signing_algorithm, time_stamp now, scope,
            hex_sha256 E (signed_request meth host path payload (time_stamp now))] [CHR 0x0A];
          signature = hex_string (hmac_sha256 E (derive_signing_key E secret (date_stamp now) ''auto'') string_to_sign)
      in [(''x-amz-date'', time_stamp now), (''x-amz-content-sha256'', payload), (''host'', host),
          (''Authorization'', signing_algorithm @ '' Credential='' @ access @ ''/'' @ scope @
            '', SignedHeaders='' @ signed_headers @ '', Signature='' @ signature)])"

definition r2_request :: "env \<Rightarrow> r2_client \<Rightarrow> string \<Rightarrow> string \<Rightarrow> string \<times> string \<Rightarrow> bytes \<Rightarrow> http_request" where
  "r2_request E c meth u target body =
     \<lparr>hq_method = meth, hq_url = u,
      hq_headers = sign_v4 E (rc_access c) (rc_secret c) meth (fst target) (snd target) body, hq_body = body\<rparr>"

section \<open>Get and Put\<close>

definition r2_get :: "env \<Rightarrow> web \<Rightarrow> r2_client \<Rightarrow> string \<Rightarrow> (error + bytes) option" where
  "r2_get E W c key = map_option (\<lambda>u.
     case wb_target W u of
       Inl e \<Rightarrow> Inl e
     | Inr target \<Rightarrow> (case wb_do W (r2_request E c ''GET'' u target []) of
           Inl e \<Rightarrow> Inl e
         | Inr r \<Rightarrow> if hr_status r \<noteq> 200 then Inl (ErrText (''media: r2 get '' @ key @ '': '' @ hr_text r)) else hr_body r))
     (object_url E W c key)"

definition r2_put :: "env \<Rightarrow> web \<Rightarrow> r2_client \<Rightarrow> string \<Rightarrow> bytes \<Rightarrow> error option option" where
  "r2_put E W c key data = map_option (\<lambda>u.
     case wb_target W u of
       Inl e \<Rightarrow> Some e
     | Inr target \<Rightarrow> (case wb_do W (r2_request E c ''PUT'' u target data) of
           Inl e \<Rightarrow> Some e
         | Inr r \<Rightarrow> if hr_status r \<ge> 300 then Some (ErrText (''media: r2 put '' @ key @ '': '' @ hr_text r)) else None))
     (object_url E W c key)"

section \<open>What a request is signed for\<close>

lemma hex_string_inject [simp]: "hex_string s = hex_string r \<longleftrightarrow> s = r"
proof (induction s arbitrary: r)
  case Nil
  then show ?case by (cases r) (auto simp: hex_string_def numeral_2_eq_2)
next
  case (Cons c s)
  have cons: "hex_string (c # s) = hex_digits 2 (of_char c) @ hex_string s" for c s by (simp add: hex_string_def)
  have byte: "c = d" if "hex_digits 2 (of_char c) = hex_digits 2 (of_char d)" for c d :: char
    using hex_digits_inject [OF that] by simp
  show ?case
  proof (cases r)
    case Nil
    then show ?thesis by (simp add: hex_string_def numeral_2_eq_2)
  next
    case (Cons d t)
    then show ?thesis using Cons.IH byte by (auto simp: cons append_eq_append_conv)
  qed
qed

lemma no_newline:
  "CHR 0x0A \<notin> set (hex_string s)" "CHR 0x0A \<notin> set (time_stamp t)"
proof -
  have "list_all (\<lambda>d. hex_char d \<noteq> CHR 0x0A) [0..<16]" by code_simp
  then have "hex_char d \<noteq> CHR 0x0A" if "d < 16" for d using that by (simp add: list_all_length)
  then have "CHR 0x0A \<noteq> hex_char (n mod 16)" for n by (metis mod_less_divisor zero_less_numeral)
  then show "CHR 0x0A \<notin> set (hex_string s)" by (simp add: hex_string_def numeral_2_eq_2)
  have pad: "CHR 0x0A \<notin> set (zero_padded w n)" for w n
    using zero_padded_chars [of "CHR 0x0A" w n] by (auto simp: is_digit_def)
  show "CHR 0x0A \<notin> set (time_stamp t)"
    by (simp add: time_stamp_def date_stamp_def Let_def split_def pad)
qed

lemma signed_request_text:
  "signed_request meth host path payload stamp =
     meth @ CHR 0x0A # (if path = [] then ''/'' else path) @ CHR 0x0A # [] @ CHR 0x0A # (''host:'' @ host) @
     CHR 0x0A # (''x-amz-content-sha256:'' @ payload) @ CHR 0x0A # (''x-amz-date:'' @ stamp) @
     CHR 0x0A # [] @ CHR 0x0A # signed_headers @ CHR 0x0A # payload"
  by (simp add: signed_request_def canonical_headers_def)

section \<open>Properties\<close>

text \<open>
  The signature of a request to the object store covers all of it: the texts that are hashed and signed
  for two requests agree only if these have the same method, host and path, bodies of the same SHA-256
  and the same second, so a captured signature serves for no other object, operation or content.
\<close>

theorem r2_request_binds:
  assumes "signed_request m host path (hex_sha256 E body) (time_stamp now) =
      signed_request m' host' path' (hex_sha256 E body') (time_stamp now')"
    and "CHR 0x0A \<notin> set m \<union> set m' \<union> set host \<union> set host' \<union> set path \<union> set path'"
    and "path \<noteq> []" "path' \<noteq> []"
  shows "m = m' \<and> host = host' \<and> path = path' \<and> e_sha256 E body = e_sha256 E body' \<and>
    time_stamp now = time_stamp now'"
proof -
  have "m = m' \<and> path = path' \<and> host = host' \<and> hex_sha256 E body = hex_sha256 E body' \<and>
      time_stamp now = time_stamp now'"
    using assms unfolding signed_request_text
    by (simp add: sep_cancel no_newline hex_sha256_def del: append_same_eq append.simps(2))
  then show ?thesis by (simp add: hex_sha256_def)
qed

text \<open>
  Get and Put send one request each, signed for the host and path of the object's URL; Get returns the body of a
  reply with status 200 only, and Put succeeds exactly on a status below 300.
\<close>

lemma r2_exchange:
  assumes "object_url E W c key = Some u" "wb_target W u = Inr t"
  shows "r2_get E W c key = Some (Inr b) \<longleftrightarrow>
      (\<exists>r. wb_do W (r2_request E c ''GET'' u t []) = Inr r \<and> hr_status r = 200 \<and> hr_body r = Inr b)"
    and "r2_put E W c key data = Some None \<longleftrightarrow>
      (\<exists>r. wb_do W (r2_request E c ''PUT'' u t data) = Inr r \<and> hr_status r < 300)"
  using assms by (auto simp: r2_get_def r2_put_def split: sum.splits if_splits)

theorem r2_request_binds_witness:
  "e_sha256 sample_env ''x'' = e_sha256 sample_env ''x'' \<and> time_stamp 5 = time_stamp 7"
proof -
  have "time_stamp 5 = time_stamp 7"
    by (simp add: time_stamp_def date_stamp_def day_of_def second_of_day_def)
  then have "signed_request ''PUT'' ''r2.example'' ''/media/a'' (hex_sha256 sample_env ''x'') (time_stamp 5) =
      signed_request ''PUT'' ''r2.example'' ''/media/a'' (hex_sha256 sample_env ''x'') (time_stamp 7)" by simp
  from r2_request_binds [OF this] show ?thesis by simp
qed

end
