(* ===== verification/Process.thy ===== *)
theory Process
  imports Workers Setup
begin

text \<open>
  cmd/api/main.go and cmd/migrate: the start of the server, and its life as a process: the listener, the pool of
  workers started beside it, signals, the graceful shutdown and the exit.
\<close>

section \<open>Migrations\<close>

text \<open>
  goose with the embedded migrations: opening the database, the choice of the dialect, and the runs up
  and down, with what they leave.
\<close>

record goose =
  gs_open :: "string \<Rightarrow> error option"
  gs_dialect :: "error option"
  gs_up :: "db \<Rightarrow> error option \<times> db"
  gs_down :: "db \<Rightarrow> error option \<times> db"

definition migrate :: "goose \<Rightarrow> string \<Rightarrow> db \<Rightarrow> error option \<times> db" where
  "migrate G url d =
     (case gs_open G url of
        Some e \<Rightarrow> (Some e, d)
      | None \<Rightarrow> (case gs_dialect G of Some e \<Rightarrow> (Some e, d) | None \<Rightarrow> gs_up G d))"

text \<open>\<open>run\<close> of cmd/migrate with its arguments.\<close>

definition migrate_run :: "goose \<Rightarrow> string list \<Rightarrow> environ \<Rightarrow> db \<Rightarrow> error option \<times> db" where
  "migrate_run G args V d =
     (case V ''DATABASE_URL'' of
        None \<Rightarrow> (Some (ErrText ''DATABASE_URL not set''), d)
      | Some url \<Rightarrow>
          if url = [] then (Some (ErrText ''DATABASE_URL not set''), d)
          else case gs_open G url of
            Some e \<Rightarrow> (Some e, d)
          | None \<Rightarrow>
              (case gs_dialect G of
                 Some e \<Rightarrow> (Some e, d)
               | None \<Rightarrow> if args \<noteq> [] \<and> hd args = ''down'' then gs_down G d else gs_up G d))"

section \<open>The start\<close>

text \<open>\<open>run\<close> up to the module graph; \<open>connect\<close> is \<open>store.New\<close>.\<close>

definition boot ::
  "env \<Rightarrow> (string \<Rightarrow> time option) \<Rightarrow> goose \<Rightarrow> (string \<Rightarrow> error option) \<Rightarrow> outside \<Rightarrow> environ \<Rightarrow> (config \<times> server) act" where
  "boot E parse G connect Q V d =
     (case load_config E parse V of
        Inl s \<Rightarrow> (Inl (ErrWrap ''config'' (ErrText s)), d)
      | Inr c \<Rightarrow>
          (case migrate G (cf_db c) d of
             (Some e, d) \<Rightarrow> (Inl (ErrWrap ''migrate'' e), d)
           | (None, d) \<Rightarrow>
               (case connect (cf_db c) of
                  Some e \<Rightarrow> (Inl (ErrWrap ''store'' e), d)
                | None \<Rightarrow> (case wire Q c of Inl e \<Rightarrow> (Inl e, d) | Inr S \<Rightarrow> (Inr (c, S), d)))))"

text \<open>
  A configuration that does not load stops the start before anything is changed, and one that loads never fails
  to wire up.
\<close>

lemma boot_cases:
  assumes "boot E parse G connect Q V d = (r, d')"
  obtains (config) s where "load_config E parse V = Inl s" "r = Inl (ErrWrap ''config'' (ErrText s))" "d' = d"
  | (migrate) c e where "load_config E parse V = Inr c" "migrate G (cf_db c) d = (Some e, d')" "r = Inl (ErrWrap ''migrate'' e)"
  | (store) c e where "load_config E parse V = Inr c" "migrate G (cf_db c) d = (None, d')" "connect (cf_db c) = Some e"
      "r = Inl (ErrWrap ''store'' e)"
  | (up) c S where "load_config E parse V = Inr c" "migrate G (cf_db c) d = (None, d')" "connect (cf_db c) = None"
      "wire Q c = Inr S" "r = Inr (c, S)"
proof (cases "load_config E parse V")
  case (Inl s)
  then show ?thesis using config assms by (simp add: boot_def)
next
  case (Inr c)
  obtain S where S: "wire Q c = Inr S" using load_config_wires [OF Inr] by blast
  obtain m d1 where m: "migrate G (cf_db c) d = (m, d1)" by fastforce
  show ?thesis
  proof (cases m)
    case None
    then show ?thesis using store up assms Inr m S by (cases "connect (cf_db c)") (simp_all add: boot_def)
  next
    case (Some e)
    then show ?thesis using migrate assms Inr m by (simp add: boot_def)
  qed
qed

section \<open>The process\<close>

text \<open>
  The main goroutine waits for its context, closes the pool, waits in \<open>Shutdown\<close> until a deadline, returns with its
  result and runs the deferred calls, and then the process is gone with a code. The listener serves requests, has
  failed, or is closed.
\<close>

datatype main_pc = Serving | Closing | Draining time | Returned "error option" | Gone nat

datatype listener = Listening | ListenFailed | ListenClosed

text \<open>
  \<open>ps_ctx\<close>: the context of \<open>signal.NotifyContext\<close> is done. \<open>ps_job_ctx\<close>: the context that Run or Close has made for
  the pool. \<open>ps_open\<close>: the requests in flight. Until the goroutine of \<open>worker.Run\<close> has started, the pool
  is idle.
\<close>

record process =
  ps_main :: main_pc
  ps_ctx :: bool
  ps_job_ctx :: "bool option"
  ps_started :: bool
  ps_pool :: pool
  ps_listener :: listener
  ps_open :: nat

definition shutdown_grace :: time where
  "shutdown_grace = 5 * second"

definition idle_pool :: "time \<Rightarrow> db \<Rightarrow> pool" where
  "idle_pool now d = \<lparr>pl_db = d, pl_now = now, pl_cancelled = False, pl_workers = [], pl_sweeper = Stopped,
     pl_tick = False, pl_runs = [], pl_wg = 0\<rparr>"

definition launch :: "time \<Rightarrow> db \<Rightarrow> process" where
  "launch now d = \<lparr>ps_main = Serving, ps_ctx = False, ps_job_ctx = None, ps_started = False,
     ps_pool = idle_pool now d, ps_listener = Listening, ps_open = 0\<rparr>"

definition cancel_pool :: "process \<Rightarrow> process" where
  "cancel_pool p = (if ps_started p then p\<lparr>ps_pool := (ps_pool p)\<lparr>pl_cancelled := True\<rparr>\<rparr> else p)"

text \<open>A signal, or \<open>stop\<close>: the context of Run derives from it.\<close>

definition signalled :: "process \<Rightarrow> process" where
  "signalled p = (cancel_pool p)\<lparr>ps_ctx := True, ps_job_ctx := map_option (\<lambda>c. True) (ps_job_ctx p)\<rparr>"

definition start_workers :: "nat \<Rightarrow> process \<Rightarrow> process" where
  "start_workers n p =
     (let ctx = run_context (ps_ctx p) (ps_job_ctx p)
      in p\<lparr>ps_started := True, ps_job_ctx := ctx,
           ps_pool := run_start n (ctx = Some True) (pl_now (ps_pool p)) (pl_db (ps_pool p))\<rparr>)"

definition close_worker :: "process \<Rightarrow> process" where
  "close_worker p = (cancel_pool p)\<lparr>ps_job_ctx := close_context (ps_job_ctx p)\<rparr>"

text \<open>\<open>Shutdown\<close> closes the listener first.\<close>

definition stop_listening :: "process \<Rightarrow> process" where
  "stop_listening p = (if ps_listener p = Listening then p\<lparr>ps_listener := ListenClosed\<rparr> else p)"

definition exit_code :: "error option \<Rightarrow> nat" where
  "exit_code r = (case r of None \<Rightarrow> 0 | Some e \<Rightarrow> 1)"

text \<open>
  The steps of the main goroutine. \<open>Shutdown\<close> polls: it returns nil when it finds no request in flight, and the
  error of its context when it finds the deadline passed.
\<close>

inductive main_step :: "process \<Rightarrow> process \<Rightarrow> bool" where
  m_wake: "ps_main p = Serving \<Longrightarrow> ps_ctx p \<Longrightarrow> main_step p (p\<lparr>ps_main := Closing\<rparr>)"
| m_close: "ps_main p = Closing \<Longrightarrow>
     main_step p ((stop_listening (close_worker p))\<lparr>ps_main := Draining (pl_now (ps_pool p) + shutdown_grace)\<rparr>)"
| m_drained: "ps_main p = Draining dl \<Longrightarrow> ps_open p = 0 \<Longrightarrow> main_step p (p\<lparr>ps_main := Returned None\<rparr>)"
| m_deadline: "ps_main p = Draining dl \<Longrightarrow> dl \<le> pl_now (ps_pool p) \<Longrightarrow>
     main_step p (p\<lparr>ps_main := Returned (Some (ErrText ''context deadline exceeded''))\<rparr>)"
| m_exit: "ps_main p = Returned r \<Longrightarrow> main_step p (p\<lparr>ps_main := Gone (exit_code r)\<rparr>)"

definition alive :: "process \<Rightarrow> bool" where
  "alive p = (case ps_main p of Gone c \<Rightarrow> False | _ \<Rightarrow> True)"

text \<open>
  A step of the process: of main, a signal, the kill that no process survives, the failure of the listener, a request
  that comes or is answered, the start of the pool's goroutine, a step of the pool, and what happens around it,
  requests' transactions included.
\<close>

inductive process_step :: "(string \<Rightarrow> bool) \<Rightarrow> nat \<Rightarrow> process \<Rightarrow> process \<Rightarrow> bool" for known n where
  p_main: "main_step p q \<Longrightarrow> process_step known n p q"
| p_signal: "alive p \<Longrightarrow> process_step known n p (signalled p)"
| p_kill: "alive p \<Longrightarrow> process_step known n p (p\<lparr>ps_main := Gone 137\<rparr>)"
| p_listen: "alive p \<Longrightarrow> ps_listener p = Listening \<Longrightarrow>
     process_step known n p ((signalled p)\<lparr>ps_listener := ListenFailed\<rparr>)"
| p_accept: "alive p \<Longrightarrow> ps_listener p = Listening \<Longrightarrow> process_step known n p (p\<lparr>ps_open := ps_open p + 1\<rparr>)"
| p_answer: "alive p \<Longrightarrow> 0 < ps_open p \<Longrightarrow> process_step known n p (p\<lparr>ps_open := ps_open p - 1\<rparr>)"
| p_start: "alive p \<Longrightarrow> \<not> ps_started p \<Longrightarrow> process_step known n p (start_workers n p)"
| p_go: "alive p \<Longrightarrow> gstep known (ps_pool p) q \<Longrightarrow> process_step known n p (p\<lparr>ps_pool := q\<rparr>)"
| p_tick: "alive p \<Longrightarrow> process_step known n p (p\<lparr>ps_pool := tick_fires (ps_pool p)\<rparr>)"
| p_world: "alive p \<Longrightarrow> estep (ps_pool p) q \<Longrightarrow> pl_cancelled q = pl_cancelled (ps_pool p) \<Longrightarrow>
     process_step known n p (p\<lparr>ps_pool := q\<rparr>)"

inductive_cases main_stepE: "main_step p q"
inductive_cases process_stepE: "process_step known n p q"

section \<open>The invariant\<close>

text \<open>Every running job has a lease, and none lasts longer than one given now.\<close>

definition leases_bounded :: "time \<Rightarrow> db \<Rightarrow> bool" where
  "leases_bounded now d \<longleftrightarrow>
     (\<forall>j \<in> set (jobs d). j_state j = Running \<longrightarrow> (\<exists>l. j_lease j = Some l \<and> l \<le> now + lease_duration))"

lemma leases_mono: "leases_bounded now d \<Longrightarrow> now \<le> t \<Longrightarrow> jobs d' = jobs d \<Longrightarrow> leases_bounded t d'"
  by (fastforce simp: leases_bounded_def)

lemma leases_upd:
  assumes "leases_bounded now d"
    and "\<And>j. j_state (f j) = Running \<Longrightarrow> j_state j = Running \<and> j_lease (f j) = j_lease j \<or> j_lease (f j) = Some (now + lease_duration)"
  shows "leases_bounded now (d\<lparr>jobs := upd_rows P f (jobs d)\<rparr>)"
  unfolding leases_bounded_def
proof (intro ballI impI)
  fix j assume j: "j \<in> set (jobs (d\<lparr>jobs := upd_rows P f (jobs d)\<rparr>))" "j_state j = Running"
  then have "j \<in> set (upd_rows P f (jobs d))" by simp
  then show "\<exists>l. j_lease j = Some l \<and> l \<le> now + lease_duration"
    using assms(1) assms(2) j(2) by (cases rule: in_upd_rowsE) (fastforce simp: leases_bounded_def)+
qed

lemma leases_outcome:
  assumes "leases_bounded now d"
  shows "leases_bounded now (job_done now i d)" "leases_bounded now (mark_failed now i msg d)"
    "leases_bounded now (fail_job now i msg d)" "leases_bounded now (requeue_expired now d)"
  using assms
  by (auto simp: job_done_def mark_failed_def fail_job_def requeue_expired_def requeued_def split: option.split
      intro!: leases_upd)

lemma leases_step:
  assumes "wstep known u v" "leases_bounded (w_now u) (w_db u)"
  shows "leases_bounded (w_now v) (w_db v)"
  using assms(1)
proof cases
  case (ws_tick t)
  then show ?thesis using leases_mono [OF assms(2)] by simp
next
  case (ws_enqueue q jid kind key payload i d')
  then show ?thesis using assms(2) enqueue_rows [OF ws_enqueue(3)] by (auto simp: leases_bounded_def new_job_def)
next
  case (ws_claim j d')
  from ws_claim(2) obtain r :: job where "d' = (w_db u)\<lparr>jobs := upd_rows (\<lambda>x. j_id x = j_id r) (claimed (w_now u)) (jobs (w_db u))\<rparr>"
    by (rule claim_InrE) blast
  then show ?thesis using leases_upd [OF assms(2)] ws_claim(1) by simp
next
  case (ws_finish j c out)
  then show ?thesis using assms(2) leases_outcome
    by (auto simp: run_job_def split: job_payload.split option.split)
next
  case ws_sweep
  then show ?thesis using assms(2) leases_outcome by simp
next
  case (ws_other d')
  then show ?thesis using leases_mono [OF assms(2)] by simp
qed (use assms(2) in simp)

lemma leases_pool:
  assumes "pool_ok known p" "pstep known p q" "leases_bounded (pl_now p) (pl_db p)"
  shows "leases_bounded (pl_now q) (pl_db q)"
proof -
  have "leases_bounded (w_now v) (w_db v)" if "(wstep known)\<^sup>*\<^sup>* (queue_of p) v" for v
    using that by (induction rule: rtranclp_induct) (use assms(3) leases_step in auto)
  from this [OF pstep_simulated [OF assms(1,2)]] show ?thesis by simp
qed

text \<open>A step of the pool as one of the theory Workers.\<close>

definition pool_fits :: "(string \<Rightarrow> bool) \<Rightarrow> pool \<Rightarrow> bool" where
  "pool_fits known p \<longleftrightarrow> pool_ok known p \<and> leases_bounded (pl_now p) (pl_db p)"

lemma pool_fits_step: "pool_fits known p \<Longrightarrow> pstep known p q \<Longrightarrow> pool_fits known q"
  unfolding pool_fits_def by (blast intro: pool_ok_step leases_pool)

lemma pool_fits_cancelled: "pool_fits known p \<Longrightarrow> pool_fits known (p\<lparr>pl_cancelled := True\<rparr>)"
  by (rule pool_fits_step [OF _ pstep.p_env [OF e_cancel]])

lemma pool_fits_start:
  assumes "pool_fits known p"
  shows "pool_fits known (run_start n c (pl_now p) (pl_db p))"
proof -
  have "distinct (map j_id (jobs (pl_db p)))" using assms by (auto simp: pool_fits_def pool_ok_def one_lease_def)
  then have "pool_ok known (run_start n c (pl_now p) (pl_db p))" by (intro start_pool_ok) (auto simp: pool_start_def)
  then show ?thesis using assms by (simp add: pool_fits_def run_start_def)
qed

definition idle :: "pool \<Rightarrow> bool" where
  "idle p \<longleftrightarrow> pl_workers p = [] \<and> pl_sweeper p = Stopped \<and> pl_runs p = [] \<and> \<not> pl_cancelled p"

text \<open>
  Past its wait the main goroutine has the context done; past Close the pool is cancelled and nothing is accepted;
  and a result without error means that no request is in flight.
\<close>

definition main_ok :: "process \<Rightarrow> bool" where
  "main_ok p \<longleftrightarrow>
     (case ps_main p of
        Serving \<Rightarrow> True
      | Closing \<Rightarrow> ps_ctx p
      | Draining dl \<Rightarrow> ps_ctx p \<and> ps_job_ctx p = Some True \<and> ps_listener p \<noteq> Listening \<and> dl \<le> pl_now (ps_pool p) + shutdown_grace
      | Returned r \<Rightarrow> ps_ctx p \<and> ps_job_ctx p = Some True \<and> ps_listener p \<noteq> Listening \<and> (r = None \<longrightarrow> ps_open p = 0)
      | Gone c \<Rightarrow> c \<in> {0, 1, 137} \<and> (c = 0 \<longrightarrow> ps_open p = 0 \<and> ps_job_ctx p = Some True))"

definition process_ok :: "(string \<Rightarrow> bool) \<Rightarrow> process \<Rightarrow> bool" where
  "process_ok known p \<longleftrightarrow> pool_fits known (ps_pool p) \<and> main_ok p \<and>
     (if ps_started p then ps_job_ctx p = Some (pl_cancelled (ps_pool p)) else idle (ps_pool p)) \<and>
     (ps_ctx p \<longrightarrow> ps_job_ctx p \<noteq> Some False)"

definition process_start :: "process \<Rightarrow> bool" where
  "process_start p \<longleftrightarrow> (\<exists>now d. p = launch now d \<and> distinct (map j_id (jobs d)) \<and> leases_bounded now d)"

lemma idle_stuck: "idle p \<Longrightarrow> \<not> gstep known p q"
  by (auto simp: idle_def elim!: gstepE)

lemma estep_frame:
  "estep p q \<Longrightarrow> pl_now p \<le> pl_now q \<and> (pl_cancelled q = pl_cancelled p \<longrightarrow> idle p \<longrightarrow> idle q)"
  by (auto simp: idle_def elim!: estepE)

lemma gstep_frame: "gstep known p q \<Longrightarrow> pl_now q = pl_now p \<and> pl_cancelled q = pl_cancelled p"
  by (auto simp: pool_updates elim!: gstepE split: if_splits)

lemma process_updates [simp]:
  "ps_main (cancel_pool p) = ps_main p" "ps_ctx (cancel_pool p) = ps_ctx p" "ps_job_ctx (cancel_pool p) = ps_job_ctx p"
  "ps_started (cancel_pool p) = ps_started p" "ps_listener (cancel_pool p) = ps_listener p" "ps_open (cancel_pool p) = ps_open p"
  "pl_now (ps_pool (cancel_pool p)) = pl_now (ps_pool p)"
  "ps_main (stop_listening p) = ps_main p" "ps_ctx (stop_listening p) = ps_ctx p" "ps_job_ctx (stop_listening p) = ps_job_ctx p"
  "ps_started (stop_listening p) = ps_started p" "ps_listener (stop_listening p) \<noteq> Listening" "ps_open (stop_listening p) = ps_open p"
  "ps_pool (stop_listening p) = ps_pool p"
  by (simp_all add: cancel_pool_def stop_listening_def)

lemma cancel_pool_ok:
  assumes "process_ok known p"
  shows "pool_fits known (ps_pool (cancel_pool p))"
    "if ps_started p then pl_cancelled (ps_pool (cancel_pool p)) else idle (ps_pool (cancel_pool p))"
  using assms pool_fits_cancelled by (auto simp: process_ok_def cancel_pool_def)

lemma signalled_ok:
  assumes "process_ok known p"
  shows "process_ok known (signalled p)"
proof -
  have "main_ok (signalled p)" using assms by (auto simp: process_ok_def main_ok_def signalled_def split: main_pc.splits)
  then show ?thesis using cancel_pool_ok [OF assms] assms by (auto simp: process_ok_def signalled_def)
qed

lemma main_step_ok:
  assumes "process_ok known p" "main_step p q"
  shows "process_ok known q"
  using assms(2)
proof cases
  case m_close
  then show ?thesis using cancel_pool_ok [OF assms(1)] assms(1)
    by (auto simp: process_ok_def main_ok_def close_worker_def close_context_def)
next
  case (m_exit r)
  then show ?thesis using assms(1) by (auto simp: process_ok_def main_ok_def exit_code_def split: option.split)
qed (use assms(1) in \<open>auto simp: process_ok_def main_ok_def\<close>)

lemma start_workers_ok:
  assumes "process_ok known p" "\<not> ps_started p"
  shows "process_ok known (start_workers n p)"
proof -
  obtain c where c: "run_context (ps_ctx p) (ps_job_ctx p) = Some c" by (cases "ps_job_ctx p") (simp_all add: run_context_def)
  have "main_ok (start_workers n p)" "ps_ctx p \<longrightarrow> c"
    using assms c by (auto simp: process_ok_def main_ok_def start_workers_def run_context_def run_start_def split: main_pc.splits option.splits)
  then show ?thesis using assms c pool_fits_start
    by (auto simp: process_ok_def start_workers_def run_start_def)
qed

lemma pool_moves_ok:
  assumes "process_ok known p" "alive p" "pstep known (ps_pool p) q" "pl_cancelled q = pl_cancelled (ps_pool p)"
    "pl_now (ps_pool p) \<le> pl_now q" "idle (ps_pool p) \<Longrightarrow> \<not> ps_started p \<Longrightarrow> idle q"
  shows "process_ok known (p\<lparr>ps_pool := q\<rparr>)"
proof -
  have "main_ok (p\<lparr>ps_pool := q\<rparr>)" using assms by (auto simp: process_ok_def main_ok_def split: main_pc.splits)
  then show ?thesis using assms pool_fits_step [of known "ps_pool p" q] by (auto simp: process_ok_def)
qed

lemma process_ok_step:
  assumes "process_ok known p" "process_step known n p q"
  shows "process_ok known q"
  using assms(2)
proof cases
  case p_main
  then show ?thesis by (rule main_step_ok [OF assms(1)])
next
  case p_signal
  then show ?thesis using signalled_ok [OF assms(1)] by simp
next
  case p_listen
  then show ?thesis using signalled_ok [OF assms(1)] by (auto simp: process_ok_def main_ok_def split: main_pc.splits)
next
  case p_start
  then show ?thesis using start_workers_ok [OF assms(1)] by simp
next
  case (p_go pl)
  then show ?thesis using gstep_frame [OF p_go(3)] idle_stuck
    by (auto intro!: pool_moves_ok [OF assms(1)] intro: pstep.p_go)
next
  case p_tick
  have "pstep known (ps_pool p) (tick_fires (ps_pool p))" by (rule pstep.p_tick)
  then show ?thesis using p_tick by (auto intro!: pool_moves_ok [OF assms(1)]) (simp_all add: tick_fires_def idle_def)
next
  case (p_world pl)
  then show ?thesis using estep_frame [OF p_world(3)]
    by (auto intro!: pool_moves_ok [OF assms(1)] intro: pstep.p_env)
qed (use assms(1) in \<open>auto simp: process_ok_def main_ok_def alive_def split: main_pc.splits\<close>)

lemma launch_ok: "process_start p \<Longrightarrow> process_ok known p"
  by (auto simp: process_start_def launch_def process_ok_def main_ok_def pool_fits_def pool_ok_def one_lease_def
      idle_pool_def idle_def live_goroutines_def queue_of_def)

interpretation processes: invariant_system process_start "process_step known n" "process_ok known"
  for known n
  by unfold_locales (rule launch_ok, assumption, rule process_ok_step)

section \<open>Exit\<close>

text \<open>What is left of the way of the main goroutine, and that nothing leads back.\<close>

fun main_rank :: "main_pc \<Rightarrow> nat" where
  "main_rank Serving = 4"
| "main_rank Closing = 3"
| "main_rank (Draining dl) = 2"
| "main_rank (Returned r) = 1"
| "main_rank (Gone c) = 0"

lemma main_rank_step: "main_step p q \<Longrightarrow> main_rank (ps_main q) < main_rank (ps_main p) \<and> ps_ctx q = ps_ctx p"
  by (auto simp: close_worker_def elim!: main_stepE)

lemma process_rank:
  assumes "process_step known n p q"
  shows "main_rank (ps_main q) \<le> main_rank (ps_main p) \<and> (ps_ctx p \<longrightarrow> ps_ctx q)"
  using assms
proof cases
  case p_main
  then show ?thesis using main_rank_step [of p q] by auto
qed (auto simp: signalled_def start_workers_def Let_def)

lemma gone_stays: "ps_main p = Gone c \<Longrightarrow> \<not> process_step known n p q"
  by (auto simp: alive_def elim!: process_stepE main_stepE)

text \<open>
  A listener that cannot listen ends the process as a signal does: \<open>run\<close> returns what \<open>Shutdown\<close> returns, and the
  exit code is 0.
\<close>

lemma listen_failure_exits_zero:
  "\<exists>p. ps_main p = Gone 0 \<and> ps_listener p = ListenFailed \<and> reachable ((=) (launch now d)) (process_step known n) p"
proof -
  let ?R = "reachable ((=) (launch now d)) (process_step known n)"
  let ?p1 = "(signalled (launch now d))\<lparr>ps_listener := ListenFailed\<rparr>"
  let ?p2 = "?p1\<lparr>ps_main := Closing\<rparr>"
  let ?p3 = "(stop_listening (close_worker ?p2))\<lparr>ps_main := Draining (pl_now (ps_pool ?p2) + shutdown_grace)\<rparr>"
  let ?p4 = "?p3\<lparr>ps_main := Returned None\<rparr>" and ?p5 = "?p3\<lparr>ps_main := Gone 0\<rparr>"
  have sel: "ps_main ?p1 = Serving" "ps_ctx ?p1" "ps_open ?p3 = 0" "ps_listener ?p5 = ListenFailed"
    by (simp_all add: signalled_def close_worker_def cancel_pool_def launch_def stop_listening_def)
  have start: "?R (launch now d)" by (simp add: reach_start)
  have "process_step known n (launch now d) ?p1" by (rule p_listen) (simp_all add: alive_def launch_def)
  then have 1: "?R ?p1" by (rule reach_step [OF start])
  have 2: "?R ?p2" by (rule reach_step [OF 1 p_main [OF m_wake [OF sel(1,2)]]])
  have 3: "?R ?p3" by (rule reach_step [OF 2 p_main [OF m_close]]) simp
  have "main_step ?p3 ?p4" by (rule m_drained) (use sel(3) in simp_all)
  then have 4: "?R ?p4" by (rule reach_step [OF 3 p_main])
  have "main_step ?p4 (?p4\<lparr>ps_main := Gone (exit_code None)\<rparr>)" by (rule m_exit) simp
  then have "?R ?p5" using reach_step [OF 4 p_main] by (fastforce simp: exit_code_def)
  then show ?thesis using sel(4) by (intro exI [of _ ?p5]) simp
qed

section \<open>Properties\<close>


text \<open>
  C21. No job is lost with the process: however it ended, by its own exit with jobs still running or by a kill at any
  moment, it does nothing more, a new process can start from the database it leaves, and a sweep later than the longest
  lease puts every job that was left running back into the queue, due at once with its payload and attempts, and
  touches no other.
\<close>

theorem jobs_outlive_process:
  assumes "reachable process_start (process_step known n) p" "ps_main p = Gone c" "pl_now (ps_pool p) + lease_duration < t"
  shows "(\<forall>q. \<not> process_step known n p q) \<and> process_start (launch t (pl_db (ps_pool p))) \<and>
    jobs (requeue_expired t (pl_db (ps_pool p))) =
      map (\<lambda>j. if j_state j = Running then requeued t t j else j) (jobs (pl_db (ps_pool p))) \<and>
    (\<forall>j \<in> set (jobs (requeue_expired t (pl_db (ps_pool p)))). j_state j \<noteq> Running)"
proof -
  let ?d = "pl_db (ps_pool p)"
  have fits: "pool_fits known (ps_pool p)" using processes.reachable_inv [OF assms(1)] by (simp add: process_ok_def)
  have late: "lease_expired t j = (j_state j = Running)" if "j \<in> set (jobs ?d)" for j
    using that fits assms(3) by (fastforce simp: pool_fits_def leases_bounded_def lease_expired_def)
  then have rows: "jobs (requeue_expired t ?d) = map (\<lambda>j. if j_state j = Running then requeued t t j else j) (jobs ?d)"
    by (simp add: requeue_expired_def upd_rows_def)
  have "process_start (launch t ?d)"
    using fits assms(3) leases_mono [of "pl_now (ps_pool p)" ?d t ?d]
    by (auto simp: process_start_def pool_fits_def pool_ok_def one_lease_def lease_duration_def)
  then show ?thesis using gone_stays [OF assms(2)] rows by (auto simp: requeued_def)
qed

section \<open>A process at work\<close>

text \<open>A process whose pool has claimed a job: before a signal, and killed.\<close>

definition sample_process :: process where
  "sample_process = (start_workers 1 (launch 0 (empty_db\<lparr>jobs := [sample_job]\<rparr>)))\<lparr>ps_pool := sample_running\<rparr>"

lemma sample_process_reachable: "reachable process_start (process_step (\<lambda>k. True) 1) sample_process"
proof -
  let ?p0 = "launch 0 (empty_db\<lparr>jobs := [sample_job]\<rparr>)" and ?R = "reachable process_start (process_step (\<lambda>k. True) 1)"
  let ?p1 = "start_workers 1 ?p0"
  let ?p2 = "?p1\<lparr>ps_pool := set_worker 0 Claiming sample_pool\<rparr>"
  have "process_start ?p0"
    unfolding process_start_def by (intro exI conjI, rule refl) (simp_all add: leases_bounded_def sample_job_def new_job_def)
  then have 0: "?R ?p0" by (rule reach_start)
  have alive: "alive ?p0" "alive ?p1" "alive ?p2"
    by (simp_all add: alive_def launch_def start_workers_def Let_def)
  have "\<not> ps_started ?p0" by (simp add: launch_def)
  then have 1: "?R ?p1" by (intro reach_step [OF 0] p_start alive)
  have "ps_pool ?p1 = sample_pool"
    by (simp add: start_workers_def launch_def idle_pool_def sample_pool_def run_context_def Let_def)
  then have 2: "?R ?p2" by (intro reach_step [OF 1] p_go alive) (simp add: sample_pool_steps)
  have "process_step (\<lambda>k. True) 1 ?p2 (?p2\<lparr>ps_pool := sample_running\<rparr>)"
    by (intro p_go alive) (simp add: sample_pool_steps)
  then show ?thesis using 2 by (auto simp: sample_process_def intro: reach_step)
qed

lemma sample_process_sel: "alive sample_process" "ps_pool sample_process = sample_running" "ps_main sample_process = Serving"
  by (simp_all add: sample_process_def alive_def launch_def start_workers_def Let_def)


lemma jobs_outlive_process_witness:
  "map j_state (jobs (pl_db sample_running)) = [Running] \<and>
   map j_state (jobs (requeue_expired (200 * second) (pl_db sample_running))) = [Queued]"
proof -
  let ?p = "sample_process\<lparr>ps_main := Gone 137\<rparr>"
  have "reachable process_start (process_step (\<lambda>k. True) 1) ?p"
    by (rule reach_step [OF sample_process_reachable p_kill [OF sample_process_sel(1)]])
  moreover have rows: "pl_now sample_running = 0" "jobs (pl_db sample_running) = [claimed 0 sample_job]"
    by (simp_all add: sample_running_def spawn_run_def set_worker_def sample_pool_def run_start_def)
  ultimately show ?thesis
    using jobs_outlive_process [of "\<lambda>k. True" 1 ?p 137 "200 * second"] sample_process_sel(2)
    by (simp add: lease_duration_def requeued_def)
qed

end
