(* ===== verification/Rows.thy ===== *)
theory Rows
  imports Queries
begin

text \<open>
  Rows as they cross the driver: the column lists of the statements of internal/store/queries.go, the cells of a result, and
  the \<open>scan...\<close> functions that read a row by position into a struct.
\<close>

section \<open>Cells and destinations\<close>

text \<open>The values of PostgreSQL in the result of a statement; an enum comes as its text.\<close>

datatype cell =
    CUuid uuid
  | CText string
  | CBytes bytes
  | CInt int
  | CTime time
  | CJson json
  | CVariants "(string \<times> variant) list"
  | CNull

definition opt_cell :: "('a \<Rightarrow> cell) \<Rightarrow> 'a option \<Rightarrow> cell" where
  "opt_cell f x = (case x of None \<Rightarrow> CNull | Some v \<Rightarrow> f v)"

text \<open>
  \<open>Scan\<close> of pgx into one destination: a value of another type and a NULL for a destination that is no pointer are errors,
  and a NULL leaves a pointer or a byte slice nil.
\<close>

definition scan_error :: error where
  "scan_error = ErrText ''can't scan into dest''"

definition scan_count :: error where
  "scan_count = ErrText ''number of field descriptions must equal number of destinations''"

fun to_uuid :: "cell \<Rightarrow> error + uuid" where
  "to_uuid (CUuid u) = Inr u"
| "to_uuid c = Inl scan_error"

fun to_text :: "cell \<Rightarrow> error + string" where
  "to_text (CText s) = Inr s"
| "to_text c = Inl scan_error"

fun to_bytes :: "cell \<Rightarrow> error + bytes" where
  "to_bytes (CBytes b) = Inr b"
| "to_bytes c = Inl scan_error"

fun to_int :: "cell \<Rightarrow> error + int" where
  "to_int (CInt n) = Inr n"
| "to_int c = Inl scan_error"

fun to_time :: "cell \<Rightarrow> error + time" where
  "to_time (CTime t) = Inr t"
| "to_time c = Inl scan_error"

fun to_json :: "cell \<Rightarrow> error + json" where
  "to_json (CJson j) = Inr j"
| "to_json c = Inl scan_error"

fun to_variants :: "cell \<Rightarrow> error + (string \<times> variant) list" where
  "to_variants (CVariants vs) = Inr vs"
| "to_variants c = Inl scan_error"

definition to_opt :: "(cell \<Rightarrow> error + 'a) \<Rightarrow> cell \<Rightarrow> error + 'a option" where
  "to_opt f c = (if c = CNull then Inr None else map_sum id Some (f c))"

definition scan_then :: "error + 'a \<Rightarrow> ('a \<Rightarrow> error + 'b) \<Rightarrow> error + 'b" where
  "scan_then r k = (case r of Inl e \<Rightarrow> Inl e | Inr x \<Rightarrow> k x)"

section \<open>Columns\<close>

text \<open>The names in a column list, and a row under them; a name that the table does not have is SQLSTATE 42703.\<close>

definition separates :: "char \<Rightarrow> bool" where
  "separates c = (c = CHR '','' \<or> c = CHR '' '' \<or> c = CHR 0x0A \<or> c = CHR 0x09)"

fun names_from :: "string \<Rightarrow> string \<Rightarrow> string list" where
  "names_from w [] = (if w = [] then [] else [rev w])"
| "names_from w (c # cs) =
     (if separates c then (if w = [] then names_from [] cs else rev w # names_from [] cs)
      else names_from (c # w) cs)"

definition column_names :: "string \<Rightarrow> string list" where
  "column_names s = names_from [] s"

fun select_row :: "('r \<Rightarrow> string \<Rightarrow> cell option) \<Rightarrow> 'r \<Rightarrow> string list \<Rightarrow> error + cell list" where
  "select_row f r [] = Inr []"
| "select_row f r (c # cs) =
     (case f r c of
        None \<Rightarrow> Inl (PgError ''42703'')
      | Some x \<Rightarrow> map_sum id (Cons x) (select_row f r cs))"

definition post_columns :: string where
  "post_columns = ''id, tenant_id, author_id, slug, title, excerpt, content_markdown,'' @ [CHR 0x0A, CHR 0x09] @
     ''content_html, status, published_at, metadata, created_at, updated_at''"

definition summary_columns :: string where
  "summary_columns = ''id, tenant_id, author_id, slug, title, excerpt, status, published_at, created_at''"

definition image_columns :: string where
  "image_columns = ''id, tenant_id, post_id, r2_key, url, width, height, size_bytes, mime_type, variants, created_at''"

definition session_columns :: string where
  "session_columns = ''token_hash, user_id, scope, expires_at, created_at''"

definition user_columns :: string where
  "user_columns = ''id, email, password_hash, display_name''"

definition flow_columns :: string where
  "flow_columns = ''id, provider, state, code_verifier, redirect, session_token_hash, expires_at, created_at''"

definition token_columns :: string where
  "token_columns = ''user_id, provider, refresh_token, access_token, token_scopes, token_expiry''"

definition identity_columns :: string where
  "identity_columns = ''provider, subject, user_id''"

definition invitation_columns :: string where
  "invitation_columns = ''tenant_id, role''"

definition import_columns :: string where
  "import_columns = ''id, tenant_id, user_id, post_id, source_format, source_key,'' @ [CHR 0x0A, CHR 0x09] @
     ''status, markdown_out, error, created_at, updated_at''"

definition tenant_columns :: string where
  "tenant_columns = ''id, slug, name, settings, content_version, created_at, updated_at''"

definition member_columns :: string where
  "member_columns = ''u.id, u.email, u.display_name, m.role''"

definition view_columns :: string where
  "view_columns = ''m.tenant_id, t.slug, t.name, m.role''"

text \<open>The rows of the tables under the columns of the migrations, as far as a column list names them.\<close>

definition post_cell :: "post \<Rightarrow> string \<Rightarrow> cell option" where
  "post_cell p = map_of
    [(''id'', CUuid (p_id p)),
     (''tenant_id'', CUuid (p_tenant p)),
     (''author_id'', CUuid (p_author p)),
     (''slug'', CText (p_slug p)),
     (''title'', CText (p_title p)),
     (''excerpt'', CText (p_excerpt p)),
     (''content_markdown'', CText (p_markdown p)),
     (''content_html'', CText (p_html p)),
     (''status'', CText (post_status_string (p_status p))),
     (''published_at'', opt_cell CTime (p_published p)),
     (''metadata'', opt_cell CJson (p_metadata p)),
     (''created_at'', CTime (p_created p)),
     (''updated_at'', CTime (p_updated p))]"

definition image_cell :: "post_image \<Rightarrow> string \<Rightarrow> cell option" where
  "image_cell x = map_of
    [(''id'', CUuid (pi_id x)),
     (''tenant_id'', CUuid (pi_tenant x)),
     (''post_id'', CUuid (pi_post x)),
     (''r2_key'', CText (pi_key x)),
     (''url'', CText (pi_url x)),
     (''width'', CInt (pi_width x)),
     (''height'', CInt (pi_height x)),
     (''size_bytes'', CInt (pi_size x)),
     (''mime_type'', CText (pi_mime x)),
     (''position'', CInt (pi_position x)),
     (''variants'', CVariants (pi_variants x)),
     (''created_at'', CTime (pi_created x))]"

definition session_cell :: "session \<Rightarrow> string \<Rightarrow> cell option" where
  "session_cell s = map_of
    [(''token_hash'', CBytes (s_hash s)),
     (''user_id'', CUuid (s_user s)),
     (''scope'', opt_cell CUuid (s_scope s)),
     (''expires_at'', CTime (s_expires s)),
     (''created_at'', CTime (s_created s))]"

definition user_cell :: "user \<Rightarrow> string \<Rightarrow> cell option" where
  "user_cell u = map_of
    [(''id'', CUuid (us_id u)),
     (''email'', CText (us_email u)),
     (''password_hash'', opt_cell CText (us_password u)),
     (''display_name'', CText (us_display u)),
     (''created_at'', CTime (us_created u))]"

definition flow_cell :: "oauth_flow \<Rightarrow> string \<Rightarrow> cell option" where
  "flow_cell f = map_of
    [(''id'', CUuid (f_id f)),
     (''provider'', CText (f_provider f)),
     (''state'', CBytes (f_state f)),
     (''code_verifier'', CBytes (f_verifier f)),
     (''redirect'', CText (f_redirect f)),
     (''session_token_hash'', opt_cell CBytes (f_session f)),
     (''expires_at'', CTime (f_expires f)),
     (''created_at'', CTime (f_created f))]"

definition token_cell :: "oauth_token \<Rightarrow> string \<Rightarrow> cell option" where
  "token_cell k = map_of
    [(''user_id'', CUuid (k_user k)),
     (''provider'', CText (k_provider k)),
     (''refresh_token'', opt_cell CBytes (k_refresh k)),
     (''access_token'', opt_cell CBytes (k_access k)),
     (''token_scopes'', CText (k_scopes k)),
     (''token_expiry'', opt_cell CTime (k_expiry k))]"

definition identity_cell :: "identity \<Rightarrow> string \<Rightarrow> cell option" where
  "identity_cell x = map_of
    [(''provider'', CText (id_provider x)),
     (''subject'', CText (id_subject x)),
     (''user_id'', CUuid (id_user x))]"

definition invitation_cell :: "invitation \<Rightarrow> string \<Rightarrow> cell option" where
  "invitation_cell x = map_of
    [(''id'', CUuid (i_id x)),
     (''tenant_id'', CUuid (i_tenant x)),
     (''email'', opt_cell CText (i_email x)),
     (''role'', CText (i_role x)),
     (''token_hash'', opt_cell CBytes (i_token x)),
     (''expires_at'', CTime (i_expires x)),
     (''consumed_at'', opt_cell CTime (i_consumed x))]"

definition import_cell :: "doc_import \<Rightarrow> string \<Rightarrow> cell option" where
  "import_cell x = map_of
    [(''id'', CUuid (im_id x)),
     (''tenant_id'', CUuid (im_tenant x)),
     (''user_id'', CUuid (im_user x)),
     (''post_id'', opt_cell CUuid (im_post x)),
     (''source_format'', CText (im_format x)),
     (''source_key'', CText (im_key x)),
     (''status'', CText (import_status_string (im_status x))),
     (''markdown_out'', opt_cell CText (im_markdown x)),
     (''error'', opt_cell CText (im_error x)),
     (''created_at'', CTime (im_created x)),
     (''updated_at'', CTime (im_updated x))]"

definition tenant_cell :: "tenant \<Rightarrow> string \<Rightarrow> cell option" where
  "tenant_cell t = map_of
    [(''id'', CUuid (t_id t)),
     (''slug'', CText (t_slug t)),
     (''name'', CText (t_name t)),
     (''settings'', CJson (t_settings t)),
     (''content_version'', CInt (t_version t)),
     (''created_at'', CTime (t_created t)),
     (''updated_at'', CTime (t_updated t))]"

text \<open>The joined rows of the members of a tenant and of the tenants of a user.\<close>

definition member_cell :: "user \<times> membership \<Rightarrow> string \<Rightarrow> cell option" where
  "member_cell x = map_of
    [(''u.id'', CUuid (us_id (fst x))),
     (''u.email'', CText (us_email (fst x))),
     (''u.display_name'', CText (us_display (fst x))),
     (''m.role'', CText (m_role (snd x)))]"

definition view_cell :: "membership \<times> tenant \<Rightarrow> string \<Rightarrow> cell option" where
  "view_cell x = map_of
    [(''m.tenant_id'', CUuid (m_tenant (fst x))),
     (''t.slug'', CText (t_slug (snd x))),
     (''t.name'', CText (t_name (snd x))),
     (''m.role'', CText (m_role (fst x)))]"

section \<open>Scanners\<close>

definition scan_post :: "cell list \<Rightarrow> error + post" where
  "scan_post row =
     (case row of
        [i, t, a, sl, ti, ex, md, ht, st, pu, me, cr, up] \<Rightarrow>
          scan_then (to_uuid i) (\<lambda>i. scan_then (to_uuid t) (\<lambda>t.
          scan_then (to_uuid a) (\<lambda>a. scan_then (to_text sl) (\<lambda>sl.
          scan_then (to_text ti) (\<lambda>ti. scan_then (to_text ex) (\<lambda>ex.
          scan_then (to_text md) (\<lambda>md. scan_then (to_text ht) (\<lambda>ht.
          scan_then (to_text st) (\<lambda>st. scan_then (to_opt to_time pu) (\<lambda>pu.
          scan_then (to_opt to_json me) (\<lambda>me. scan_then (to_time cr) (\<lambda>cr.
          scan_then (to_time up) (\<lambda>up. scan_then (parse_post_status st) (\<lambda>ps.
          Inr \<lparr>p_id = i, p_tenant = t, p_author = a, p_slug = sl, p_title = ti, p_excerpt = ex, p_markdown = md, p_html = ht,
            p_status = ps, p_published = pu, p_metadata = me, p_created = cr, p_updated = up\<rparr>))))))))))))))
      | _ \<Rightarrow> Inl scan_count)"

definition scan_summary :: "cell list \<Rightarrow> error + post_summary" where
  "scan_summary row =
     (case row of
        [i, t, a, sl, ti, ex, st, pu, cr] \<Rightarrow>
          scan_then (to_uuid i) (\<lambda>i. scan_then (to_uuid t) (\<lambda>t.
          scan_then (to_uuid a) (\<lambda>a. scan_then (to_text sl) (\<lambda>sl.
          scan_then (to_text ti) (\<lambda>ti. scan_then (to_text ex) (\<lambda>ex.
          scan_then (to_text st) (\<lambda>st. scan_then (to_opt to_time pu) (\<lambda>pu.
          scan_then (to_time cr) (\<lambda>cr. scan_then (parse_post_status st) (\<lambda>ps.
          Inr \<lparr>ps_id = i, ps_tenant = t, ps_author = a, ps_slug = sl, ps_title = ti, ps_excerpt = ex, ps_status = ps,
            ps_published = pu, ps_created = cr\<rparr>))))))))))
      | _ \<Rightarrow> Inl scan_count)"

text \<open>The struct has no position; the record has 0 for it.\<close>

definition scan_image :: "cell list \<Rightarrow> error + post_image" where
  "scan_image row =
     (case row of
        [i, t, p, k, u, w, h, sz, mi, va, cr] \<Rightarrow>
          scan_then (to_uuid i) (\<lambda>i. scan_then (to_uuid t) (\<lambda>t.
          scan_then (to_uuid p) (\<lambda>p. scan_then (to_text k) (\<lambda>k.
          scan_then (to_text u) (\<lambda>u. scan_then (to_int w) (\<lambda>w.
          scan_then (to_int h) (\<lambda>h. scan_then (to_int sz) (\<lambda>sz.
          scan_then (to_text mi) (\<lambda>mi. scan_then (to_variants va) (\<lambda>va.
          scan_then (to_time cr) (\<lambda>cr.
          Inr \<lparr>pi_id = i, pi_tenant = t, pi_post = p, pi_key = k, pi_url = u, pi_width = w, pi_height = h, pi_size = sz,
            pi_mime = mi, pi_position = 0, pi_variants = va, pi_created = cr\<rparr>)))))))))))
      | _ \<Rightarrow> Inl scan_count)"

definition scan_session :: "cell list \<Rightarrow> error + session" where
  "scan_session row =
     (case row of
        [h, u, sc, ex, cr] \<Rightarrow>
          scan_then (to_bytes h) (\<lambda>h. scan_then (to_uuid u) (\<lambda>u.
          scan_then (to_opt to_uuid sc) (\<lambda>sc. scan_then (to_time ex) (\<lambda>ex.
          scan_then (to_time cr) (\<lambda>cr.
          Inr \<lparr>s_hash = h, s_user = u, s_scope = sc, s_expires = ex, s_created = cr\<rparr>)))))
      | _ \<Rightarrow> Inl scan_count)"

text \<open>User has four of the columns, a member and an invitation the ones below.\<close>

definition scan_user :: "cell list \<Rightarrow> error + uuid \<times> string \<times> string option \<times> string" where
  "scan_user row =
     (case row of
        [i, em, pw, di] \<Rightarrow>
          scan_then (to_uuid i) (\<lambda>i. scan_then (to_text em) (\<lambda>em.
          scan_then (to_opt to_text pw) (\<lambda>pw. scan_then (to_text di) (\<lambda>di.
          Inr (i, em, pw, di)))))
      | _ \<Rightarrow> Inl scan_count)"

definition scan_flow :: "cell list \<Rightarrow> error + oauth_flow" where
  "scan_flow row =
     (case row of
        [i, pr, st, cv, re, sh, ex, cr] \<Rightarrow>
          scan_then (to_uuid i) (\<lambda>i. scan_then (to_text pr) (\<lambda>pr.
          scan_then (to_bytes st) (\<lambda>st. scan_then (to_bytes cv) (\<lambda>cv.
          scan_then (to_text re) (\<lambda>re. scan_then (to_opt to_bytes sh) (\<lambda>sh.
          scan_then (to_time ex) (\<lambda>ex. scan_then (to_time cr) (\<lambda>cr.
          Inr \<lparr>f_id = i, f_provider = pr, f_state = st, f_verifier = cv, f_redirect = re, f_session = sh,
            f_expires = ex, f_created = cr\<rparr>))))))))
      | _ \<Rightarrow> Inl scan_count)"

definition scan_token :: "cell list \<Rightarrow> error + oauth_token" where
  "scan_token row =
     (case row of
        [u, pr, rt, at, sc, ex] \<Rightarrow>
          scan_then (to_uuid u) (\<lambda>u. scan_then (to_text pr) (\<lambda>pr.
          scan_then (to_opt to_bytes rt) (\<lambda>rt. scan_then (to_opt to_bytes at) (\<lambda>at.
          scan_then (to_text sc) (\<lambda>sc. scan_then (to_opt to_time ex) (\<lambda>ex.
          Inr \<lparr>k_user = u, k_provider = pr, k_refresh = rt, k_access = at, k_scopes = sc, k_expiry = ex\<rparr>))))))
      | _ \<Rightarrow> Inl scan_count)"

definition scan_identity :: "cell list \<Rightarrow> error + identity" where
  "scan_identity row =
     (case row of
        [pr, su, u] \<Rightarrow>
          scan_then (to_text pr) (\<lambda>pr. scan_then (to_text su) (\<lambda>su.
          scan_then (to_uuid u) (\<lambda>u.
          Inr \<lparr>id_provider = pr, id_subject = su, id_user = u\<rparr>)))
      | _ \<Rightarrow> Inl scan_count)"

definition scan_invitation :: "cell list \<Rightarrow> error + uuid \<times> string" where
  "scan_invitation row =
     (case row of
        [t, ro] \<Rightarrow>
          scan_then (to_uuid t) (\<lambda>t. scan_then (to_text ro) (\<lambda>ro.
          Inr (t, ro)))
      | _ \<Rightarrow> Inl scan_count)"

definition scan_import :: "cell list \<Rightarrow> error + doc_import" where
  "scan_import row =
     (case row of
        [i, t, u, p, fo, k, st, md, er, cr, up] \<Rightarrow>
          scan_then (to_uuid i) (\<lambda>i. scan_then (to_uuid t) (\<lambda>t.
          scan_then (to_uuid u) (\<lambda>u. scan_then (to_opt to_uuid p) (\<lambda>p.
          scan_then (to_text fo) (\<lambda>fo. scan_then (to_text k) (\<lambda>k.
          scan_then (to_text st) (\<lambda>st. scan_then (to_opt to_text md) (\<lambda>md.
          scan_then (to_opt to_text er) (\<lambda>er. scan_then (to_time cr) (\<lambda>cr.
          scan_then (to_time up) (\<lambda>up. scan_then (parse_import_status st) (\<lambda>ps.
          Inr \<lparr>im_id = i, im_tenant = t, im_user = u, im_post = p, im_format = fo, im_key = k, im_status = ps,
            im_markdown = md, im_error = er, im_created = cr, im_updated = up\<rparr>))))))))))))
      | _ \<Rightarrow> Inl scan_count)"

definition scan_tenant :: "cell list \<Rightarrow> error + tenant" where
  "scan_tenant row =
     (case row of
        [i, sl, na, se, ve, cr, up] \<Rightarrow>
          scan_then (to_uuid i) (\<lambda>i. scan_then (to_text sl) (\<lambda>sl.
          scan_then (to_text na) (\<lambda>na. scan_then (to_json se) (\<lambda>se.
          scan_then (to_int ve) (\<lambda>ve. scan_then (to_time cr) (\<lambda>cr.
          scan_then (to_time up) (\<lambda>up.
          Inr \<lparr>t_id = i, t_slug = sl, t_name = na, t_settings = se, t_version = ve, t_created = cr, t_updated = up\<rparr>)))))))
      | _ \<Rightarrow> Inl scan_count)"

definition scan_member :: "cell list \<Rightarrow> error + uuid \<times> string \<times> string \<times> string" where
  "scan_member row =
     (case row of
        [u, em, di, ro] \<Rightarrow>
          scan_then (to_uuid u) (\<lambda>u. scan_then (to_text em) (\<lambda>em.
          scan_then (to_text di) (\<lambda>di. scan_then (to_text ro) (\<lambda>ro.
          Inr (u, em, di, ro)))))
      | _ \<Rightarrow> Inl scan_count)"

definition scan_view :: "cell list \<Rightarrow> error + uuid \<times> string \<times> string \<times> string" where
  "scan_view row =
     (case row of
        [t, sl, na, ro] \<Rightarrow>
          scan_then (to_uuid t) (\<lambda>t. scan_then (to_text sl) (\<lambda>sl.
          scan_then (to_text na) (\<lambda>na. scan_then (to_text ro) (\<lambda>ro.
          Inr (t, sl, na, ro)))))
      | _ \<Rightarrow> Inl scan_count)"

text \<open>The argument of an update of the status: NULL, or its text.\<close>

definition import_status_ptr :: "import_status option \<Rightarrow> cell" where
  "import_status_ptr s = opt_cell (\<lambda>x. CText (import_status_string x)) s"

definition read_row :: "('r \<Rightarrow> string \<Rightarrow> cell option) \<Rightarrow> string \<Rightarrow> (cell list \<Rightarrow> error + 'a) \<Rightarrow> 'r \<Rightarrow> error + 'a" where
  "read_row f columns scan r = scan_then (select_row f r (column_names columns)) scan"

section \<open>Lemmas\<close>

lemma scan_then_simps [simp]: "scan_then (Inr x) k = k x" "scan_then (Inl e) k = Inl e"
  by (simp_all add: scan_then_def)

lemma to_opt_cell:
  assumes "\<And>x. f (g x) = Inr x" "f CNull = Inl scan_error"
  shows "to_opt f (opt_cell g x) = Inr x"
proof (cases x)
  case (Some v)
  have "g v \<noteq> CNull" using assms by (metis sum.distinct(1))
  with Some show ?thesis using assms(1) by (simp add: to_opt_def opt_cell_def)
qed (simp add: to_opt_def opt_cell_def)

lemma to_opt_cells [simp]:
  "to_opt to_uuid (opt_cell CUuid u) = Inr u" "to_opt to_text (opt_cell CText s) = Inr s"
  "to_opt to_bytes (opt_cell CBytes b) = Inr b" "to_opt to_time (opt_cell CTime t) = Inr t"
  "to_opt to_json (opt_cell CJson j) = Inr j"
  by (rule to_opt_cell; simp)+

text \<open>The column lists as names.\<close>

lemma column_lists:
  "column_names post_columns = [''id'', ''tenant_id'', ''author_id'', ''slug'', ''title'', ''excerpt'', ''content_markdown'', ''content_html'', ''status'', ''published_at'', ''metadata'', ''created_at'', ''updated_at'']"
  "column_names summary_columns = [''id'', ''tenant_id'', ''author_id'', ''slug'', ''title'', ''excerpt'', ''status'', ''published_at'', ''created_at'']"
  "column_names image_columns = [''id'', ''tenant_id'', ''post_id'', ''r2_key'', ''url'', ''width'', ''height'', ''size_bytes'', ''mime_type'', ''variants'', ''created_at'']"
  "column_names session_columns = [''token_hash'', ''user_id'', ''scope'', ''expires_at'', ''created_at'']"
  "column_names user_columns = [''id'', ''email'', ''password_hash'', ''display_name'']"
  "column_names flow_columns = [''id'', ''provider'', ''state'', ''code_verifier'', ''redirect'', ''session_token_hash'', ''expires_at'', ''created_at'']"
  "column_names token_columns = [''user_id'', ''provider'', ''refresh_token'', ''access_token'', ''token_scopes'', ''token_expiry'']"
  "column_names identity_columns = [''provider'', ''subject'', ''user_id'']"
  "column_names invitation_columns = [''tenant_id'', ''role'']"
  "column_names import_columns = [''id'', ''tenant_id'', ''user_id'', ''post_id'', ''source_format'', ''source_key'', ''status'', ''markdown_out'', ''error'', ''created_at'', ''updated_at'']"
  "column_names tenant_columns = [''id'', ''slug'', ''name'', ''settings'', ''content_version'', ''created_at'', ''updated_at'']"
  "column_names member_columns = [''u.id'', ''u.email'', ''u.display_name'', ''m.role'']"
  "column_names view_columns = [''m.tenant_id'', ''t.slug'', ''t.name'', ''m.role'']"
  by (simp_all add: column_names_def separates_def post_columns_def summary_columns_def image_columns_def session_columns_def
      user_columns_def flow_columns_def token_columns_def identity_columns_def invitation_columns_def import_columns_def
      tenant_columns_def member_columns_def view_columns_def)

section \<open>Properties\<close>

text \<open>
  C22. Every row of a table is read back as it is: the column lists name columns the table has, and each scanner takes them in
  the order in which its statement selects them, statuses and NULLs included.
\<close>

theorem rows_read_back:
  "read_row post_cell post_columns scan_post p = Inr p \<and>
   read_row post_cell summary_columns scan_summary p = Inr (post_summary_of p) \<and>
   read_row image_cell image_columns scan_image x = Inr (x\<lparr>pi_position := 0\<rparr>) \<and>
   read_row session_cell session_columns scan_session s = Inr s \<and>
   read_row user_cell user_columns scan_user u = Inr (us_id u, us_email u, us_password u, us_display u) \<and>
   read_row flow_cell flow_columns scan_flow f = Inr f \<and>
   read_row token_cell token_columns scan_token k = Inr k \<and>
   read_row identity_cell identity_columns scan_identity y = Inr y \<and>
   read_row invitation_cell invitation_columns scan_invitation i = Inr (i_tenant i, i_role i) \<and>
   read_row import_cell import_columns scan_import m = Inr m \<and>
   read_row tenant_cell tenant_columns scan_tenant t = Inr t \<and>
   read_row member_cell member_columns scan_member um = Inr (us_id (fst um), us_email (fst um), us_display (fst um), m_role (snd um)) \<and>
   read_row view_cell view_columns scan_view mt = Inr (m_tenant (fst mt), t_slug (snd mt), t_name (snd mt), m_role (fst mt))"
  by (intro conjI) (simp_all add: read_row_def column_lists post_cell_def image_cell_def session_cell_def user_cell_def flow_cell_def
      token_cell_def identity_cell_def invitation_cell_def import_cell_def tenant_cell_def member_cell_def view_cell_def
      scan_post_def scan_summary_def scan_image_def scan_session_def scan_user_def scan_flow_def scan_token_def
      scan_identity_def scan_invitation_def scan_import_def scan_tenant_def scan_member_def scan_view_def post_summary_of_def)

text \<open>An unknown status stops the scan: no post is made up for it.\<close>

lemma unknown_status_refused:
  "read_row (\<lambda>p. (post_cell p)(''status'' \<mapsto> CText st)) post_columns scan_post p = Inr p' \<Longrightarrow>
     st \<in> {''draft'', ''published'', ''archived''}"
  by (auto simp: read_row_def column_lists post_cell_def scan_post_def parse_post_status_def split: if_splits)

end
