(* ===== verification/Bodies.thy ===== *)
theory Bodies
  imports Handlers Json
begin

text \<open>
  \<open>decodeJSON\<close> of internal/api/handlers.go on the bytes of a body: what a handler's request has as its payload.
\<close>

section \<open>From bytes to a payload\<close>

text \<open>The value that a decoder has of a scanned one: strings and names without their escapes.\<close>

function cook :: "json \<Rightarrow> json" where
  "cook JNull = JNull"
| "cook (JBool b) = JBool b"
| "cook (JNum n) = JNum n"
| "cook (JStr s) = JStr (unquote s)"
| "cook (JArr vs) = JArr (map cook vs)"
| "cook (JObj ms) = JObj (map (\<lambda>(k, v). (unquote k, cook v)) ms)"
  by pat_completeness auto

termination
proof (relation "measure size")
  fix ms x k v assume "x \<in> set ms" "(k, v) = (x :: string \<times> json)"
  then have "(k, v) \<in> set ms" by simp
  then show "(v, JObj ms) \<in> measure size" by (induction ms) auto
qed (auto simp: less_Suc_eq_le intro: size_list_estimation')

definition body_limit :: nat where
  "body_limit = 1048576"

text \<open>\<open>More\<close>: something follows that does not close an array or an object.\<close>

definition more_data :: "string \<Rightarrow> bool" where
  "more_data r = (case skip_space r of [] \<Rightarrow> False | c # _ \<Rightarrow> c \<noteq> CHR '']'' \<and> c \<noteq> CHR ''}'')"

text \<open>\<open>texts\<close> is the decoder's message on a text that begins with no value.\<close>

definition payload_of :: "(string \<Rightarrow> string) \<Rightarrow> bytes \<Rightarrow> payload" where
  "payload_of texts b =
     (case scan_value max_nesting (take body_limit b) of
        None \<Rightarrow> Garbled (texts (take body_limit b))
      | Some (v, r) \<Rightarrow> if more_data r then Garbled ''unexpected trailing JSON data'' else Parsed (cook v))"

section \<open>What reaches a handler\<close>

text \<open>A body of plain string members is what it says, whatever follows a closing brace too many.\<close>

lemma payload_plain:
  assumes "ms \<noteq> []" "\<forall>(k, v) \<in> set ms. plain k \<and> plain v" "length (object_text ms @ r) \<le> body_limit" "\<not> more_data r"
  shows "payload_of texts (object_text ms @ r) = Parsed (JObj (map (\<lambda>(k, v). (k, JStr v)) ms))"
proof -
  have "map (\<lambda>(k, v). (unquote k, cook v)) (map (\<lambda>(k, v). (k, JStr v)) ms) = map (\<lambda>(k, v). (k, JStr v)) ms"
    using assms(2) unquote_plain by fastforce
  then show ?thesis using assms(3,4) by (simp add: payload_of_def scan_object [OF assms(1,2)])
qed

lemma trailing_brace_accepted:
  assumes "ms \<noteq> []" "\<forall>(k, v) \<in> set ms. plain k \<and> plain v" "length (object_text ms @ CHR ''}'' # r) \<le> body_limit"
  shows "payload_of texts (object_text ms @ CHR ''}'' # r) = payload_of texts (object_text ms)"
  using assms payload_plain [OF assms(1,2), of "[]" texts] payload_plain [OF assms, of texts]
  by (simp add: more_data_def skip_space_def)

text \<open>The credentials that a client writes are the ones the handlers of sign-up and login read.\<close>

lemma credentials_read:
  assumes "hr_body (cx_request c) = payload_of texts (object_text [(''email'', email), (''password'', pw)])"
    and "plain email" "plain pw" "length (object_text [(''email'', email), (''password'', pw)]) \<le> body_limit"
  shows "creds_request S c = Inr (email, pw)"
proof -
  have "hr_body (cx_request c) = Parsed (JObj [(''email'', JStr email), (''password'', JStr pw)])"
    using payload_plain [of "[(''email'', email), (''password'', pw)]" "[]" texts] assms
    by (simp add: plain_char_def more_data_def skip_space_def)
  then show ?thesis
    by (simp add: creds_request_def decode_struct_def decode_field_def field_then_def equal_fold_def is_ascii_def
        lower_byte_def is_upper_def)
qed

end
