(* ===== verification/Spec2Isabelle.thy ===== *)
theory Spec2Isabelle
  imports Wire Publishing Variants Storage Process Rows Bodies
begin

text \<open>
  open-blog is a multi-tenant blog server in Go: an API of admin and public routes over one PostgreSQL
  database, a pool of background workers, and a browser client. This development models the server.

  \<^bold>\<open>The program.\<close> A request enters the mux of internal/api, passes its wrappers (CORS, rate limits, the
  session) and reaches a handler, which calls one service: internal/posts, media, import, oauth, auth,
  tenancy or publicapi. A service asks internal/authz what the actor may do and runs transactions
  of internal/store, in which row-level security confines posts, post_images and imports to the tenant in
  scope. Work that can wait is a row of the table jobs, written in the transaction that causes it; the
  workers of internal/jobs claim such rows and run the handlers that import, media and cmd/api register.

  \<^bold>\<open>Theories and code.\<close>
  \<^item> \<open>Prelude\<close>, \<open>Errors\<close>, \<open>GoStrings\<close>, \<open>Base64\<close>, \<open>Clock\<close>, \<open>Env\<close>: tables as lists of rows with the verbs of
    SQL, the sentinel errors and the error monad, the functions of strings, strconv, encoding/base64
    and time that the code calls, and the record \<open>env\<close> of what comes from outside. \<open>invariant_system\<close> is
    the interface of every component with a step relation.
  \<^item> \<open>Authz\<close>: internal/authz, roles, capabilities, actors and scopes.
  \<^item> \<open>Db\<close>, \<open>Queries\<close>, \<open>Attachments\<close>, \<open>Accounts\<close>, \<open>OAuthStore\<close>: the tables of migrations/ as the record \<open>db\<close>,
    \<open>Scoped\<close> and \<open>ScopedRW\<close> of store.go with rollback and aborted transactions, and one definition per
    statement of queries.go with the constraints it can violate. \<open>Schema\<close>: what the migrations promise of
    the rows, kept by every statement. \<open>Rows\<close>: the column lists and the functions that scan a row.
  \<^item> \<open>Jobs\<close>: enqueue, claim, outcome and sweep of internal/jobs and the queue \<open>wstep\<close> they make.
    \<open>Workers\<close>: the goroutines of worker.go, statement by statement, which implement that queue, and
    their shutdown. \<open>Background\<close>: the handlers main registers and the run of a job with them.
  \<^item> \<open>Sanitize\<close>: the HTML filter of posts/renderer.go. \<open>Posts\<close>, \<open>PostTable\<close>: posts/service.go, and the posts table under
    any sequence of requests.
  \<^item> \<open>Tenancy\<close>, \<open>PublicApi\<close>: the cache of slugs and the public lists, posts, pages and entity tags. \<open>Cursors\<close>: the
    text of a cursor, over \<open>Timestamps\<close>, RFC 3339 as package time writes and reads it with the calendar behind
    it, and \<open>Json\<close>, the grammar and the strings of encoding/json.
  \<^item> \<open>Auth\<close>, \<open>Hashing\<close>: accounts, sessions and the principal; the limiter of concurrent password hashes.
  \<^item> \<open>OAuth\<close>: sign-in with Google and GitHub: flows, identities, sealed tokens.
  \<^item> \<open>Signing\<close>, \<open>Media\<close>, \<open>Storage\<close>: signatures of requests to the object store, uploads with their confirmation
    and variants, and the client of r2.go. \<open>Variants\<close>: the processor with libvips and ResizeVariants.
  \<^item> \<open>DocImport\<close>: internal/import, from a document to a draft.
  \<^item> \<open>Http\<close>, \<open>Handlers\<close>, \<open>Members\<close>, \<open>Router\<close>: internal/api, from a request to a reply and the next state of
    the process (\<open>serve\<close>). \<open>Bodies\<close>: the bytes of a request's JSON body. \<open>Wire\<close>: the same replies as calls on the ResponseWriter, and the always-on
    chain around them: recovery, request ids, the access log, CORS. \<open>Setup\<close>: cmd/api's configuration and
    module graph, and cmd/seed. \<open>Process\<close>: cmd/migrate, the start of cmd/api and its life as a process, with the
    listener, signals, the pool of workers, the shutdown and the exit.
  \<^item> \<open>Frames\<close>, \<open>Walls\<close>, \<open>Server\<close>, \<open>Limiter\<close>, \<open>Replies\<close>, \<open>Integrity\<close>, \<open>Publishing\<close> and this theory: what holds across
    components. \<open>Integrity\<close> has the whole system as one step relation, \<open>sys_step\<close>, of requests, claims and runs of
    jobs, sweeps and seeds.

  A struct is a record with the fields of the source, an enumeration a datatype, a table a list of rows.
  A statement is a function of type \<open>txn\<close>, on the state of one transaction; an operation of a service is an
  \<open>act\<close>, on the database; a handler gives a \<open>reply\<close> and the next database. Ids, random bytes and clock
  readings are arguments. An error is a value of \<open>error\<close>, so every early return is a branch of the model.

  \<^bold>\<open>Lemmas.\<close> Each component has the effects of its operations as elimination rules (\<open>..._effect\<close>, \<open>..._InrE\<close>), an
  invariant with its interpretation of \<open>invariant_system\<close> where it has state (\<open>one_lease\<close>, \<open>pool_ok\<close>, \<open>process_ok\<close>, \<open>posts_ok\<close>,
  \<open>sessions_exact\<close>, \<open>flow_inv\<close>, \<open>schema_ok\<close>, the cache, the limiter), and its properties. What an operation leaves alone is
  proved by the rules of the locale \<open>db_preserved\<close> of \<open>Frames\<close>, which follow the structure of the code; it is
  interpreted once per relation (\<open>core\<close>, \<open>mem\<close>, \<open>walls\<close>, \<open>roles\<close>, \<open>confined\<close>, \<open>fits\<close>). A property is numbered C and has a
  witness, an instance at a concrete state, where it has hypotheses. Lemmas without a number state what the
  code does against its own comments, such as \<open>email_limit_dead\<close> or \<open>uploads_discarded\<close>.

  \<^bold>\<open>Bounds.\<close> No definition runs out of fuel. The slug probe tries the candidates of the source and gives up
  after 10000, as the code does; \<open>crawl\<close> follows cursors at most as often as its argument says, and
  \<open>paging_complete\<close> shows that one more than the number of posts is enough; conversions are cut at 2 MiB and
  uploads at 32 MiB as in the source; \<open>shutdown_drains\<close> bounds the steps of a cancelled pool. Recursion
  over strings and trees is structural or has its termination proof.

  \<^bold>\<open>Parameters.\<close> goldmark, x/net/html, url.Parse, SHA-256, argon2, AES-GCM, golang.org/x/oauth2, the token buckets
  of x/time/rate, goose, pandoc and pdftotext, libvips, mime.ExtensionsByType, time.ParseDuration, net/http towards
  the object store and the providers, non-ASCII case mapping, uuid.Parse, the time zone of the process, and the texts of JSON decoding errors.
  What the proofs need of one of them is a hypothesis that says so (the parser of identifiers reads what
  String has written, opening a sealed token gives it back, equal passwords have equal keys).

  \<^bold>\<open>Not modelled.\<close> Failures of the connection, except where a step relation has them; NUL bytes and invalid UTF-8
  in texts, except where the code meets them; the collation of the database; overflow of UnixNano; the
  bytes of JSON replies; the mux's cleaning of paths; what makes a handler panic, where the model of the
  handler has no such case; a request reads the clock once. Two transactions interleave in the model where the
  code depends on it (\<open>apply_link\<close>, the resolver, the queue, the pool); a transaction itself is atomic.
  The start-up of libvips and the browser client web/ are left out.
\<close>

section \<open>The list and its entity tag\<close>

text \<open>A request other than a delete leaves the images alone.\<close>

lemma effect_images:
  assumes "op_effect E cfg a op d d'" "\<forall>pid. op \<noteq> OpDelete pid"
  shows "post_images d' = post_images d"
proof -
  have purged: "post_images d' = post_images d1" if "runs (purge q jid t p) d1 () d'" for q jid t p d1
    using that by (rule purge_effect) simp
  show ?thesis using assms(1)
    by cases (use assms(2) in \<open>auto simp: row_becomes_def dest!: purged split: if_splits\<close>)
qed

definition list_tag :: "env \<Rightarrow> api \<Rightarrow> string \<Rightarrow> string \<Rightarrow> int \<Rightarrow> string" where
  "list_tag E ap tag before v = etag E [int_string v, before, tag, itoa (ap_size ap)]"

text \<open>What a list answers from: the tenant's version, its published posts and the images.\<close>

lemma fetch_page_view:
  assumes "published_view t d' = published_view t d" "CHR 0x00 \<notin> set tag"
    and "version_of t d = Some v" "version_of t d' = Some v'"
  shows "\<exists>rows. fetch_page E ap t tag cur d = (Inr (rows, v), d) \<and> fetch_page E ap t tag cur d' = (Inr (rows, v'), d')"
proof -
  obtain b b' where b: "find (\<lambda>x. t_id x = t) (tenants d) = Some b" "t_version b = v"
    "find (\<lambda>x. t_id x = t) (tenants d') = Some b'" "t_version b' = v'"
    using assms(3,4) by (auto simp: version_of_def)
  have "filter (listed q t tag) (posts x) =
      filter (\<lambda>p. visible q (p_tenant p) \<and> (tag = [] \<or> has_tag tag (p_metadata p))) (published_view t x)" for q x
    by (auto simp: listed_def published_view_def intro: filter_cong)
  then have "filter (listed (ro_tx E t) t tag) (posts d') = filter (listed (ro_tx E t) t tag) (posts d)"
    using assms(1) by simp
  then show ?thesis
    using run_fetch_page [OF b(1) assms(2)] run_fetch_page [OF b(3) assms(2)] b by simp
qed

lemma first_images_same:
  assumes "post_images d' = post_images d"
  shows "\<exists>f. fetch_first_images E ap t ids d = (Inr f, d) \<and> fetch_first_images E ap t ids d' = (Inr f, d')"
  using assms by (simp add: fetch_first_images_def scoped_def run_tx_def Let_def)

lemma list_same_view:
  assumes "published_view t d' = published_view t d" "post_images d' = post_images d"
    and "version_of t d = Some v" "version_of t d' = Some v'" "CHR 0x00 \<notin> set tag"
    and "before = [] \<or> (\<exists>c. decode_cursor cc before = Inr c)"
  shows "\<exists>b. \<forall>inm.
    fst (list_tenant E ap cc \<lparr>rq_tag = tag, rq_before = before, rq_if_none_match = inm\<rparr> t d) =
      Inr (conditional inm (list_tag E ap tag before v) b) \<and>
    fst (list_tenant E ap cc \<lparr>rq_tag = tag, rq_before = before, rq_if_none_match = inm\<rparr> t d') =
      Inr (conditional inm (list_tag E ap tag before v') b)"
proof -
  obtain cur where cur: "(if before = [] then Inr None else map_sum id Some (decode_cursor cc before)) = (Inr cur :: error + cursor option)"
  proof (cases "before = []")
    case False
    with assms(6) obtain c where "decode_cursor cc before = Inr c" by blast
    with False that [of "Some c"] show ?thesis by simp
  qed (use that [of None] in simp)
  obtain rows where rows: "fetch_page E ap t tag cur d = (Inr (rows, v), d)" "fetch_page E ap t tag cur d' = (Inr (rows, v'), d')"
    using fetch_page_view [OF assms(1,5,3,4)] by blast
  let ?page = "if length rows > ap_size ap then take (ap_size ap) rows else rows"
  obtain f where "fetch_first_images E ap t (map p_id ?page) d = (Inr f, d)" "fetch_first_images E ap t (map p_id ?page) d' = (Inr f, d')"
    using first_images_same [OF assms(2)] by blast
  with rows show ?thesis
    unfolding list_tenant_def list_request.select_convs cur sum.case
    by (simp add: and_then_def Let_def list_tag_def ret_def) blast
qed

text \<open>An answer with a tag comes from a known tenant, a tag without NUL and a readable cursor.\<close>

lemma list_tagged:
  assumes "fst (list_tenant E ap cc \<lparr>rq_tag = tag, rq_before = before, rq_if_none_match = inm\<rparr> t d) = Inr r"
    and "rs_etag r \<noteq> None"
  shows "\<exists>v. version_of t d = Some v \<and> CHR 0x00 \<notin> set tag \<and> (before = [] \<or> (\<exists>c. decode_cursor cc before = Inr c))"
proof (cases "if before = [] then Inr None else map_sum id Some (decode_cursor cc before) :: error + cursor option")
  case (Inl e)
  then have "r = error_response 422 ''malformed cursor''"
    using assms(1) unfolding list_tenant_def list_request.select_convs Inl by (simp add: ret_def)
  then show ?thesis using assms(2) by (simp add: error_response_def)
next
  case (Inr cur)
  obtain rows v d' where "fetch_page E ap t tag cur d = (Inr (rows, v), d')"
    using assms(1) unfolding list_tenant_def list_request.select_convs Inr sum.case
    by (auto simp: and_then_def split: prod.splits sum.splits)
  then have "version_of t d = Some v" "CHR 0x00 \<notin> set tag"
    unfolding fetch_page_def scoped_runs content_version_def list_statement_def
    by (auto simp: txn_run version_of_def split: if_splits)
  then show ?thesis using Inr by (auto split: if_splits sum.splits simp: map_sum_def)
qed

section \<open>Properties\<close>

text \<open>
  C24. Revalidation of the list is sound across writes: when the client holds the tag of a list answer,
  some actor makes a request of the posts service other than a delete, and the server then answers the
  client's conditional request with 304, the answer without the condition would be the one the client
  holds, tag included; where the tags of the tenant's version and of the next one differ.
\<close>

theorem list_tag_sound:
  assumes "exec_op E cfg jid a op d = (u, d')" "\<forall>pid. op \<noteq> OpDelete pid"
    and "distinct (map p_id (posts d))" "\<not> has_tenant d nil_uuid"
    and "fst (list_tenant E ap cc \<lparr>rq_tag = tag, rq_before = before, rq_if_none_match = []\<rparr> t d) = Inr r" "rs_etag r = Some e"
    and "fst (list_tenant E ap cc \<lparr>rq_tag = tag, rq_before = before, rq_if_none_match = e\<rparr> t d') = Inr r'" "rs_status r' = 304"
    and "\<forall>v. version_of t d = Some v \<longrightarrow> list_tag E ap tag before v \<noteq> list_tag E ap tag before (v + 1)"
  shows "fst (list_tenant E ap cc \<lparr>rq_tag = tag, rq_before = before, rq_if_none_match = []\<rparr> t d') = Inr r"
proof -
  note eff = exec_op_effect [OF assms(1)]
  let ?tag = "list_tag E ap tag before"
  obtain v where v: "version_of t d = Some v" "CHR 0x00 \<notin> set tag" "before = [] \<or> (\<exists>c. decode_cursor cc before = Inr c)"
    using list_tagged [OF assms(5)] assms(6) by auto
  have "rs_etag r' \<noteq> None"
    using conditional_answer_304 [OF handlers_conditional(4)] assms(7,8) by blast
  then obtain v' where v': "version_of t d' = Some v'" using list_tagged [OF assms(7)] by auto
  have hit: "?tag v = ?tag v'" if "r = conditional [] (?tag v) b" "r' = conditional e (?tag v') b'" for b b'
  proof -
    have "e = quoted (?tag v)"
      using that(1) assms(6) by (auto simp: conditional_def etag_matches_def ok_response_def split: if_splits)
    then show ?thesis
      using that(2) assms(8)
      by (auto simp: list_tag_def etag_matches_quoted conditional_def ok_response_def split: if_splits)
  qed
  show ?thesis
  proof (cases "published_view t d' = published_view t d")
    case True
    from list_same_view [OF this effect_images [OF eff assms(2)] v(1) v' v(2,3), of E ap] obtain b where
      "\<forall>inm. fst (list_tenant E ap cc \<lparr>rq_tag = tag, rq_before = before, rq_if_none_match = inm\<rparr> t d) =
        Inr (conditional inm (?tag v) b) \<and>
      fst (list_tenant E ap cc \<lparr>rq_tag = tag, rq_before = before, rq_if_none_match = inm\<rparr> t d') =
        Inr (conditional inm (?tag v') b)" by blast
    with hit [of b b] assms(5,7) show ?thesis by simp
  next
    case False
    with effect_version [OF eff assms(3,2,4)] v v' have "v' = v + 1" by fastforce
    moreover obtain b b' where "r = conditional [] (?tag v) b" "r' = conditional e (?tag v') b'"
      using list_same_view [OF refl refl v(1,1,2,3), of E ap] list_same_view [OF refl refl v' v' v(2,3), of E ap]
        assms(5,7) by fastforce
    ultimately show ?thesis using hit assms(9) v(1) by auto
  qed
qed

lemma list_tag_sound_witness:
  "\<exists>r e. fst (list_tenant sample_env sample_api sample_codec \<lparr>rq_tag = [], rq_before = [], rq_if_none_match = []\<rparr> 1
       sample_blog) = Inr r \<and> rs_etag r = Some e \<and>
     fst (list_tenant sample_env sample_api sample_codec \<lparr>rq_tag = [], rq_before = [], rq_if_none_match = []\<rparr> 1
       (sample_blog\<lparr>posts := [sample_post\<lparr>p_updated := 50\<rparr>]\<rparr>)) = Inr r"
proof -
  let ?d' = "sample_blog\<lparr>posts := [sample_post\<lparr>p_updated := 50\<rparr>]\<rparr>"
  let ?list = "\<lambda>inm d. fst (list_tenant sample_env sample_api sample_codec
      \<lparr>rq_tag = [], rq_before = [], rq_if_none_match = inm\<rparr> 1 d)"
  let ?tag = "list_tag sample_env sample_api [] []"
  have exec: "exec_op sample_env sample_cfg 9 sample_editor (OpUpdate 3 sample_patch) sample_blog = (Inr (), ?d')"
    using sample_metadata_update by (simp add: void_Inr)
  have "published_view 1 ?d' = published_view 1 sample_blog" "post_images ?d' = post_images sample_blog"
    "version_of 1 sample_blog = Some 4" "version_of 1 ?d' = Some 4" "\<not> has_tenant sample_blog nil_uuid"
    by (simp_all add: published_view_def version_of_def has_tenant_def blog_defs)
  note facts = this
  from list_same_view [OF facts(1-4), of "[]" "[]" sample_codec sample_env sample_api]
  obtain b where b: "?list inm sample_blog = Inr (conditional inm (?tag 4) b)" "?list inm ?d' = Inr (conditional inm (?tag 4) b)" for inm
    by auto
  have tags: "?tag 4 \<noteq> ?tag (4 + 1)" "?tag 4 \<noteq> []"
    by (simp_all add: list_tag_def etag_def etag_text_def hex_string_def sample_env_def int_string_def itoa.simps
        digit_char_def numeral_2_eq_2 hex_char_def)
  have first: "rs_etag (conditional [] (?tag 4) b) = Some (quoted (?tag 4))"
    using tags(2) by (simp add: conditional_def etag_matches_def ok_response_def)
  have "conditional (quoted (?tag 4)) (?tag 4) b = not_modified (?tag 4)"
    using etag_matches_quoted by (simp add: list_tag_def conditional_def)
  then have "?list [] ?d' = Inr (conditional [] (?tag 4) b)"
    using list_tag_sound [OF exec _ _ facts(5) b(1) first b(2)] facts(3) tags(1) sample_unique(1)
    by (simp add: not_modified_def)
  with b(1) first show ?thesis by blast
qed

end
